theory Spec2Isabelle
  imports Complex_Main "HOL-Library.AList" "HOL-Library.Char_ord" "HOL-Library.List_Lexorder"
begin

section \<open>PROTEUS: a shallow embedding of the particle transport engine\<close>

text \<open>
  The development follows the JavaScript sources. JavaScript numbers are modelled as
  real numbers; where the source can produce a non-finite number by dividing by zero the
  result type is \<open>jsnum\<close>, which keeps the infinities and NaN apart from the finite
  values. Services that the engine only calls (the current field, the diffusivity field,
  the random number generator) are parameters of the functions that call them.
\<close>

subsection \<open>JavaScript numbers that may be non-finite\<close>

datatype jsnum = Num real | PosInf | NegInf | NaN

text \<open>\<open>a / b\<close> on doubles, for a divisor that is a difference of two finite numbers
  (so a zero divisor is \<open>+0\<close>).\<close>

definition jsdiv :: "real \<Rightarrow> real \<Rightarrow> jsnum" where
  "jsdiv a b =
     (if b \<noteq> 0 then Num (a / b)
      else if a > 0 then PosInf
      else if a < 0 then NegInf
      else NaN)"

text \<open>\<open>isNaN(x)\<close> and the land sentinel test \<open>!isNaN(x) && Math.abs(x) < 1000\<close>.\<close>

fun isNaN :: "jsnum \<Rightarrow> bool" where
  "isNaN NaN = True"
| "isNaN _ = False"

fun abs_lt :: "jsnum \<Rightarrow> real \<Rightarrow> bool" where
  "abs_lt (Num r) b = (\<bar>r\<bar> < b)"
| "abs_lt _ b = False"

text \<open>\<open>x > 0\<close> on a number: true for \<open>Infinity\<close>, false for NaN.\<close>

fun gt_zero :: "jsnum \<Rightarrow> bool" where
  "gt_zero (Num r) = (r > 0)"
| "gt_zero PosInf = True"
| "gt_zero _ = False"

subsection \<open>Tracer library\<close>

record behavior =
  diffusivityScale :: real
  settlingVelocity :: real
  decay :: bool
  sigmaH :: real
  sigmaV :: real

record tracer =
  tracer_id :: string
  tracer_name :: string
  halfLife :: real
  defaultTotal :: real
  tracer_behavior :: behavior

definition cs137 :: tracer where
  "cs137 = \<lparr>tracer_id = ''cs137'', tracer_name = ''Cesium-137'', halfLife = 11000,
     defaultTotal = 16.2 * 10 ^ 15,
     tracer_behavior = \<lparr>diffusivityScale = 1.0, settlingVelocity = 0, decay = True,
       sigmaH = 10000, sigmaV = 50\<rparr>\<rparr>"

definition cs134 :: tracer where
  "cs134 = \<lparr>tracer_id = ''cs134'', tracer_name = ''Cesium-134'', halfLife = 750,
     defaultTotal = 1.8 * 10 ^ 15,
     tracer_behavior = \<lparr>diffusivityScale = 1.0, settlingVelocity = 0, decay = True,
       sigmaH = 10000, sigmaV = 50\<rparr>\<rparr>"

definition i131 :: tracer where
  "i131 = \<lparr>tracer_id = ''i131'', tracer_name = ''Iodine-131'', halfLife = 8,
     defaultTotal = 10.0 * 10 ^ 15,
     tracer_behavior = \<lparr>diffusivityScale = 1.1, settlingVelocity = 0, decay = True,
       sigmaH = 12000, sigmaV = 60\<rparr>\<rparr>"

definition sr90 :: tracer where
  "sr90 = \<lparr>tracer_id = ''sr90'', tracer_name = ''Strontium-90'', halfLife = 10500,
     defaultTotal = 0.2 * 10 ^ 15,
     tracer_behavior = \<lparr>diffusivityScale = 0.9, settlingVelocity = 0, decay = True,
       sigmaH = 9000, sigmaV = 45\<rparr>\<rparr>"

definition h3 :: tracer where
  "h3 = \<lparr>tracer_id = ''h3'', tracer_name = ''Tritium'', halfLife = 4500,
     defaultTotal = 1.0 * 10 ^ 15,
     tracer_behavior = \<lparr>diffusivityScale = 1.1, settlingVelocity = 0, decay = True,
       sigmaH = 11000, sigmaV = 55\<rparr>\<rparr>"

text \<open>\<open>TracerLibrary[tracerId]\<close>: a property lookup, \<open>undefined\<close> for an unknown id.\<close>

definition TracerLibrary :: "string \<Rightarrow> tracer option" where
  "TracerLibrary k =
     (if k = ''cs137'' then Some cs137
      else if k = ''cs134'' then Some cs134
      else if k = ''i131'' then Some i131
      else if k = ''sr90'' then Some sr90
      else if k = ''h3'' then Some h3
      else None)"

text \<open>\<open>TracerLibrary[tracerId] || TracerLibrary.cs137\<close>\<close>

definition lookupTracer :: "string \<Rightarrow> tracer" where
  "lookupTracer k = (case TracerLibrary k of Some t \<Rightarrow> t | None \<Rightarrow> cs137)"

subsection \<open>Release phases and the release manager\<close>

record ReleasePhase =
  ph_start :: real
  ph_end :: real
  ph_total :: real
  ph_unit :: string

definition getDuration :: "ReleasePhase \<Rightarrow> real" where
  "getDuration ph = ph_end ph - ph_start ph"

definition getRate :: "ReleasePhase \<Rightarrow> jsnum" where
  "getRate ph = jsdiv (ph_total ph) (getDuration ph)"

record ReleaseManager =
  rm_tracerId :: string
  rm_tracer :: tracer
  phases :: "ReleasePhase list"

definition addDefaultPhase :: "ReleaseManager \<Rightarrow> ReleaseManager" where
  "addDefaultPhase rm =
     (let defaultTotal = defaultTotal (rm_tracer rm) / 10 ^ 9
      in rm\<lparr>phases := [\<lparr>ph_start = 0, ph_end = 30, ph_total = defaultTotal,
                          ph_unit = ''PBq''\<rparr>]\<rparr>)"

text \<open>The constructor \<open>new ReleaseManager(tracerId)\<close>.\<close>

definition newReleaseManager :: "string \<Rightarrow> ReleaseManager" where
  "newReleaseManager k =
     addDefaultPhase \<lparr>rm_tracerId = k, rm_tracer = lookupTracer k, phases = []\<rparr>"

text \<open>\<open>conversions[fromUnit] || 1\<close> in \<open>convertToBaseUnit\<close>, for a unit string that is not
  the name of a property inherited from \<open>Object.prototype\<close> (such a name looks up a
  function, and the product is NaN).\<close>

definition convertToBaseUnit :: "real \<Rightarrow> string \<Rightarrow> real" where
  "convertToBaseUnit amount fromUnit =
     amount * (if fromUnit = ''GBq'' then 1
               else if fromUnit = ''TBq'' then 1000
               else if fromUnit = ''PBq'' then 10 ^ 6
               else 1)"

text \<open>The \<open>for (const phase of this.phases)\<close> loop of \<open>getRateAtDay\<close>.\<close>

fun rateLoop :: "ReleasePhase list \<Rightarrow> real \<Rightarrow> jsnum" where
  "rateLoop [] day = Num 0"
| "rateLoop (phase # rest) day =
     (if day \<ge> ph_start phase \<and> day \<le> ph_end phase then getRate phase
      else rateLoop rest day)"

definition getRateAtDay :: "ReleaseManager \<Rightarrow> real \<Rightarrow> jsnum" where
  "getRateAtDay rm day = rateLoop (phases rm) day"

text \<open>\<open>getTotalRelease\<close>: the \<open>forEach\<close> accumulation, left to right from 0.\<close>

definition getTotalRelease :: "ReleaseManager \<Rightarrow> real" where
  "getTotalRelease rm =
     foldl (\<lambda>total phase. total + ph_total phase * convertToBaseUnit 1 (ph_unit phase))
       0 (phases rm)"

definition getParticleActivity :: "ReleaseManager \<Rightarrow> nat \<Rightarrow> jsnum" where
  "getParticleActivity rm totalParticles = jsdiv (getTotalRelease rm) (real totalParticles)"

text \<open>The phase containing a day, as the schedule is read: closed at both ends.\<close>

definition contains_day :: "real \<Rightarrow> ReleasePhase \<Rightarrow> bool" where
  "contains_day day ph = (ph_start ph \<le> day \<and> day \<le> ph_end ph)"

subsection \<open>Particle engine (ParticleEngine3D with tracer library): state\<close>

text \<open>A velocity sample as the engine reads it: \<open>{u, v, found}\<close>.\<close>

record velocity =
  vel_u :: real
  vel_v :: real
  vel_found :: bool

definition noVelocity :: velocity where
  "noVelocity = \<lparr>vel_u = 0, vel_v = 0, vel_found = False\<rparr>"

record particle =
  p_id :: nat
  p_active :: bool
  p_tracerId :: string
  p_x :: real
  p_y :: real
  p_depth :: real
  p_concentration :: real
  p_age :: real
  p_mass :: real
  p_history :: "(real \<times> real \<times> real) list"
  p_velocityU :: real
  p_velocityV :: real
  p_releaseDay :: "real option"
  p_lastIntegration :: string

record stats =
  totalReleased :: nat
  totalDecayed :: nat
  simulationDays :: real
  activeParticles :: nat
  particlesOnLand :: nat
  maxDepthReached :: real
  maxConcentration :: real

record rk4Settings =
  rk4_enabled :: bool
  timeStepSafety :: real
  adaptiveStepSize :: bool
  minStepSize :: real
  maxStepSize :: real

record params =
  par_diffusivityScale :: real
  simulationSpeed :: real
  verticalMixing :: bool
  ekmanPumping :: real
  convectiveMixing :: real
  decayEnabled :: bool

record kzProfile =
  mixedLayer_depth :: real
  mixedLayer_kz :: real
  upperOcean_depth :: real
  upperOcean_kz :: real
  deepOcean_depth :: real
  deepOcean_kz :: real

text \<open>
  The engine object. \<open>dayOfYear\<close> is the value of \<open>getDayOfYear()\<close>, \<open>None\<close> when the
  simulation time is an invalid date (the value is then NaN and every comparison with it
  is false). \<open>releaseManager\<close> is \<open>None\<close> when the property is unset. The variant of the
  engine in \<open>web/particleEngine.js\<close> names the reference point \<open>FUKUSHIMA_LON\<close>,
  \<open>FUKUSHIMA_LAT\<close>; it reads \<open>decayEnabled\<close>, \<open>halfLifeDays\<close>, \<open>constantSigma\<close> and
  \<open>concentrationScale\<close>, which the other variant does not have.
\<close>

record engine =
  REFERENCE_LON :: real
  REFERENCE_LAT :: real
  LON_SCALE :: real
  LAT_SCALE :: real
  e_tracerId :: string
  e_tracer :: tracer
  releaseManager :: "ReleaseManager option"
  particleCount :: nat
  UNITS_PER_PARTICLE :: jsnum
  land_enabled :: bool
  maxLandSearchRadius :: real
  rk4Enabled :: bool
  e_rk4Settings :: rk4Settings
  e_params :: params
  e_kzProfile :: kzProfile
  isRunning :: bool
  dayOfYear :: "int option"
  e_stats :: stats
  halfLifeDays :: real
  constantSigma_horizontal :: real
  constantSigma_vertical :: real
  concentrationScale :: real

text \<open>An ocean cell as \<open>findNearestOceanCell\<close> returns it; \<open>actualDepth\<close> may be absent.\<close>

record oceanCell =
  oc_lon :: real
  oc_lat :: real
  oc_actualDepth :: "real option"

record diffusivity =
  dif_K :: real
  dif_found :: bool

text \<open>
  The field services the engine calls. \<open>svc_isOcean lon lat depthMeters simDay\<close> is the
  current loader's \<open>isOcean\<close>, which catches its own errors and answers \<open>false\<close>.
  The other calls may throw: \<open>None\<close> is a thrown exception. The depth passed to
  \<open>svc_getVelocityAt\<close> is \<open>None\<close> when the engine passes \<open>undefined\<close>.
  \<open>svc_ekeLoader\<close> is \<open>None\<close> when no diffusivity loader is installed.
\<close>

record services =
  svc_isOcean :: "real \<Rightarrow> real \<Rightarrow> real \<Rightarrow> real \<Rightarrow> bool"
  svc_findNearestOceanCell ::
    "real \<Rightarrow> real \<Rightarrow> real \<Rightarrow> real \<Rightarrow> real \<Rightarrow> oceanCell option option"
  svc_getVelocityAt :: "real \<Rightarrow> real \<Rightarrow> real option \<Rightarrow> real \<Rightarrow> velocity option"
  svc_getAvailableDepths :: "real list"
  svc_ekeLoader :: "(real \<Rightarrow> real \<Rightarrow> real \<Rightarrow> diffusivity option) option"

subsection \<open>Calibration and configuration\<close>

definition calibration :: "ReleaseManager \<Rightarrow> nat \<Rightarrow> jsnum" where
  "calibration rm n =
     (let totalRelease = getTotalRelease rm
      in if totalRelease > 0 then getParticleActivity rm n else Num 1)"

text \<open>\<open>calculateParticleCalibration\<close> reads \<open>this.releaseManager\<close>; every caller has one.\<close>

definition calculateParticleCalibration :: "engine \<Rightarrow> engine" where
  "calculateParticleCalibration e =
     (case releaseManager e of
        None \<Rightarrow> e
      | Some rm \<Rightarrow> e\<lparr>UNITS_PER_PARTICLE := calibration rm (particleCount e)\<rparr>)"

definition setReleasePhases :: "engine \<Rightarrow> ReleasePhase list \<Rightarrow> engine" where
  "setReleasePhases e phs =
     (case releaseManager e of
        None \<Rightarrow> e
      | Some rm \<Rightarrow>
          calculateParticleCalibration (e\<lparr>releaseManager := Some (rm\<lparr>phases := phs\<rparr>)\<rparr>))"

definition initialStats :: stats where
  "initialStats = \<lparr>totalReleased = 0, totalDecayed = 0, simulationDays = 0,
     activeParticles = 0, particlesOnLand = 0, maxDepthReached = 0, maxConcentration = 0\<rparr>"

text \<open>
  The constructor \<open>new ParticleEngine3D(numParticles, tracerId, startLocation)\<close> with a
  start location. The simulation start time is the invalid date string
  \<open>2011-031T00:00:00Z\<close>, so the day of the year is NaN. The last four fields belong to
  the other variant and carry its constructor's values.
\<close>

definition newEngine :: "nat \<Rightarrow> string \<Rightarrow> real \<Rightarrow> real \<Rightarrow> engine" where
  "newEngine numParticles k lon lat =
     calculateParticleCalibration
       \<lparr>REFERENCE_LON = lon, REFERENCE_LAT = lat, LON_SCALE = 88.8, LAT_SCALE = 111.0,
        e_tracerId = k, e_tracer = lookupTracer k,
        releaseManager = Some (newReleaseManager k),
        particleCount = numParticles, UNITS_PER_PARTICLE = Num 1,
        land_enabled = True, maxLandSearchRadius = 10.0,
        rk4Enabled = False,
        e_rk4Settings = \<lparr>rk4_enabled = False, timeStepSafety = 0.5,
          adaptiveStepSize = True, minStepSize = 0.01, maxStepSize = 0.25\<rparr>,
        e_params = \<lparr>par_diffusivityScale = 1.0, simulationSpeed = 1.0,
          verticalMixing = True, ekmanPumping = 5 / 10 ^ 6, convectiveMixing = 2 / 10 ^ 6,
          decayEnabled = True\<rparr>,
        e_kzProfile = \<lparr>mixedLayer_depth = 50, mixedLayer_kz = 0.01,
          upperOcean_depth = 200, upperOcean_kz = 0.0001,
          deepOcean_depth = 1000, deepOcean_kz = 0.00005\<rparr>,
        isRunning = False, dayOfYear = None, e_stats = initialStats,
        halfLifeDays = 30.17 * 365.25, constantSigma_horizontal = 10000,
        constantSigma_vertical = 50, concentrationScale = 1000\<rparr>"

definition enableRK4 :: "engine \<Rightarrow> bool \<Rightarrow> engine" where
  "enableRK4 e enable =
     e\<lparr>rk4Enabled := enable, e_rk4Settings := (e_rk4Settings e)\<lparr>rk4_enabled := enable\<rparr>\<rparr>"

text \<open>Local-plane kilometres to degrees, as every lookup converts them.\<close>

definition toLon :: "engine \<Rightarrow> real \<Rightarrow> real" where
  "toLon e px = REFERENCE_LON e + (px / LON_SCALE e)"

definition toLat :: "engine \<Rightarrow> real \<Rightarrow> real" where
  "toLat e py = REFERENCE_LAT e + (py / LAT_SCALE e)"

subsection \<open>Path safety\<close>

record pathCheck =
  safe :: bool
  lastValidX :: real
  lastValidY :: real

text \<open>The test position of iteration \<open>s\<close> of \<open>_checkPathToOcean\<close>.\<close>

definition testX :: "real \<Rightarrow> real \<Rightarrow> nat \<Rightarrow> nat \<Rightarrow> real" where
  "testX startX endX steps s = startX + ((endX - startX) / real steps) * real s"

definition sampleIsOcean ::
  "engine \<Rightarrow> services \<Rightarrow> real \<Rightarrow> real \<Rightarrow> real \<Rightarrow> real \<Rightarrow> real \<Rightarrow> real \<Rightarrow> nat \<Rightarrow> nat \<Rightarrow> bool"
  where
  "sampleIsOcean e sv startX startY endX endY dpt simDay steps s =
     svc_isOcean sv (toLon e (testX startX endX steps s)) (toLat e (testX startY endY steps s))
       (dpt * 1000) simDay"

text \<open>
  The loop \<open>for (let s = 1; s <= steps; s++)\<close>: \<open>s\<close> is the loop variable and the last
  argument counts the iterations that remain.
\<close>

fun pathLoop ::
  "engine \<Rightarrow> services \<Rightarrow> real \<Rightarrow> real \<Rightarrow> real \<Rightarrow> real \<Rightarrow> real \<Rightarrow> real \<Rightarrow> nat \<Rightarrow> nat \<Rightarrow> nat
     \<Rightarrow> pathCheck"
  where
  "pathLoop e sv startX startY endX endY dpt simDay steps s 0 =
     \<lparr>safe = True, lastValidX = endX, lastValidY = endY\<rparr>"
| "pathLoop e sv startX startY endX endY dpt simDay steps s (Suc n) =
     (if \<not> sampleIsOcean e sv startX startY endX endY dpt simDay steps s
      then \<lparr>safe = False,
            lastValidX = testX startX endX steps (s - 1),
            lastValidY = testX startY endY steps (s - 1)\<rparr>
      else pathLoop e sv startX startY endX endY dpt simDay steps (Suc s) n)"

definition checkPathToOcean ::
  "engine \<Rightarrow> services \<Rightarrow> real \<Rightarrow> real \<Rightarrow> real \<Rightarrow> real \<Rightarrow> real \<Rightarrow> real \<Rightarrow> nat \<Rightarrow> pathCheck"
  where
  "checkPathToOcean e sv startX startY endX endY dpt simDay steps =
     pathLoop e sv startX startY endX endY dpt simDay steps 1 steps"

text \<open>The variant in \<open>web/particleEngine.js\<close> takes no \<open>steps\<close> argument and sets
  \<open>const steps = 2\<close>.\<close>

definition checkPathToOcean_web ::
  "engine \<Rightarrow> services \<Rightarrow> real \<Rightarrow> real \<Rightarrow> real \<Rightarrow> real \<Rightarrow> real \<Rightarrow> real \<Rightarrow> pathCheck"
  where
  "checkPathToOcean_web e sv startX startY endX endY dpt simDay =
     pathLoop e sv startX startY endX endY dpt simDay 2 1 2"

subsection \<open>Velocity lookup and integrators\<close>

text \<open>The depth-snapping loop of the engine's \<open>getVelocityAt\<close>:
  \<open>for (const d of depths) { diff = |depthMeters - d|; if (diff < minDiff) ... }\<close>.\<close>

fun snapLoop :: "real \<Rightarrow> real list \<Rightarrow> real \<Rightarrow> real \<Rightarrow> real" where
  "snapLoop depthMeters [] minDiff targetDepth = targetDepth"
| "snapLoop depthMeters (d # ds) minDiff targetDepth =
     (let diff = \<bar>depthMeters - d\<bar>
      in if diff < minDiff then snapLoop depthMeters ds diff d
         else snapLoop depthMeters ds minDiff targetDepth)"

text \<open>With no depth levels \<open>depths[0]\<close> is \<open>undefined\<close> and stays the target.\<close>

definition nearestDepth :: "real list \<Rightarrow> real \<Rightarrow> real option" where
  "nearestDepth depths depthMeters =
     (case depths of
        [] \<Rightarrow> None
      | d0 # _ \<Rightarrow> Some (snapLoop depthMeters depths \<bar>depthMeters - d0\<bar> d0))"

text \<open>The engine's \<open>getVelocityAt\<close>, with a current loader installed; a thrown lookup is
  caught and answered with \<open>{u: 0, v: 0, found: false}\<close>.\<close>

definition getVelocityAt :: "services \<Rightarrow> real \<Rightarrow> real \<Rightarrow> real \<Rightarrow> real \<Rightarrow> velocity" where
  "getVelocityAt sv lon lat depthMeters simDay =
     (case svc_getVelocityAt sv lon lat
             (nearestDepth (svc_getAvailableDepths sv) depthMeters) simDay of
        None \<Rightarrow> noVelocity
      | Some vel \<Rightarrow> vel)"

text \<open>The result of an integrator; \<open>r_u_avg = None\<close> is NaN.\<close>

record integration =
  r_x :: real
  r_y :: real
  r_depth :: real
  r_u_avg :: "real option"
  r_v_avg :: "real option"

text \<open>A successful \<open>rk4Step\<close>: \<open>{success: true, x, y, depth, u_avg, v_avg}\<close>.\<close>

record rk4StepResult =
  s_x :: real
  s_y :: real
  s_depth :: real
  s_u_avg :: real
  s_v_avg :: real

text \<open>\<open>k.found ? k.u : k1.u\<close>\<close>

definition orK1u :: "velocity \<Rightarrow> velocity \<Rightarrow> real" where
  "orK1u k k1 = (if vel_found k then vel_u k else vel_u k1)"

definition orK1v :: "velocity \<Rightarrow> velocity \<Rightarrow> real" where
  "orK1v k k1 = (if vel_found k then vel_v k else vel_v k1)"

text \<open>\<open>rk4Step\<close>; \<open>None\<close> is \<open>{success: false}\<close>.\<close>

definition rk4Step ::
  "engine \<Rightarrow> services \<Rightarrow> real \<Rightarrow> real \<Rightarrow> real \<Rightarrow> real \<Rightarrow> real \<Rightarrow> rk4StepResult option" where
  "rk4Step e sv px py dpt h currentTime =
     (let depthMeters = dpt * 1000;
          k1 = getVelocityAt sv (toLon e px) (toLat e py) depthMeters currentTime
      in if \<not> vel_found k1 then None
         else
           let x2 = px + h / 2 * vel_u k1 * 86.4;
               y2 = py + h / 2 * vel_v k1 * 86.4;
               k2 = getVelocityAt sv (toLon e x2) (toLat e y2) depthMeters (currentTime + h / 2);
               x3 = px + h / 2 * orK1u k2 k1 * 86.4;
               y3 = py + h / 2 * orK1v k2 k1 * 86.4;
               k3 = getVelocityAt sv (toLon e x3) (toLat e y3) depthMeters (currentTime + h / 2);
               x4 = px + h * orK1u k3 k1 * 86.4;
               y4 = py + h * orK1v k3 k1 * 86.4;
               k4 = getVelocityAt sv (toLon e x4) (toLat e y4) depthMeters (currentTime + h);
               u_avg = (vel_u k1 + 2 * orK1u k2 k1 + 2 * orK1u k3 k1 + orK1u k4 k1) / 6;
               v_avg = (vel_v k1 + 2 * orK1v k2 k1 + 2 * orK1v k3 k1 + orK1v k4 k1) / 6
           in Some \<lparr>s_x = px + h * u_avg * 86.4, s_y = py + h * v_avg * 86.4,
                     s_depth = dpt, s_u_avg = u_avg, s_v_avg = v_avg\<rparr>)"

definition calculateOptimalStepSize :: "engine \<Rightarrow> particle \<Rightarrow> real \<Rightarrow> real" where
  "calculateOptimalStepSize e p totalDeltaDays =
     (let rs = e_rk4Settings e
      in if \<not> adaptiveStepSize rs then min totalDeltaDays (maxStepSize rs)
         else
           let speed = sqrt (p_velocityU p * p_velocityU p + p_velocityV p * p_velocityV p);
               charTime = 1.0 / (speed + 0.001);
               optimalStep = min (charTime * timeStepSafety rs) (maxStepSize rs);
               optimalStep2 = max optimalStep (minStepSize rs)
           in min optimalStep2 totalDeltaDays)"

definition eulerIntegrate ::
  "engine \<Rightarrow> services \<Rightarrow> particle \<Rightarrow> real \<Rightarrow> real \<Rightarrow> integration" where
  "eulerIntegrate e sv p deltaDays currentSimDay =
     (let vel = getVelocityAt sv (toLon e (p_x p)) (toLat e (p_y p)) (p_depth p * 1000)
                  currentSimDay
      in if vel_found vel
         then \<lparr>r_x = p_x p + deltaDays * vel_u vel * 86.4,
               r_y = p_y p + deltaDays * vel_v vel * 86.4,
               r_depth = p_depth p, r_u_avg = Some (vel_u vel), r_v_avg = Some (vel_v vel)\<rparr>
         else \<lparr>r_x = p_x p, r_y = p_y p, r_depth = p_depth p,
               r_u_avg = Some 0, r_v_avg = Some 0\<rparr>)"

text \<open>
  The loop \<open>for (let step = 0; step < steps; step++)\<close> of \<open>rk4Integrate\<close>, with the loop
  variable and the number of iterations that remain. \<open>None\<close> is the early exit on a failed
  sub-step; otherwise the final \<open>(x, y, depth, totalU, totalV)\<close>.
\<close>

fun rk4Loop ::
  "engine \<Rightarrow> services \<Rightarrow> real \<Rightarrow> real \<Rightarrow> nat \<Rightarrow> nat \<Rightarrow> real \<Rightarrow> real \<Rightarrow> real \<Rightarrow> real \<Rightarrow> real
     \<Rightarrow> (real \<times> real \<times> real \<times> real \<times> real) option"
  where
  "rk4Loop e sv actualStep currentSimDay step 0 px py dpt totalU totalV =
     Some (px, py, dpt, totalU, totalV)"
| "rk4Loop e sv actualStep currentSimDay step (Suc n) px py dpt totalU totalV =
     (case rk4Step e sv px py dpt actualStep (currentSimDay + real step * actualStep) of
        None \<Rightarrow> None
      | Some r \<Rightarrow>
          rk4Loop e sv actualStep currentSimDay (Suc step) n (s_x r) (s_y r) (s_depth r)
            (totalU + s_u_avg r) (totalV + s_v_avg r))"

text \<open>
  \<open>rk4Integrate\<close>. \<open>steps = Math.ceil(deltaDays / h)\<close>. With \<open>h = 0\<close> the quotient is not
  finite: for \<open>deltaDays = 0\<close> it is NaN and the loop body never runs (the averages are
  NaN); for \<open>deltaDays > 0\<close> it is \<open>Infinity\<close>, every iteration repeats the first one with
  a sub-step of length 0, and the call returns only if that sub-step fails. The outer
  \<open>None\<close> is a call that does not return. With \<open>steps \<le> 0\<close> the body never runs and
  the averages are \<open>0 / steps\<close>.
\<close>

definition rk4Integrate ::
  "engine \<Rightarrow> services \<Rightarrow> particle \<Rightarrow> real \<Rightarrow> real \<Rightarrow> integration option" where
  "rk4Integrate e sv p deltaDays currentSimDay =
     (let h = calculateOptimalStepSize e p deltaDays
      in if h = 0 then
           (if deltaDays > 0 then
              (case rk4Step e sv (p_x p) (p_y p) (p_depth p) 0 currentSimDay of
                 None \<Rightarrow> Some (eulerIntegrate e sv p deltaDays currentSimDay)
               | Some r \<Rightarrow> None)
            else Some \<lparr>r_x = p_x p, r_y = p_y p, r_depth = p_depth p,
                       r_u_avg = (if deltaDays = 0 then None else Some 0),
                       r_v_avg = (if deltaDays = 0 then None else Some 0)\<rparr>)
         else
           let steps = \<lceil>deltaDays / h\<rceil>;
               actualStep = deltaDays / real_of_int steps
           in case rk4Loop e sv actualStep currentSimDay 0 (nat steps)
                     (p_x p) (p_y p) (p_depth p) 0 0 of
                None \<Rightarrow> Some (eulerIntegrate e sv p deltaDays currentSimDay)
              | Some (px, py, dpt, totalU, totalV) \<Rightarrow>
                  Some \<lparr>r_x = px, r_y = py, r_depth = dpt,
                        r_u_avg = (if steps = 0 then None else Some (totalU / real_of_int steps)),
                        r_v_avg = (if steps = 0 then None else Some (totalV / real_of_int steps))\<rparr>)"

text \<open>\<open>avg || 0\<close>\<close>

definition orZero :: "real option \<Rightarrow> real" where
  "orZero a = (case a of None \<Rightarrow> 0 | Some r \<Rightarrow> r)"

text \<open>A velocity field that is uniform in space and time, with every sample found.\<close>

definition uniformField :: "services \<Rightarrow> real \<Rightarrow> real \<Rightarrow> bool" where
  "uniformField sv u v =
     (\<forall>lon lat d t. svc_getVelocityAt sv lon lat d t
        = Some \<lparr>vel_u = u, vel_v = v, vel_found = True\<rparr>)"

subsection \<open>Advection and diffusion stages of the update loop\<close>

text \<open>
  The advection block of the body of \<open>updateParticles\<close> for one particle; \<open>vel\<close> is the
  particle's entry of the batched velocity lookup. \<open>None\<close> is an RK4 call that does not
  return.
\<close>

definition advect ::
  "engine \<Rightarrow> services \<Rightarrow> real \<Rightarrow> real \<Rightarrow> velocity \<Rightarrow> particle \<Rightarrow> particle option" where
  "advect e sv deltaDays currentSimDay vel p =
     (let prevX = p_x p; prevY = p_y p
      in if rk4Enabled e \<and> rk4_enabled (e_rk4Settings e) then
           (case rk4Integrate e sv p deltaDays currentSimDay of
              None \<Rightarrow> None
            | Some r \<Rightarrow>
                let pc = checkPathToOcean e sv prevX prevY (r_x r) (r_y r) (p_depth p)
                           currentSimDay 5
                in Some (if safe pc
                         then p\<lparr>p_x := r_x r, p_y := r_y r, p_depth := r_depth r,
                                p_velocityU := orZero (r_u_avg r),
                                p_velocityV := orZero (r_v_avg r)\<rparr>
                         else p\<lparr>p_x := lastValidX pc, p_y := lastValidY pc,
                                p_velocityU := 0, p_velocityV := 0\<rparr>))
         else if vel_found vel then
           (let newX = p_x p + vel_u vel * 86.4 * deltaDays;
                newY = p_y p + vel_v vel * 86.4 * deltaDays;
                pc = checkPathToOcean e sv prevX prevY newX newY (p_depth p) currentSimDay 5
            in Some (if safe pc
                     then p\<lparr>p_x := newX, p_y := newY,
                            p_velocityU := vel_u vel, p_velocityV := vel_v vel\<rparr>
                     else p\<lparr>p_x := lastValidX pc, p_y := lastValidY pc\<rparr>))
         else Some p)"

text \<open>The same block in \<open>web/particleEngine.js\<close>: two path samples, the Euler branch
  zeroes the stored velocity on an unsafe path, and the integrator is recorded.\<close>

definition advect_web ::
  "engine \<Rightarrow> services \<Rightarrow> real \<Rightarrow> real \<Rightarrow> velocity \<Rightarrow> particle \<Rightarrow> particle option" where
  "advect_web e sv deltaDays currentSimDay vel p =
     (let prevX = p_x p; prevY = p_y p
      in if rk4Enabled e \<and> rk4_enabled (e_rk4Settings e) then
           (case rk4Integrate e sv p deltaDays currentSimDay of
              None \<Rightarrow> None
            | Some r \<Rightarrow>
                let pc = checkPathToOcean_web e sv prevX prevY (r_x r) (r_y r) (p_depth p)
                           currentSimDay
                in Some (if safe pc
                         then p\<lparr>p_x := r_x r, p_y := r_y r, p_depth := r_depth r,
                                p_velocityU := orZero (r_u_avg r),
                                p_velocityV := orZero (r_v_avg r),
                                p_lastIntegration := ''rk4''\<rparr>
                         else p\<lparr>p_x := lastValidX pc, p_y := lastValidY pc,
                                p_velocityU := 0, p_velocityV := 0\<rparr>))
         else
           (let p1 =
                  (if vel_found vel then
                     (let newX = p_x p + vel_u vel * 86.4 * deltaDays;
                          newY = p_y p + vel_v vel * 86.4 * deltaDays;
                          pc = checkPathToOcean_web e sv prevX prevY newX newY (p_depth p)
                                 currentSimDay
                      in if safe pc
                         then p\<lparr>p_x := newX, p_y := newY,
                                p_velocityU := vel_u vel, p_velocityV := vel_v vel\<rparr>
                         else p\<lparr>p_x := lastValidX pc, p_y := lastValidY pc,
                                p_velocityU := 0, p_velocityV := 0\<rparr>)
                   else p)
            in Some (p1\<lparr>p_lastIntegration := ''euler''\<rparr>)))"

text \<open>
  \<open>applyDiffusion\<close>: \<open>g1\<close> and \<open>g2\<close> are the two values drawn from \<open>gaussianRandom()\<close>. A
  thrown diffusivity lookup is caught and leaves the particle where it is. The square
  root is taken of a non-negative number when the step and the diffusivity are
  non-negative.
\<close>

definition applyDiffusion ::
  "engine \<Rightarrow> (real \<Rightarrow> real \<Rightarrow> real \<Rightarrow> diffusivity option) \<Rightarrow> real \<Rightarrow> real \<Rightarrow> real \<Rightarrow> real
     \<Rightarrow> particle \<Rightarrow> particle" where
  "applyDiffusion e eke deltaDays currentSimDay g1 g2 p =
     (case eke (toLon e (p_x p)) (toLat e (p_y p)) currentSimDay of
        None \<Rightarrow> p
      | Some ekeResult \<Rightarrow>
          let ts = diffusivityScale (tracer_behavior (e_tracer e));
              K_m2_s = (if dif_found ekeResult
                        then dif_K ekeResult * par_diffusivityScale (e_params e)
                             * (if ts = 0 then 1.0 else ts)
                        else 20 * par_diffusivityScale (e_params e));
              stepScale_km = sqrt (2 * K_m2_s * deltaDays * 86400) / 1000
          in p\<lparr>p_x := p_x p + stepScale_km * g1, p_y := p_y p + stepScale_km * g2\<rparr>)"

definition applyDiffusion_web ::
  "engine \<Rightarrow> (real \<Rightarrow> real \<Rightarrow> real \<Rightarrow> diffusivity option) \<Rightarrow> real \<Rightarrow> real \<Rightarrow> real \<Rightarrow> real
     \<Rightarrow> particle \<Rightarrow> particle" where
  "applyDiffusion_web e eke deltaDays currentSimDay g1 g2 p =
     (case eke (toLon e (p_x p)) (toLat e (p_y p)) currentSimDay of
        None \<Rightarrow> p
      | Some ekeResult \<Rightarrow>
          let K_m2_s = (if dif_found ekeResult
                        then dif_K ekeResult * par_diffusivityScale (e_params e)
                        else 20 * par_diffusivityScale (e_params e));
              dtSeconds = deltaDays * 86400;
              stepScale_m = sqrt (2 * K_m2_s * dtSeconds);
              stepScale_km = stepScale_m / 1000
          in p\<lparr>p_x := p_x p + stepScale_km * g1, p_y := p_y p + stepScale_km * g2\<rparr>)"

text \<open>The diffusion block of the loop body: the move is kept only if its path is safe.\<close>

definition diffuse ::
  "engine \<Rightarrow> services \<Rightarrow> real \<Rightarrow> real \<Rightarrow> real \<Rightarrow> real \<Rightarrow> particle \<Rightarrow> particle" where
  "diffuse e sv deltaDays currentSimDay g1 g2 p =
     (case svc_ekeLoader sv of
        None \<Rightarrow> p
      | Some eke \<Rightarrow>
          if par_diffusivityScale (e_params e) > 0.01 then
            (let beforeX = p_x p; beforeY = p_y p;
                 p1 = applyDiffusion e eke deltaDays currentSimDay g1 g2 p;
                 diffCheck = checkPathToOcean e sv beforeX beforeY (p_x p1) (p_y p1)
                               (p_depth p1) currentSimDay 5
             in if \<not> safe diffCheck then p1\<lparr>p_x := beforeX, p_y := beforeY\<rparr> else p1)
          else p)"

definition diffuse_web ::
  "engine \<Rightarrow> services \<Rightarrow> real \<Rightarrow> real \<Rightarrow> real \<Rightarrow> real \<Rightarrow> particle \<Rightarrow> particle" where
  "diffuse_web e sv deltaDays currentSimDay g1 g2 p =
     (case svc_ekeLoader sv of
        None \<Rightarrow> p
      | Some eke \<Rightarrow>
          if par_diffusivityScale (e_params e) > 0.01 then
            (let beforeDiffX = p_x p; beforeDiffY = p_y p;
                 p1 = applyDiffusion_web e eke deltaDays currentSimDay g1 g2 p;
                 diffPathCheck = checkPathToOcean_web e sv beforeDiffX beforeDiffY
                                   (p_x p1) (p_y p1) (p_depth p1) currentSimDay
             in if \<not> safe diffPathCheck then p1\<lparr>p_x := beforeDiffX, p_y := beforeDiffY\<rparr>
                else p1)
          else p)"

subsection \<open>Land interaction\<close>

text \<open>
  \<open>checkLandInteraction\<close>, with a current loader installed. The result pairs the
  particle with the returned flag. A thrown \<open>findNearestOceanCell\<close> is caught: the
  particle is reverted and the flag is \<open>true\<close>.
\<close>

definition checkLandInteraction ::
  "engine \<Rightarrow> services \<Rightarrow> particle \<Rightarrow> real \<Rightarrow> real \<Rightarrow> real \<Rightarrow> real \<Rightarrow> particle \<times> bool" where
  "checkLandInteraction e sv p prevX prevY prevDepth currentSimDay =
     (if \<not> land_enabled e then (p, False)
      else
        let lon = toLon e (p_x p); lat = toLat e (p_y p); depthMeters = p_depth p * 1000
        in if svc_isOcean sv lon lat depthMeters currentSimDay then (p, False)
           else
             let p1 = p\<lparr>p_x := prevX, p_y := prevY, p_depth := prevDepth\<rparr>
             in case svc_findNearestOceanCell sv lon lat depthMeters currentSimDay
                       (maxLandSearchRadius e) of
                  None \<Rightarrow> (p1, True)
                | Some None \<Rightarrow> (p1, True)
                | Some (Some cell) \<Rightarrow>
                    let targetX = (oc_lon cell - REFERENCE_LON e) * LON_SCALE e;
                        targetY = (oc_lat cell - REFERENCE_LAT e) * LAT_SCALE e;
                        dx = targetX - prevX; dy = targetY - prevY;
                        dist = sqrt (dx * dx + dy * dy)
                    in if dist > 0
                       then (p1\<lparr>p_x := prevX + dx * 0.5, p_y := prevY + dy * 0.5\<rparr>, True)
                       else (p1, True))"

text \<open>The variant in \<open>web/particleEngine.js\<close> also moves the depth towards the surface
  when the cell carries an \<open>actualDepth\<close>.\<close>

definition checkLandInteraction_web ::
  "engine \<Rightarrow> services \<Rightarrow> particle \<Rightarrow> real \<Rightarrow> real \<Rightarrow> real \<Rightarrow> real \<Rightarrow> particle \<times> bool" where
  "checkLandInteraction_web e sv p prevX prevY prevDepth currentSimDay =
     (if \<not> land_enabled e then (p, False)
      else
        let lon = toLon e (p_x p); lat = toLat e (p_y p); depthMeters = p_depth p * 1000
        in if svc_isOcean sv lon lat depthMeters currentSimDay then (p, False)
           else
             let p1 = p\<lparr>p_x := prevX, p_y := prevY, p_depth := prevDepth\<rparr>
             in case svc_findNearestOceanCell sv lon lat depthMeters currentSimDay
                       (maxLandSearchRadius e) of
                  None \<Rightarrow> (p1, True)
                | Some None \<Rightarrow> (p1, True)
                | Some (Some cell) \<Rightarrow>
                    let targetX = (oc_lon cell - REFERENCE_LON e) * LON_SCALE e;
                        targetY = (oc_lat cell - REFERENCE_LAT e) * LAT_SCALE e;
                        dx = targetX - prevX; dy = targetY - prevY;
                        dist = sqrt (dx * dx + dy * dy)
                    in if dist > 0
                       then
                         (let p2 = p1\<lparr>p_x := prevX + dx * 0.5, p_y := prevY + dy * 0.5\<rparr>
                          in case oc_actualDepth cell of
                               None \<Rightarrow> (p2, True)
                             | Some ad \<Rightarrow>
                                 (p2\<lparr>p_depth := min (p_depth p2) (ad / 1000 * 0.8)\<rparr>, True))
                       else (p1, True))"

text \<open>Every ocean cell the search returns carries a non-negative depth level.\<close>

definition nonnegActualDepth :: "services \<Rightarrow> bool" where
  "nonnegActualDepth sv =
     (\<forall>lon lat d t r c ad. svc_findNearestOceanCell sv lon lat d t r = Some (Some c) \<longrightarrow>
        oc_actualDepth c = Some ad \<longrightarrow> 0 \<le> ad)"

subsection \<open>Vertical motion\<close>

definition getVerticalDiffusivity :: "engine \<Rightarrow> real \<Rightarrow> real" where
  "getVerticalDiffusivity e depthMeters =
     (if depthMeters < mixedLayer_depth (e_kzProfile e) then mixedLayer_kz (e_kzProfile e)
      else if depthMeters < upperOcean_depth (e_kzProfile e) then upperOcean_kz (e_kzProfile e)
      else deepOcean_kz (e_kzProfile e))"

text \<open>\<open>dayOfYear < 90 || dayOfYear > 335\<close>; both comparisons are false for NaN.\<close>

definition isWinter :: "engine \<Rightarrow> bool" where
  "isWinter e = (case dayOfYear e of None \<Rightarrow> False | Some d \<Rightarrow> d < 90 \<or> d > 335)"

text \<open>The displacement in metres that \<open>applyVerticalMotion\<close> adds; \<open>g\<close> is the value drawn
  from \<open>gaussianRandom()\<close>.\<close>

definition verticalDz :: "engine \<Rightarrow> real \<Rightarrow> real \<Rightarrow> particle \<Rightarrow> real" where
  "verticalDz e g dtSeconds p =
     (let settling = settlingVelocity (tracer_behavior (e_tracer e));
          depthM = p_depth p * 1000;
          kz = getVerticalDiffusivity e depthM;
          randomDz = sqrt (2 * kz * dtSeconds) * g;
          settlingDz = settling * dtSeconds / 86400;
          deterministicDz = ekmanPumping (e_params e) * dtSeconds
            + (if isWinter e \<and> depthM < 100 then convectiveMixing (e_params e) * dtSeconds
               else 0)
      in randomDz + settlingDz + deterministicDz)"

text \<open>\<open>applyVerticalMotion\<close> updates the particle and \<open>stats.maxDepthReached\<close>.\<close>

definition applyVerticalMotion :: "real \<Rightarrow> real \<Rightarrow> engine \<times> particle \<Rightarrow> engine \<times> particle" where
  "applyVerticalMotion g dtSeconds ep =
     (let e = fst ep; p = snd ep;
          d1 = p_depth p + verticalDz e g dtSeconds p / 1000;
          d2 = max 0 (min d1 1.0);
          currentDepthM = d2 * 1000;
          st = e_stats e
      in (if currentDepthM > maxDepthReached st
          then e\<lparr>e_stats := st\<lparr>maxDepthReached := currentDepthM\<rparr>\<rparr> else e,
          p\<lparr>p_depth := d2\<rparr>))"

text \<open>The variant in \<open>web/particleEngine.js\<close> has no settling term.\<close>

definition verticalDz_web :: "engine \<Rightarrow> real \<Rightarrow> real \<Rightarrow> particle \<Rightarrow> real" where
  "verticalDz_web e g dtSeconds p =
     (let depthM = p_depth p * 1000;
          kz = getVerticalDiffusivity e depthM;
          verticalStdDev = sqrt (2 * kz * dtSeconds);
          randomDz = verticalStdDev * g;
          deterministicDz = 0 + ekmanPumping (e_params e) * dtSeconds
            + (if isWinter e \<and> depthM < 100 then convectiveMixing (e_params e) * dtSeconds
               else 0)
      in randomDz + deterministicDz)"

definition applyVerticalMotion_web ::
  "real \<Rightarrow> real \<Rightarrow> engine \<times> particle \<Rightarrow> engine \<times> particle" where
  "applyVerticalMotion_web g dtSeconds ep =
     (let e = fst ep; p = snd ep;
          d1 = p_depth p + verticalDz_web e g dtSeconds p / 1000;
          d2 = max 0 (min d1 1.0);
          currentDepthM = d2 * 1000;
          st = e_stats e
      in (if currentDepthM > maxDepthReached st
          then e\<lparr>e_stats := st\<lparr>maxDepthReached := currentDepthM\<rparr>\<rparr> else e,
          p\<lparr>p_depth := d2\<rparr>))"

subsection \<open>Concentration\<close>

text \<open>\<open>x || d\<close> for a finite number \<open>x\<close>.\<close>

definition orDefault :: "real \<Rightarrow> real \<Rightarrow> real" where
  "orDefault a d = (if a = 0 then d else a)"

definition calculateConcentration :: "engine \<Rightarrow> particle \<Rightarrow> real" where
  "calculateConcentration e p =
     (if p_tracerId p = [] then 0
      else
        let tr = (case TracerLibrary (p_tracerId p) of Some t \<Rightarrow> t | None \<Rightarrow> e_tracer e);
            sH = orDefault (sigmaH (tracer_behavior tr)) 10000;
            sV = orDefault (sigmaV (tracer_behavior tr)) 50;
            volume = (2 * pi) powr 1.5 * sH * sH * sV;
            m = (if decay (tracer_behavior tr) \<and> halfLife tr \<noteq> 0
                 then p_mass p * (0.5 powr (p_age p / halfLife tr)) else p_mass p)
        in m / max volume (10 ^ 9))"

definition calculateConcentration_web :: "engine \<Rightarrow> particle \<Rightarrow> real" where
  "calculateConcentration_web e p =
     (let M = p_mass p * 10 ^ 9;
          volume = (2 * pi) powr 1.5 * constantSigma_horizontal e
                     * constantSigma_horizontal e * constantSigma_vertical e;
          c1 = M / max volume (10 ^ 9);
          c2 = c1 * concentrationScale e;
          c3 = max c2 (1 / 10 ^ 6)
      in min c3 (10 ^ 6))"

subsection \<open>The body of the update loop for one particle\<close>

text \<open>\<open>p.history.push(...)\<close> followed by \<open>if (p.history.length > 8) p.history.shift()\<close>.\<close>

definition pushHistory :: "particle \<Rightarrow> particle" where
  "pushHistory p =
     (let h1 = p_history p @ [(p_x p, p_y p, p_depth p)]
      in p\<lparr>p_history := (if length h1 > 8 then tl h1 else h1)\<rparr>)"

definition updateHistory :: "real \<Rightarrow> real \<Rightarrow> particle \<Rightarrow> particle" where
  "updateHistory prevX prevY p =
     (if \<bar>p_x p - prevX\<bar> > 1 \<or> \<bar>p_y p - prevY\<bar> > 1 then pushHistory p else p)"

definition noteConcentration :: "engine \<Rightarrow> real \<Rightarrow> engine" where
  "noteConcentration e c =
     (if c > maxConcentration (e_stats e)
      then e\<lparr>e_stats := (e_stats e)\<lparr>maxConcentration := c\<rparr>\<rparr> else e)"

definition countOnLand :: "engine \<Rightarrow> engine" where
  "countOnLand e = e\<lparr>e_stats := (e_stats e)\<lparr>particlesOnLand := particlesOnLand (e_stats e) + 1\<rparr>\<rparr>"

text \<open>
  The stages after the land check in the engine with the tracer library: vertical
  motion, aging, concentration, history. The stored mass is not changed.
\<close>

definition afterLandCheck ::
  "real \<Rightarrow> real \<Rightarrow> real \<Rightarrow> real \<Rightarrow> engine \<times> particle \<Rightarrow> engine \<times> particle" where
  "afterLandCheck deltaDays g3 prevX prevY ep =
     (let dtSeconds = deltaDays * 86400;
          ep1 = (if verticalMixing (e_params (fst ep)) then applyVerticalMotion g3 dtSeconds ep
                 else ep);
          e1 = fst ep1; p1 = snd ep1;
          p2 = p1\<lparr>p_age := p_age p1 + deltaDays\<rparr>;
          c = calculateConcentration e1 p2;
          p3 = p2\<lparr>p_concentration := c\<rparr>;
          e2 = noteConcentration e1 c
      in (e2, updateHistory prevX prevY p3))"

text \<open>
  One iteration of the inner loop of \<open>updateParticles\<close>: \<open>vel\<close> is the particle's entry of
  the batched velocity lookup, \<open>g1\<close>, \<open>g2\<close>, \<open>g3\<close> are the random draws of diffusion (x, y)
  and vertical motion. \<open>None\<close> is an iteration that does not return.
\<close>

definition updateParticle ::
  "services \<Rightarrow> real \<Rightarrow> velocity \<Rightarrow> real \<Rightarrow> real \<Rightarrow> real \<Rightarrow> engine \<times> particle
     \<Rightarrow> (engine \<times> particle) option" where
  "updateParticle sv deltaDays vel g1 g2 g3 ep =
     (let e = fst ep; p = snd ep;
          currentSimDay = simulationDays (e_stats e);
          prevX = p_x p; prevY = p_y p; prevDepth = p_depth p
      in case advect e sv deltaDays currentSimDay vel p of
           None \<Rightarrow> None
         | Some pa \<Rightarrow>
             let pd = diffuse e sv deltaDays currentSimDay g1 g2 pa;
                 lc = checkLandInteraction e sv pd prevX prevY prevDepth currentSimDay
             in if snd lc then Some (countOnLand e, fst lc)
                else Some (afterLandCheck deltaDays g3 prevX prevY (e, fst lc)))"

text \<open>
  The stages after the land check in \<open>web/particleEngine.js\<close>: vertical motion, aging
  and radioactive decay of the stored mass (a particle whose mass falls below 0.001 is
  deactivated and skips the rest), concentration, history.
\<close>

definition afterLandCheck_web ::
  "real \<Rightarrow> real \<Rightarrow> real \<Rightarrow> real \<Rightarrow> engine \<times> particle \<Rightarrow> engine \<times> particle" where
  "afterLandCheck_web deltaDays g3 prevX prevY ep =
     (let dtSeconds = deltaDays * 86400;
          ep1 = (if verticalMixing (e_params (fst ep))
                 then applyVerticalMotion_web g3 dtSeconds ep else ep);
          e1 = fst ep1; p1 = snd ep1;
          p2 = p1\<lparr>p_age := p_age p1 + deltaDays\<rparr>;
          p3 = (if decayEnabled (e_params e1)
                then p2\<lparr>p_mass := p_mass p2 * (0.5 powr (deltaDays / halfLifeDays e1))\<rparr>
                else p2)
      in if decayEnabled (e_params e1) \<and> p_mass p3 < 0.001
         then (e1\<lparr>e_stats := (e_stats e1)\<lparr>totalDecayed := totalDecayed (e_stats e1) + 1\<rparr>\<rparr>,
               p3\<lparr>p_active := False\<rparr>)
         else
           let c = calculateConcentration_web e1 p3;
               p4 = p3\<lparr>p_concentration := c\<rparr>;
               e2 = noteConcentration e1 c
           in (e2, updateHistory prevX prevY p4))"

definition updateParticle_web ::
  "services \<Rightarrow> real \<Rightarrow> velocity \<Rightarrow> real \<Rightarrow> real \<Rightarrow> real \<Rightarrow> engine \<times> particle
     \<Rightarrow> (engine \<times> particle) option" where
  "updateParticle_web sv deltaDays vel g1 g2 g3 ep =
     (let e = fst ep; p = snd ep;
          currentSimDay = simulationDays (e_stats e);
          prevX = p_x p; prevY = p_y p; prevDepth = p_depth p
      in case advect_web e sv deltaDays currentSimDay vel p of
           None \<Rightarrow> None
         | Some pa \<Rightarrow>
             let pd = diffuse_web e sv deltaDays currentSimDay g1 g2 pa;
                 lc = checkLandInteraction_web e sv pd prevX prevY prevDepth currentSimDay
             in if snd lc then Some (countOnLand e, fst lc)
                else Some (afterLandCheck_web deltaDays g3 prevX prevY (e, fst lc)))"

subsection \<open>Release\<close>

text \<open>
  The activation of one pool particle in \<open>releaseParticles\<close>: \<open>clampedLon\<close>, \<open>clampedLat\<close>
  are the clamped random position and \<open>m\<close> is the value of
  \<open>this.UNITS_PER_PARTICLE || 1.0\<close>.
\<close>

definition activate :: "engine \<Rightarrow> real \<Rightarrow> real \<Rightarrow> real \<Rightarrow> particle \<Rightarrow> particle" where
  "activate e clampedLon clampedLat m p =
     (let p1 = p\<lparr>p_x := (clampedLon - REFERENCE_LON e) * LON_SCALE e,
                  p_y := (clampedLat - REFERENCE_LAT e) * LAT_SCALE e,
                  p_depth := 0, p_active := True, p_age := 0, p_mass := m,
                  p_tracerId := e_tracerId e\<rparr>;
          p2 = p1\<lparr>p_concentration := calculateConcentration e p1\<rparr>;
          p3 = p2\<lparr>p_releaseDay := Some (simulationDays (e_stats e))\<rparr>
      in p3\<lparr>p_history := [(p_x p3, p_y p3, p_depth p3)]\<rparr>)"

text \<open>A pool particle as \<open>initializeParticlePool\<close> creates it, with mass \<open>m\<close>.\<close>

definition poolParticle :: "engine \<Rightarrow> nat \<Rightarrow> real \<Rightarrow> particle" where
  "poolParticle e i m =
     \<lparr>p_id = i, p_active = False, p_tracerId = e_tracerId e, p_x = 0, p_y = 0, p_depth = 0,
      p_concentration = 0, p_age = 0, p_mass = m, p_history = [], p_velocityU = 0,
      p_velocityV = 0, p_releaseDay = None, p_lastIntegration = ''none''\<rparr>"

section \<open>The current field service (web/hycomLoader.js)\<close>

subsection \<open>A loaded day\<close>

text \<open>
  The object a day file is parsed into. The four large arrays are \<open>None\<close> once they have
  been set to \<open>null\<close>. Array elements are 32-bit floats, which may be NaN or infinite.
\<close>

record dayData =
  lonArray :: "jsnum list option"
  latArray :: "jsnum list option"
  uArray :: "jsnum list option"
  vArray :: "jsnum list option"
  nLat :: int
  nLon :: int
  nDepth :: int
  totalCells :: int
  totalDataPoints :: int

text \<open>\<open>arr[idx]\<close> on a typed array: out of range the value is \<open>undefined\<close>, which
  \<open>isNaN\<close> and \<open>Math.abs\<close> treat as NaN.\<close>

definition aget :: "jsnum list \<Rightarrow> int \<Rightarrow> jsnum" where
  "aget arr idx = (if 0 \<le> idx \<and> idx < int (length arr) then arr ! nat idx else NaN)"

record cell =
  cell_i :: int
  cell_j :: int
  cell_idx :: int
  cell_distance :: real

subsection \<open>Depth levels\<close>

fun indexOf :: "real \<Rightarrow> real list \<Rightarrow> nat \<Rightarrow> nat option" where
  "indexOf a [] i = None"
| "indexOf a (d # ds) i = (if d = a then Some i else indexOf a ds (Suc i))"

text \<open>The loop \<open>for (let i = 1; i < depths.length; i++)\<close> of \<open>getDepthIndex\<close>.\<close>

fun closestLoop :: "real \<Rightarrow> real list \<Rightarrow> nat \<Rightarrow> nat \<Rightarrow> real \<Rightarrow> nat" where
  "closestLoop targetDepth [] i closestIndex minDiff = closestIndex"
| "closestLoop targetDepth (d # ds) i closestIndex minDiff =
     (let diff = \<bar>targetDepth - d\<bar>
      in if diff < minDiff then closestLoop targetDepth ds (Suc i) i diff
         else closestLoop targetDepth ds (Suc i) closestIndex minDiff)"

text \<open>\<open>getDepthIndex\<close>; the depth list is \<open>None\<close> when \<open>metadata?.depths\<close> is missing.\<close>

definition getDepthIndex :: "real list option \<Rightarrow> real \<Rightarrow> nat" where
  "getDepthIndex depths targetDepth =
     (case depths of
        None \<Rightarrow> 0
      | Some [] \<Rightarrow> 0
      | Some (d0 # ds) \<Rightarrow>
          (case indexOf targetDepth (d0 # ds) 0 of
             Some exactIndex \<Rightarrow> exactIndex
           | None \<Rightarrow> closestLoop targetDepth ds 1 0 \<bar>targetDepth - d0\<bar>))"

definition getDepthValue :: "real list option \<Rightarrow> nat \<Rightarrow> real" where
  "getDepthValue depths depthIndex =
     (case depths of
        None \<Rightarrow> 0
      | Some ds \<Rightarrow> if depthIndex \<ge> length ds then 0 else ds ! depthIndex)"

subsection \<open>Velocity lookup and the ocean test\<close>

text \<open>
  What the two lookups read of the loader. \<open>ld_loadDay simulationDay\<close> is the outcome of
  \<open>loadDayByDate\<close> for the date of that simulation day, \<open>None\<close> when the load is rejected;
  \<open>ld_findNearestCell lon lat dayData\<close> is the outcome of \<open>findNearestCell\<close>: \<open>None\<close> when
  it throws (a spatial index with degenerate bounds, or coordinate arrays that are
  \<open>null\<close>), \<open>Some None\<close> when it returns \<open>null\<close>, and the cell otherwise. Both lookups
  make the same two calls with the same arguments.
\<close>

record loader =
  ld_depths :: "real list option"
  ld_defaultDepth :: real
  ld_loadDay :: "real \<Rightarrow> dayData option"
  ld_findNearestCell :: "real \<Rightarrow> real \<Rightarrow> dayData \<Rightarrow> cell option option"

text \<open>The result of the loader's \<open>getVelocityAt\<close>; \<open>actualDepth\<close> is absent in the
  result of the bounds check.\<close>

record loaderVelocity =
  lv_u :: jsnum
  lv_v :: jsnum
  lv_found :: bool
  lv_actualDepth :: "real option"

text \<open>\<open>(depthIndex * dayData.totalCells) + cell.idx\<close>\<close>

definition dataIndex :: "loader \<Rightarrow> dayData \<Rightarrow> cell \<Rightarrow> real \<Rightarrow> int" where
  "dataIndex ld dd c targetDepth =
     int (getDepthIndex (ld_depths ld) targetDepth) * totalCells dd + cell_idx c"

text \<open>
  The loader's \<open>getVelocityAt(lon, lat, depth, simulationDay)\<close>; the depth is \<open>None\<close> for
  \<open>null\<close>. The outer \<open>None\<close> is a thrown exception: a rejected load, a thrown cell
  search, or an array that is \<open>null\<close>.
\<close>

definition loader_getVelocityAt ::
  "loader \<Rightarrow> real \<Rightarrow> real \<Rightarrow> real option \<Rightarrow> real \<Rightarrow> loaderVelocity option" where
  "loader_getVelocityAt ld lon lat dpt simulationDay =
     (let targetDepth = (case dpt of Some d \<Rightarrow> d | None \<Rightarrow> ld_defaultDepth ld);
          depthIndex = getDepthIndex (ld_depths ld) targetDepth
      in case ld_loadDay ld simulationDay of
           None \<Rightarrow> None
         | Some dd \<Rightarrow>
             (case ld_findNearestCell ld lon lat dd of
                None \<Rightarrow> None
              | Some None \<Rightarrow>
                  Some \<lparr>lv_u = Num 0, lv_v = Num 0, lv_found = False,
                        lv_actualDepth = Some (getDepthValue (ld_depths ld) depthIndex)\<rparr>
              | Some (Some c) \<Rightarrow>
                  let idx = dataIndex ld dd c targetDepth
                  in if idx \<ge> totalDataPoints dd
                     then Some \<lparr>lv_u = Num 0, lv_v = Num 0, lv_found = False,
                                lv_actualDepth = None\<rparr>
                     else
                       (case uArray dd of
                          None \<Rightarrow> None
                        | Some ua \<Rightarrow>
                            (case vArray dd of
                               None \<Rightarrow> None
                             | Some va \<Rightarrow>
                                 let u = aget ua idx; v = aget va idx;
                                     isOcean = (\<not> isNaN u \<and> \<not> isNaN v
                                                \<and> abs_lt u 1000 \<and> abs_lt v 1000)
                                 in Some \<lparr>lv_u = (if isOcean then u else Num 0),
                                          lv_v = (if isOcean then v else Num 0),
                                          lv_found = isOcean,
                                          lv_actualDepth =
                                            Some (getDepthValue (ld_depths ld) depthIndex)\<rparr>))))"

text \<open>The loader's \<open>isOcean(lon, lat, depth, simulationDay)\<close>; every exception is caught
  and answered with \<open>false\<close>.\<close>

definition loader_isOcean :: "loader \<Rightarrow> real \<Rightarrow> real \<Rightarrow> real \<Rightarrow> real \<Rightarrow> bool" where
  "loader_isOcean ld lon lat dpt simulationDay =
     (case ld_loadDay ld simulationDay of
        None \<Rightarrow> False
      | Some dd \<Rightarrow>
          (case ld_findNearestCell ld lon lat dd of
             None \<Rightarrow> False
           | Some None \<Rightarrow> False
           | Some (Some c) \<Rightarrow>
               let idx = dataIndex ld dd c dpt
               in case uArray dd of
                    None \<Rightarrow> False
                  | Some ua \<Rightarrow> let u = aget ua idx in \<not> isNaN u \<and> abs_lt u 1000))"

subsection \<open>The day cache\<close>

text \<open>
  \<open>loadedDays\<close> is the \<open>Map\<close> from date key to day object, in insertion order; a day
  object is referred to by its index in \<open>objects\<close>, the store of all day objects created
  so far, so that an object taken out of the map can still be inspected.
\<close>

record loaderState =
  loadedDays :: "(string \<times> nat) list"
  objects :: "dayData list"
  activeDayKey :: "string option"
  maxDaysInMemory :: nat

definition newLoader :: loaderState where
  "newLoader = \<lparr>loadedDays = [], objects = [], activeDayKey = None, maxDaysInMemory = 2\<rparr>"

definition releaseArrays :: "dayData \<Rightarrow> dayData" where
  "releaseArrays dd = dd\<lparr>lonArray := None, latArray := None, uArray := None, vArray := None\<rparr>"

text \<open>The callback of \<open>toRemove.forEach\<close> in \<open>_enforceMemoryLimit\<close>.\<close>

definition removeDay :: "loaderState \<Rightarrow> string \<Rightarrow> loaderState" where
  "removeDay st dateKey =
     (if Some dateKey \<noteq> activeDayKey st then
        (let st1 = (case map_of (loadedDays st) dateKey of
                      None \<Rightarrow> st
                    | Some r \<Rightarrow> st\<lparr>objects := (objects st)[r := releaseArrays (objects st ! r)]\<rparr>)
         in st1\<lparr>loadedDays := AList.delete dateKey (loadedDays st1)\<rparr>)
      else st)"

definition enforceMemoryLimit :: "loaderState \<Rightarrow> loaderState" where
  "enforceMemoryLimit st =
     (if length (loadedDays st) \<le> maxDaysInMemory st then st
      else
        let keys = sort (map fst (loadedDays st));
            toRemove = take (length keys - maxDaysInMemory st) keys
        in foldl removeDay st toRemove)"

text \<open>
  \<open>loadDayByDate\<close> for a date key, with no load of that key in flight. \<open>fetched\<close> is the
  outcome of fetching and parsing the day file, \<open>None\<close> when that fails (the exception is
  passed on and the cache is left as it is). The result pairs the new state with the
  reference of the day object returned.
\<close>

definition loadDayByDate ::
  "loaderState \<Rightarrow> string \<Rightarrow> dayData option \<Rightarrow> loaderState \<times> nat option" where
  "loadDayByDate st dateKey fetched =
     (case map_of (loadedDays st) dateKey of
        Some r \<Rightarrow> (st\<lparr>activeDayKey := Some dateKey\<rparr>, Some r)
      | None \<Rightarrow>
          (case fetched of
             None \<Rightarrow> (st, None)
           | Some dd \<Rightarrow>
               let r = length (objects st);
                   st1 = st\<lparr>objects := objects st @ [dd],
                            loadedDays := AList.update dateKey r (loadedDays st),
                            activeDayKey := Some dateKey\<rparr>
               in (enforceMemoryLimit st1, Some r)))"

fun loadDays :: "loaderState \<Rightarrow> (string \<times> dayData option) list \<Rightarrow> loaderState" where
  "loadDays st [] = st"
| "loadDays st ((dateKey, fetched) # rest) =
     loadDays (fst (loadDayByDate st dateKey fetched)) rest"

text \<open>The date keys in the cache, and those of them that are not the active day.\<close>

definition residentKeys :: "loaderState \<Rightarrow> string list" where
  "residentKeys st = map fst (loadedDays st)"

definition nonActiveKeys :: "loaderState \<Rightarrow> string list" where
  "nonActiveKeys st = filter (\<lambda>k. Some k \<noteq> activeDayKey st) (residentKeys st)"

definition arraysReleased :: "dayData \<Rightarrow> bool" where
  "arraysReleased dd =
     (lonArray dd = None \<and> latArray dd = None \<and> uArray dd = None \<and> vArray dd = None)"

text \<open>The invariant of the cache between two loads.\<close>

definition cacheInv :: "loaderState \<Rightarrow> bool" where
  "cacheInv st =
     (distinct (residentKeys st)
      \<and> (case activeDayKey st of
           None \<Rightarrow> loadedDays st = []
         | Some a \<Rightarrow> a \<in> set (residentKeys st))
      \<and> length (nonActiveKeys st) \<le> maxDaysInMemory st
      \<and> (\<forall>k r. map_of (loadedDays st) k = Some r \<longrightarrow> r < length (objects st)))"

section \<open>The bake player (web/bakeSystem.js)\<close>










section \<open>Example inputs\<close>

text \<open>A one-cell day whose \<open>u\<close> sample is a current and whose \<open>v\<close> sample is NaN.\<close>

definition exDay :: dayData where
  "exDay = \<lparr>lonArray = Some [Num 141.5], latArray = Some [Num 37.5],
     uArray = Some [Num 0.5], vArray = Some [NaN],
     nLat = 1, nLon = 1, nDepth = 1, totalCells = 1, totalDataPoints = 1\<rparr>"

definition exLoader :: loader where
  "exLoader = \<lparr>ld_depths = Some [0, 50, 100, 200, 500, 1000], ld_defaultDepth = 0,
     ld_loadDay = (\<lambda>d. Some exDay),
     ld_findNearestCell =
       (\<lambda>lon lat dd.
          Some (Some \<lparr>cell_i = 0, cell_j = 0, cell_idx = 0, cell_distance = 0\<rparr>))\<rparr>"







text \<open>A one-cell day with valid samples, and a cache after two and after three loads.\<close>

definition fullDay :: dayData where
  "fullDay = \<lparr>lonArray = Some [Num 141.5], latArray = Some [Num 37.5],
     uArray = Some [Num 0.5], vArray = Some [Num 0.1],
     nLat = 1, nLon = 1, nDepth = 1, totalCells = 1, totalDataPoints = 1\<rparr>"

text \<open>The same loader over the day with valid samples.\<close>

definition exFullLoader :: loader where
  "exFullLoader = exLoader\<lparr>ld_loadDay := (\<lambda>d. Some fullDay)\<rparr>"

definition exRequests :: "(string \<times> dayData option) list" where
  "exRequests = [(''2011-03-01'', Some fullDay), (''2011-03-02'', Some fullDay)]"

text \<open>An engine at the reference point (142, 37), an active particle at the origin, and
  a field that is 0.1 m/s eastward everywhere and always.\<close>

definition exEngine :: engine where
  "exEngine = newEngine 10000 ''cs137'' 142 37"

definition exParticle :: particle where
  "exParticle = (poolParticle exEngine 0 1)\<lparr>p_active := True, p_velocityU := 0.3\<rparr>"

definition exUniformServices :: services where
  "exUniformServices =
     \<lparr>svc_isOcean = (\<lambda>lon lat d t. True),
      svc_findNearestOceanCell = (\<lambda>lon lat d t r. Some None),
      svc_getVelocityAt = (\<lambda>lon lat d t. Some \<lparr>vel_u = 0.1, vel_v = 0, vel_found = True\<rparr>),
      svc_getAvailableDepths = [0, 50, 100, 200, 500, 1000],
      svc_ekeLoader = None\<rparr>"

text \<open>The engine with RK4 switched on and a fixed sub-step of at most 0.1 days.\<close>

definition exRk4Engine :: engine where
  "exRk4Engine =
     (enableRK4 exEngine True)
       \<lparr>e_rk4Settings := \<lparr>rk4_enabled = True, timeStepSafety = 0.5,
           adaptiveStepSize = False, minStepSize = 0.01, maxStepSize = 0.1\<rparr>\<rparr>"

text \<open>A diffusivity field of 300 m^2/s, and a coast: ocean west of longitude 142.05.\<close>

definition exEke :: "real \<Rightarrow> real \<Rightarrow> real \<Rightarrow> diffusivity option" where
  "exEke = (\<lambda>lon lat t. Some \<lparr>dif_K = 300, dif_found = True\<rparr>)"

definition exCoastServices :: services where
  "exCoastServices =
     \<lparr>svc_isOcean = (\<lambda>lon lat d t. lon < 142.05),
      svc_findNearestOceanCell = (\<lambda>lon lat d t r. Some None),
      svc_getVelocityAt = (\<lambda>lon lat d t. Some noVelocity),
      svc_getAvailableDepths = [0, 50, 100, 200, 500, 1000],
      svc_ekeLoader = Some exEke\<rparr>"

section \<open>Release manager properties\<close>

lemma rateLoop_find:
  "rateLoop phs day =
     (case find (contains_day day) phs of None \<Rightarrow> Num 0 | Some ph \<Rightarrow> getRate ph)"
  by (induction phs) (simp_all add: contains_day_def)

lemma getRate_valid:
  "ph_start ph < ph_end ph \<Longrightarrow> getRate ph = Num (ph_total ph / (ph_end ph - ph_start ph))"
  by (simp add: getRate_def getDuration_def jsdiv_def)

lemma rateLoop_none:
  "\<forall>q \<in> set phs. \<not> contains_day day q \<Longrightarrow> rateLoop phs day = Num 0"
  by (induction phs) (auto simp: contains_day_def)

lemma rateLoop_positive:
  assumes "\<forall>q \<in> set phs. ph_start q < ph_end q \<and> 0 < ph_total q"
    and "ph \<in> set phs" and "contains_day day ph"
  shows "\<exists>r > 0. rateLoop phs day = Num r"
  using assms
proof (induction phs)
  case Nil
  then show ?case by simp
next
  case (Cons a phs)
  show ?case
  proof (cases "contains_day day a")
    case True
    have "ph_start a < ph_end a" and "0 < ph_total a" using Cons.prems(1) by simp_all
    then have "0 < ph_total a / (ph_end a - ph_start a)" by simp
    moreover have "rateLoop (a # phs) day = Num (ph_total a / (ph_end a - ph_start a))"
      using True \<open>ph_start a < ph_end a\<close> by (simp add: contains_day_def getRate_valid)
    ultimately show ?thesis by blast
  next
    case False
    then have "ph \<in> set phs" using Cons.prems(2,3) by auto
    then have "\<exists>r > 0. rateLoop phs day = Num r"
      using Cons.IH Cons.prems(1,3) by simp
    then show ?thesis using False by (auto simp: contains_day_def)
  qed
qed

lemma rateLoop_gt_zero:
  assumes "\<forall>q \<in> set phs. 0 < ph_total q"
    and "ph \<in> set phs" and "contains_day day ph"
  shows "gt_zero (rateLoop phs day)"
  using assms
proof (induction phs)
  case Nil
  then show ?case by simp
next
  case (Cons a phs)
  show ?case
  proof (cases "contains_day day a")
    case True
    have tot: "0 < ph_total a" using Cons.prems(1) by simp
    have dur: "0 \<le> ph_end a - ph_start a" using True by (simp add: contains_day_def)
    have "gt_zero (getRate a)"
    proof (cases "ph_end a - ph_start a = 0")
      case True
      then show ?thesis using tot by (simp add: getRate_def getDuration_def jsdiv_def)
    next
      case False
      then have "0 < ph_end a - ph_start a" using dur by simp
      then show ?thesis using tot by (simp add: getRate_def getDuration_def jsdiv_def)
    qed
    then show ?thesis using True by (simp add: contains_day_def)
  next
    case False
    then have "ph \<in> set phs" using Cons.prems(2,3) by auto
    then have "gt_zero (rateLoop phs day)"
      using Cons.IH Cons.prems(1,3) by simp
    then show ?thesis using False by (auto simp: contains_day_def)
  qed
qed

text \<open>
  Claim C5 (as stated, refuted). A schedule of one phase over days 0 to 30 with total 0:
  the rate at the start and at the end of the phase is 0, not positive.
\<close>

theorem zero_total_rate_not_positive:
  "getRateAtDay
     ((newReleaseManager ''cs137'')
        \<lparr>phases := [\<lparr>ph_start = 0, ph_end = 30, ph_total = 0, ph_unit = ''PBq''\<rparr>]\<rparr>) 0
     = Num 0
   \<and> getRateAtDay
     ((newReleaseManager ''cs137'')
        \<lparr>phases := [\<lparr>ph_start = 0, ph_end = 30, ph_total = 0, ph_unit = ''PBq''\<rparr>]\<rparr>) 30
     = Num 0
   \<and> \<not> gt_zero (Num 0)"
  by (simp add: getRateAtDay_def getRate_def getDuration_def jsdiv_def)

text \<open>
  Claim C5 (amended). For every phase list and every day, \<open>getRateAtDay\<close> returns the rate
  \<open>total / (end - start)\<close> of the first phase in declaration order whose closed interval
  contains the day, without converting the unit, and 0 when no phase contains the day.
  When every phase has a positive total, the rate at the start and at the end of every
  phase with \<open>start \<le> end\<close> is positive (it is \<open>Infinity\<close> when the first phase containing
  the day has \<open>start = end\<close>); when moreover every phase has \<open>start < end\<close>, it is a
  positive finite number. The rate at any day after the end of a phase that no phase
  contains is 0.
\<close>

theorem getRateAtDay_first_phase:
  "getRateAtDay rm day =
     (case find (contains_day day) (phases rm) of
        None \<Rightarrow> Num 0
      | Some ph \<Rightarrow> jsdiv (ph_total ph) (ph_end ph - ph_start ph))
   \<and> ((\<forall>q \<in> set (phases rm). 0 < ph_total q) \<longrightarrow>
        (\<forall>ph \<in> set (phases rm). ph_start ph \<le> ph_end ph \<longrightarrow>
           gt_zero (getRateAtDay rm (ph_start ph))
         \<and> gt_zero (getRateAtDay rm (ph_end ph))))
   \<and> ((\<forall>q \<in> set (phases rm). ph_start q < ph_end q \<and> 0 < ph_total q) \<longrightarrow>
        (\<forall>ph \<in> set (phases rm).
           (\<exists>r > 0. getRateAtDay rm (ph_start ph) = Num r)
         \<and> (\<exists>r > 0. getRateAtDay rm (ph_end ph) = Num r)))
   \<and> (\<forall>ph \<in> set (phases rm). \<forall>eps > 0.
         (\<forall>q \<in> set (phases rm). \<not> contains_day (ph_end ph + eps) q) \<longrightarrow>
         getRateAtDay rm (ph_end ph + eps) = Num 0)"
proof -
  have A: "getRateAtDay rm day =
     (case find (contains_day day) (phases rm) of
        None \<Rightarrow> Num 0
      | Some ph \<Rightarrow> jsdiv (ph_total ph) (ph_end ph - ph_start ph))"
    by (simp add: getRateAtDay_def rateLoop_find getRate_def getDuration_def
        split: option.split)
  have B: "gt_zero (getRateAtDay rm (ph_start ph)) \<and> gt_zero (getRateAtDay rm (ph_end ph))"
    if pos: "\<forall>q \<in> set (phases rm). 0 < ph_total q" and mem: "ph \<in> set (phases rm)"
      and le: "ph_start ph \<le> ph_end ph" for ph
  proof -
    have "contains_day (ph_start ph) ph" "contains_day (ph_end ph) ph"
      using le by (simp_all add: contains_day_def)
    then show ?thesis
      unfolding getRateAtDay_def using rateLoop_gt_zero [OF pos mem] by blast
  qed
  have C: "(\<exists>r > 0. getRateAtDay rm (ph_start ph) = Num r)
         \<and> (\<exists>r > 0. getRateAtDay rm (ph_end ph) = Num r)"
    if valid: "\<forall>q \<in> set (phases rm). ph_start q < ph_end q \<and> 0 < ph_total q"
      and mem: "ph \<in> set (phases rm)" for ph
  proof -
    have "contains_day (ph_start ph) ph" "contains_day (ph_end ph) ph"
      using valid mem by (auto simp: contains_day_def)
    then show ?thesis
      unfolding getRateAtDay_def using rateLoop_positive [OF valid mem] by blast
  qed
  have D: "getRateAtDay rm (ph_end ph + eps) = Num 0"
    if "\<forall>q \<in> set (phases rm). \<not> contains_day (ph_end ph + eps) q" for ph eps
    unfolding getRateAtDay_def using that by (rule rateLoop_none)
  show ?thesis using A B C D by blast
qed

lemma phases_newReleaseManager_cs137:
  "phases (newReleaseManager ''cs137'') =
     [\<lparr>ph_start = 0, ph_end = 30, ph_total = 16200000, ph_unit = ''PBq''\<rparr>]"
  by (simp add: newReleaseManager_def addDefaultPhase_def lookupTracer_def
      TracerLibrary_def cs137_def)

theorem getRateAtDay_first_phase_witness:
  "getRateAtDay (newReleaseManager ''cs137'') 12 = Num 540000
   \<and> gt_zero (getRateAtDay (newReleaseManager ''cs137'') 0)
   \<and> gt_zero (getRateAtDay (newReleaseManager ''cs137'') 30)
   \<and> (\<exists>r > 0. getRateAtDay (newReleaseManager ''cs137'') 0 = Num r)
   \<and> (\<exists>r > 0. getRateAtDay (newReleaseManager ''cs137'') 30 = Num r)
   \<and> getRateAtDay (newReleaseManager ''cs137'') (30 + 1) = Num 0"
proof -
  let ?rm = "newReleaseManager ''cs137''"
  let ?ph = "\<lparr>ph_start = 0, ph_end = 30, ph_total = 16200000, ph_unit = ''PBq''\<rparr>"
  note ph = phases_newReleaseManager_cs137
  note inst = getRateAtDay_first_phase [of ?rm 12]
  have mem: "?ph \<in> set (phases ?rm)" by (simp add: ph)
  have pos: "\<forall>q \<in> set (phases ?rm). 0 < ph_total q" by (simp add: ph)
  have le: "ph_start ?ph \<le> ph_end ?ph" by simp
  have valid: "\<forall>q \<in> set (phases ?rm). ph_start q < ph_end q \<and> 0 < ph_total q"
    by (simp add: ph)
  have out: "\<forall>q \<in> set (phases ?rm). \<not> contains_day (ph_end ?ph + 1) q"
    by (simp add: ph contains_day_def)
  have a: "getRateAtDay ?rm 12 = Num 540000"
    using inst by (simp add: ph contains_day_def jsdiv_def)
  have g: "gt_zero (getRateAtDay ?rm (ph_start ?ph))
         \<and> gt_zero (getRateAtDay ?rm (ph_end ?ph))"
    using inst pos mem le by blast
  have b: "(\<exists>r > 0. getRateAtDay ?rm (ph_start ?ph) = Num r)
         \<and> (\<exists>r > 0. getRateAtDay ?rm (ph_end ?ph) = Num r)"
    using inst valid mem by blast
  have c: "getRateAtDay ?rm (ph_end ?ph + 1) = Num 0"
    using inst mem out by (meson zero_less_one)
  show ?thesis using a g b c by simp
qed

text \<open>
  Claim C6 (evaluation of the code). The constructor of the release manager for Cs-137
  seeds one phase over days 0 to 30 whose total is the default inventory divided by
  \<open>1e9\<close>, that is 16200000, and labels it with the unit PBq; the total release in GBq
  that follows from this phase is \<open>1.62e13\<close>.
\<close>

theorem addDefaultPhase_cs137:
  "phases (newReleaseManager ''cs137'') =
     [\<lparr>ph_start = 0, ph_end = 30, ph_total = 16200000, ph_unit = ''PBq''\<rparr>]
   \<and> getTotalRelease (newReleaseManager ''cs137'') = 16.2 * 10 ^ 12"
  by (simp add: phases_newReleaseManager_cs137 getTotalRelease_def convertToBaseUnit_def)

section \<open>Configuration of the release schedule\<close>

lemma releaseManager_newEngine:
  "releaseManager (newEngine n k lon lat) = Some (newReleaseManager k)"
  by (simp add: newEngine_def calculateParticleCalibration_def)

text \<open>
  Claim C3 (as stated, refuted). A phase list holding a phase with end before start is
  installed by \<open>setReleasePhases\<close>: the schedule of the engine becomes that list.
\<close>

theorem setReleasePhases_invalid_applied:
  "map_option phases
     (releaseManager
        (setReleasePhases (newEngine 10000 ''cs137'' 141.31 37.42)
           [\<lparr>ph_start = 10, ph_end = 5, ph_total = 1, ph_unit = ''PBq''\<rparr>]))
   = Some [\<lparr>ph_start = 10, ph_end = 5, ph_total = 1, ph_unit = ''PBq''\<rparr>]
   \<and> map_option phases (releaseManager (newEngine 10000 ''cs137'' 141.31 37.42))
   = Some [\<lparr>ph_start = 0, ph_end = 30, ph_total = 16200000, ph_unit = ''PBq''\<rparr>]"
  by (simp add: setReleasePhases_def releaseManager_newEngine calculateParticleCalibration_def
      phases_newReleaseManager_cs137)

text \<open>
  Claim C3 (amended). \<open>setReleasePhases\<close> never fails: whenever the engine has a release
  manager it replaces the schedule with the supplied phases as they are, whatever their
  start and end days, and recomputes the activity per particle from the new schedule.
\<close>

theorem setReleasePhases_replaces:
  "releaseManager e = Some rm \<Longrightarrow>
     releaseManager (setReleasePhases e phs) = Some (rm\<lparr>phases := phs\<rparr>)
   \<and> UNITS_PER_PARTICLE (setReleasePhases e phs)
       = calibration (rm\<lparr>phases := phs\<rparr>) (particleCount e)"
  by (simp add: setReleasePhases_def calculateParticleCalibration_def)

theorem setReleasePhases_replaces_witness:
  "releaseManager
     (setReleasePhases (newEngine 10000 ''cs137'' 141.31 37.42)
        [\<lparr>ph_start = 0, ph_end = 10, ph_total = 5, ph_unit = ''TBq''\<rparr>])
     = Some ((newReleaseManager ''cs137'')
              \<lparr>phases := [\<lparr>ph_start = 0, ph_end = 10, ph_total = 5, ph_unit = ''TBq''\<rparr>]\<rparr>)
   \<and> UNITS_PER_PARTICLE
       (setReleasePhases (newEngine 10000 ''cs137'' 141.31 37.42)
          [\<lparr>ph_start = 0, ph_end = 10, ph_total = 5, ph_unit = ''TBq''\<rparr>])
     = Num 0.5"
proof -
  let ?e = "newEngine 10000 ''cs137'' 141.31 37.42"
  let ?phs = "[\<lparr>ph_start = 0, ph_end = 10, ph_total = 5, ph_unit = ''TBq''\<rparr>]"
  have rm: "releaseManager ?e = Some (newReleaseManager ''cs137'')"
    by (rule releaseManager_newEngine)
  have pc: "particleCount ?e = 10000"
    by (simp add: newEngine_def calculateParticleCalibration_def)
  have cal: "calibration ((newReleaseManager ''cs137'')\<lparr>phases := ?phs\<rparr>) 10000 = Num 0.5"
    by (simp add: calibration_def getTotalRelease_def convertToBaseUnit_def
        getParticleActivity_def jsdiv_def)
  show ?thesis
    using setReleasePhases_replaces [OF rm, of ?phs] pc cal by simp
qed


section \<open>Ocean test and velocity lookup of the current field service\<close>

text \<open>
  Claim C2 (as stated, refuted). At a cell whose \<open>u\<close> sample is a valid current and whose
  \<open>v\<close> sample is NaN, \<open>isOcean\<close> answers true while \<open>getVelocityAt\<close> reports
  \<open>found = false\<close>.
\<close>

theorem isOcean_differs_from_found:
  "loader_isOcean exLoader 141.5 37.5 0 0 = True
   \<and> map_option lv_found (loader_getVelocityAt exLoader 141.5 37.5 (Some 0) 0) = Some False"
  by (simp add: loader_isOcean_def loader_getVelocityAt_def exLoader_def exDay_def
      dataIndex_def getDepthIndex_def aget_def)

text \<open>
  Claim C2 (amended). \<open>isOcean\<close> is true exactly when the day loads, the cell search
  returns a cell, the \<open>u\<close> array is present and the cell's \<open>u\<close> sample at the snapped
  depth level passes the sentinel test (not NaN, absolute value below 1000); the \<open>v\<close>
  sample is not read. \<open>getVelocityAt\<close> returns with \<open>found = true\<close> exactly when, in
  addition, the index lies inside the data, the \<open>v\<close> array is present and the \<open>v\<close>
  sample passes the test too. So \<open>found\<close> implies \<open>isOcean\<close>, and whenever
  \<open>getVelocityAt\<close> returns for a cell whose index is inside the data and whose \<open>v\<close>
  sample passes the test, its \<open>found\<close> flag is the answer of \<open>isOcean\<close>.
\<close>

theorem isOcean_exactly_when:
  "loader_isOcean ld lon lat dpt simDay =
     (\<exists>dd c ua. ld_loadDay ld simDay = Some dd
        \<and> ld_findNearestCell ld lon lat dd = Some (Some c)
        \<and> uArray dd = Some ua
        \<and> \<not> isNaN (aget ua (dataIndex ld dd c dpt))
        \<and> abs_lt (aget ua (dataIndex ld dd c dpt)) 1000)
   \<and> (\<exists>r. loader_getVelocityAt ld lon lat (Some dpt) simDay = Some r \<and> lv_found r) =
     (\<exists>dd c ua va. ld_loadDay ld simDay = Some dd
        \<and> ld_findNearestCell ld lon lat dd = Some (Some c)
        \<and> uArray dd = Some ua \<and> vArray dd = Some va
        \<and> dataIndex ld dd c dpt < totalDataPoints dd
        \<and> \<not> isNaN (aget ua (dataIndex ld dd c dpt))
        \<and> abs_lt (aget ua (dataIndex ld dd c dpt)) 1000
        \<and> \<not> isNaN (aget va (dataIndex ld dd c dpt))
        \<and> abs_lt (aget va (dataIndex ld dd c dpt)) 1000)
   \<and> ((\<exists>r. loader_getVelocityAt ld lon lat (Some dpt) simDay = Some r \<and> lv_found r)
        \<longrightarrow> loader_isOcean ld lon lat dpt simDay)
   \<and> (\<forall>r dd c va. loader_getVelocityAt ld lon lat (Some dpt) simDay = Some r
        \<longrightarrow> ld_loadDay ld simDay = Some dd
        \<longrightarrow> ld_findNearestCell ld lon lat dd = Some (Some c)
        \<longrightarrow> vArray dd = Some va
        \<longrightarrow> dataIndex ld dd c dpt < totalDataPoints dd
        \<longrightarrow> \<not> isNaN (aget va (dataIndex ld dd c dpt))
        \<longrightarrow> abs_lt (aget va (dataIndex ld dd c dpt)) 1000
        \<longrightarrow> lv_found r = loader_isOcean ld lon lat dpt simDay)"
proof -
  have A: "loader_isOcean ld lon lat dpt simDay =
     (\<exists>dd c ua. ld_loadDay ld simDay = Some dd
        \<and> ld_findNearestCell ld lon lat dd = Some (Some c)
        \<and> uArray dd = Some ua
        \<and> \<not> isNaN (aget ua (dataIndex ld dd c dpt))
        \<and> abs_lt (aget ua (dataIndex ld dd c dpt)) 1000)"
    by (simp add: loader_isOcean_def Let_def split: option.split)
  have B: "(\<exists>r. loader_getVelocityAt ld lon lat (Some dpt) simDay = Some r \<and> lv_found r) =
     (\<exists>dd c ua va. ld_loadDay ld simDay = Some dd
        \<and> ld_findNearestCell ld lon lat dd = Some (Some c)
        \<and> uArray dd = Some ua \<and> vArray dd = Some va
        \<and> dataIndex ld dd c dpt < totalDataPoints dd
        \<and> \<not> isNaN (aget ua (dataIndex ld dd c dpt))
        \<and> abs_lt (aget ua (dataIndex ld dd c dpt)) 1000
        \<and> \<not> isNaN (aget va (dataIndex ld dd c dpt))
        \<and> abs_lt (aget va (dataIndex ld dd c dpt)) 1000)"
    by (auto simp: loader_getVelocityAt_def dataIndex_def Let_def split: option.splits)
  have C: "(\<exists>r. loader_getVelocityAt ld lon lat (Some dpt) simDay = Some r \<and> lv_found r)
        \<longrightarrow> loader_isOcean ld lon lat dpt simDay"
    unfolding A B by blast
  have D: "\<forall>r dd c va. loader_getVelocityAt ld lon lat (Some dpt) simDay = Some r
        \<longrightarrow> ld_loadDay ld simDay = Some dd
        \<longrightarrow> ld_findNearestCell ld lon lat dd = Some (Some c)
        \<longrightarrow> vArray dd = Some va
        \<longrightarrow> dataIndex ld dd c dpt < totalDataPoints dd
        \<longrightarrow> \<not> isNaN (aget va (dataIndex ld dd c dpt))
        \<longrightarrow> abs_lt (aget va (dataIndex ld dd c dpt)) 1000
        \<longrightarrow> lv_found r = loader_isOcean ld lon lat dpt simDay"
    by (auto simp: loader_getVelocityAt_def loader_isOcean_def dataIndex_def Let_def
        split: option.splits)
  show ?thesis using A B C D by blast
qed

theorem isOcean_exactly_when_witness:
  "loader_isOcean exLoader 141.5 37.5 0 0
   \<and> \<not> (\<exists>r. loader_getVelocityAt exLoader 141.5 37.5 (Some 0) 0 = Some r \<and> lv_found r)
   \<and> (\<exists>r. loader_getVelocityAt exFullLoader 141.5 37.5 (Some 0) 0 = Some r \<and> lv_found r)
   \<and> loader_isOcean exFullLoader 141.5 37.5 0 0"
proof -
  let ?c = "\<lparr>cell_i = 0, cell_j = 0, cell_idx = 0, cell_distance = 0\<rparr>"
  have i: "dataIndex exLoader dd ?c 0 = 0" "dataIndex exFullLoader dd ?c 0 = 0" for dd
    by (simp_all add: dataIndex_def exFullLoader_def exLoader_def getDepthIndex_def)
  have ld: "ld_loadDay exLoader = (\<lambda>d. Some exDay)"
    "ld_findNearestCell exLoader = (\<lambda>lon lat dd. Some (Some ?c))"
    "ld_loadDay exFullLoader = (\<lambda>d. Some fullDay)"
    "ld_findNearestCell exFullLoader = (\<lambda>lon lat dd. Some (Some ?c))"
    by (simp_all add: exFullLoader_def exLoader_def)
  have arr: "uArray exDay = Some [Num 0.5]" "vArray exDay = Some [NaN]"
    "totalDataPoints exDay = 1" "uArray fullDay = Some [Num 0.5]"
    "vArray fullDay = Some [Num 0.1]" "totalDataPoints fullDay = 1"
    by (simp_all add: exDay_def fullDay_def)
  note t1 = isOcean_exactly_when [of exLoader "141.5" "37.5" 0 0]
  note t2 = isOcean_exactly_when [of exFullLoader "141.5" "37.5" 0 0]
  have a: "loader_isOcean exLoader 141.5 37.5 0 0"
    using t1 by (simp add: ld i arr aget_def)
  have b: "\<not> (\<exists>r. loader_getVelocityAt exLoader 141.5 37.5 (Some 0) 0 = Some r \<and> lv_found r)"
    using t1 by (simp add: ld i arr aget_def)
  have c: "\<exists>r. loader_getVelocityAt exFullLoader 141.5 37.5 (Some 0) 0 = Some r \<and> lv_found r"
    using t2 by (simp add: ld i arr aget_def)
  have d: "loader_isOcean exFullLoader 141.5 37.5 0 0"
    using t2 c by blast
  show ?thesis using a b c d by blast
qed

section \<open>Seeking in the bake player\<close>












section \<open>The day cache of the current field service\<close>

lemma removeDay_fields [simp]:
  "activeDayKey (removeDay st k) = activeDayKey st"
  "maxDaysInMemory (removeDay st k) = maxDaysInMemory st"
  "length (objects (removeDay st k)) = length (objects st)"
  by (simp_all add: removeDay_def Let_def split: option.split)

lemma keys_delete:
  "map fst (AList.delete k al) = filter (\<lambda>k'. k' \<noteq> k) (map fst al)"
  by (induction al) auto

lemma released_update:
  "r < length xs \<Longrightarrow> arraysReleased (xs ! r) \<Longrightarrow>
   arraysReleased (xs[i := releaseArrays (xs ! i)] ! r)"
  by (cases "i = r") (simp_all add: arraysReleased_def releaseArrays_def)

lemma residentKeys_removeDay:
  "residentKeys (removeDay st k) =
     (if Some k \<noteq> activeDayKey st then filter (\<lambda>k'. k' \<noteq> k) (residentKeys st)
      else residentKeys st)"
  by (simp add: removeDay_def residentKeys_def Let_def keys_delete split: option.split)

lemma map_of_removeDay:
  "map_of (loadedDays (removeDay st k)) =
     (if Some k \<noteq> activeDayKey st then (map_of (loadedDays st))(k := None)
      else map_of (loadedDays st))"
  by (simp add: removeDay_def Let_def delete_conv' split: option.split)

lemma foldl_removeDay_fields [simp]:
  "activeDayKey (foldl removeDay st ks) = activeDayKey st"
  "maxDaysInMemory (foldl removeDay st ks) = maxDaysInMemory st"
  "length (objects (foldl removeDay st ks)) = length (objects st)"
  by (induction ks arbitrary: st) simp_all

lemma residentKeys_foldl_removeDay:
  "residentKeys (foldl removeDay st ks) =
     filter (\<lambda>k. k \<notin> set ks \<or> Some k = activeDayKey st) (residentKeys st)"
proof (induction ks arbitrary: st)
  case Nil
  then show ?case by simp
next
  case (Cons a ks)
  show ?case
    by (auto simp: Cons.IH residentKeys_removeDay intro!: filter_cong)
qed

lemma map_of_foldl_removeDay:
  "map_of (loadedDays (foldl removeDay st ks)) k =
     (if k \<in> set ks \<and> Some k \<noteq> activeDayKey st then None else map_of (loadedDays st) k)"
proof (induction ks arbitrary: st)
  case Nil
  then show ?case by simp
next
  case (Cons a ks)
  show ?case by (auto simp: Cons.IH map_of_removeDay)
qed

lemma released_removeDay:
  "r < length (objects st) \<Longrightarrow> arraysReleased (objects st ! r) \<Longrightarrow>
   arraysReleased (objects (removeDay st k) ! r)"
  by (simp add: removeDay_def Let_def released_update split: option.split)

lemma released_foldl:
  "r < length (objects st) \<Longrightarrow> arraysReleased (objects st ! r) \<Longrightarrow>
   arraysReleased (objects (foldl removeDay st ks) ! r)"
  by (induction ks arbitrary: st) (simp_all add: released_removeDay)

lemma removeDay_releases:
  "Some e \<noteq> activeDayKey st \<Longrightarrow> map_of (loadedDays st) e = Some r \<Longrightarrow>
   r < length (objects st) \<Longrightarrow> arraysReleased (objects (removeDay st e) ! r)"
  by (simp add: removeDay_def Let_def arraysReleased_def releaseArrays_def)

lemma foldl_releases:
  "e \<in> set ks \<Longrightarrow> Some e \<noteq> activeDayKey st \<Longrightarrow> map_of (loadedDays st) e = Some r \<Longrightarrow>
   r < length (objects st) \<Longrightarrow> arraysReleased (objects (foldl removeDay st ks) ! r)"
proof (induction ks arbitrary: st)
  case Nil
  then show ?case by simp
next
  case (Cons a ks)
  show ?case
  proof (cases "a = e")
    case True
    have "arraysReleased (objects (removeDay st e) ! r)"
      using Cons.prems by (intro removeDay_releases)
    then show ?thesis using True Cons.prems(4) by (simp add: released_foldl)
  next
    case False
    then have "e \<in> set ks" using Cons.prems(1) by simp
    moreover have "map_of (loadedDays (removeDay st a)) e = Some r"
      using False Cons.prems(3) by (simp add: map_of_removeDay)
    ultimately show ?thesis using Cons.IH [of "removeDay st a"] Cons.prems(2,4) by simp
  qed
qed

lemma take_less_drop:
  fixes xs :: "'a::linorder list"
  assumes "sorted xs" "distinct xs" "a \<in> set (take j xs)" "b \<in> set (drop j xs)"
  shows "a < b"
proof -
  have "sorted (take j xs @ drop j xs)" "distinct (take j xs @ drop j xs)"
    using assms(1,2) by simp_all
  then have "a \<le> b" "a \<noteq> b"
    using assms(3,4) unfolding sorted_append distinct_append by auto
  then show ?thesis by simp
qed

lemma nonActive_enforce_subset:
  assumes "\<not> length (loadedDays st) \<le> maxDaysInMemory st"
  shows "set (nonActiveKeys (enforceMemoryLimit st))
     \<subseteq> set (drop (length (loadedDays st) - maxDaysInMemory st) (sort (residentKeys st)))"
proof -
  let ?K = "sort (residentKeys st)"
  let ?j = "length (loadedDays st) - maxDaysInMemory st"
  have len: "length (residentKeys st) = length (loadedDays st)" by (simp add: residentKeys_def)
  have "set ?K = set (take ?j ?K) \<union> set (drop ?j ?K)"
    by (metis append_take_drop_id set_append)
  then have "set (residentKeys st) - set (take ?j ?K) \<subseteq> set (drop ?j ?K)" by auto
  then show ?thesis
    using assms
    by (auto simp: enforceMemoryLimit_def Let_def nonActiveKeys_def
        residentKeys_foldl_removeDay residentKeys_def [symmetric] len)
qed


lemma length_filter_neq:
  "distinct xs \<Longrightarrow> a \<in> set xs \<Longrightarrow> length (filter (\<lambda>k. k \<noteq> a) xs) = length xs - 1"
proof (induction xs)
  case Nil
  then show ?case by simp
next
  case (Cons x xs)
  show ?case
  proof (cases "x = a")
    case True
    then have "a \<notin> set xs" using Cons.prems(1) by simp
    then have "filter (\<lambda>k. k \<noteq> a) xs = xs" by (auto simp: filter_id_conv)
    then show ?thesis using True by simp
  next
    case False
    then have "a \<in> set xs" using Cons.prems(2) by simp
    then have "length (filter (\<lambda>k. k \<noteq> a) xs) = length xs - 1" "xs \<noteq> []"
      using Cons by auto
    then show ?thesis using False by (cases xs) simp_all
  qed
qed

lemma nonActive_enforce_bound:
  assumes "distinct (residentKeys st)"
  shows "length (nonActiveKeys (enforceMemoryLimit st)) \<le> maxDaysInMemory st"
proof (cases "length (loadedDays st) \<le> maxDaysInMemory st")
  case True
  have "length (nonActiveKeys st) \<le> length (residentKeys st)"
    by (simp add: nonActiveKeys_def)
  then show ?thesis using True by (simp add: enforceMemoryLimit_def residentKeys_def)
next
  case False
  let ?j = "length (loadedDays st) - maxDaysInMemory st"
  let ?D = "drop ?j (sort (residentKeys st))"
  have d: "distinct (nonActiveKeys (enforceMemoryLimit st))"
    using assms False
    by (simp add: nonActiveKeys_def enforceMemoryLimit_def Let_def
        residentKeys_foldl_removeDay)
  have "length (nonActiveKeys (enforceMemoryLimit st))
      = card (set (nonActiveKeys (enforceMemoryLimit st)))"
    using d by (simp add: distinct_card)
  also have "\<dots> \<le> card (set ?D)"
    by (rule card_mono [OF _ nonActive_enforce_subset [OF False]]) simp
  also have "\<dots> \<le> length ?D" by (rule card_length)
  also have "\<dots> = maxDaysInMemory st" using False by (simp add: residentKeys_def)
  finally show ?thesis .
qed

lemma enforce_fields [simp]:
  "activeDayKey (enforceMemoryLimit st) = activeDayKey st"
  "maxDaysInMemory (enforceMemoryLimit st) = maxDaysInMemory st"
  "length (objects (enforceMemoryLimit st)) = length (objects st)"
  by (simp_all add: enforceMemoryLimit_def Let_def)

lemma residentKeys_enforce:
  "residentKeys (enforceMemoryLimit st) =
     (if length (loadedDays st) \<le> maxDaysInMemory st then residentKeys st
      else filter (\<lambda>k. k \<notin> set (take (length (loadedDays st) - maxDaysInMemory st)
                                  (sort (residentKeys st)))
                       \<or> Some k = activeDayKey st) (residentKeys st))"
  by (simp add: enforceMemoryLimit_def Let_def residentKeys_foldl_removeDay
      residentKeys_def [symmetric]) (simp add: residentKeys_def)

lemma map_of_enforce:
  "map_of (loadedDays (enforceMemoryLimit st)) k = Some r \<Longrightarrow>
   map_of (loadedDays st) k = Some r"
  by (simp add: enforceMemoryLimit_def Let_def map_of_foldl_removeDay split: if_splits)

lemma cacheInv_enforce:
  assumes "distinct (residentKeys st)" "activeDayKey st = Some a" "a \<in> set (residentKeys st)"
    "\<forall>k r. map_of (loadedDays st) k = Some r \<longrightarrow> r < length (objects st)"
  shows "cacheInv (enforceMemoryLimit st)"
  unfolding cacheInv_def
proof (intro conjI)
  show "distinct (residentKeys (enforceMemoryLimit st))"
    using assms(1) by (simp add: residentKeys_enforce)
  show "case activeDayKey (enforceMemoryLimit st) of
          None \<Rightarrow> loadedDays (enforceMemoryLimit st) = []
        | Some a \<Rightarrow> a \<in> set (residentKeys (enforceMemoryLimit st))"
    using assms(2,3) by (simp add: residentKeys_enforce)
  show "length (nonActiveKeys (enforceMemoryLimit st))
      \<le> maxDaysInMemory (enforceMemoryLimit st)"
    using nonActive_enforce_bound [OF assms(1)] by simp
  show "\<forall>k r. map_of (loadedDays (enforceMemoryLimit st)) k = Some r \<longrightarrow>
      r < length (objects (enforceMemoryLimit st))"
  proof (intro allI impI)
    fix k r
    assume "map_of (loadedDays (enforceMemoryLimit st)) k = Some r"
    then have "map_of (loadedDays st) k = Some r" by (rule map_of_enforce)
    then show "r < length (objects (enforceMemoryLimit st))" using assms(4) by simp
  qed
qed

lemma map_of_resident:
  "(map_of (loadedDays st) k = None) = (k \<notin> set (residentKeys st))"
  by (simp add: residentKeys_def map_of_eq_None_iff)

lemma cacheInv_setActive:
  assumes inv: "cacheInv st" and kin: "k \<in> set (residentKeys st)"
  shows "cacheInv (st\<lparr>activeDayKey := Some k\<rparr>)"
proof -
  have d: "distinct (residentKeys st)" using inv by (simp add: cacheInv_def)
  have ne: "loadedDays st \<noteq> []" using kin by (auto simp: residentKeys_def)
  obtain a where a: "activeDayKey st = Some a" "a \<in> set (residentKeys st)"
    using inv ne by (cases "activeDayKey st") (simp_all add: cacheInv_def)
  have "length (filter (\<lambda>x. x \<noteq> k) (residentKeys st)) = length (residentKeys st) - 1"
    by (rule length_filter_neq [OF d kin])
  moreover have "length (filter (\<lambda>x. x \<noteq> a) (residentKeys st)) = length (residentKeys st) - 1"
    by (rule length_filter_neq [OF d a(2)])
  moreover have "length (nonActiveKeys st) \<le> maxDaysInMemory st"
    using inv by (simp add: cacheInv_def)
  moreover have "nonActiveKeys st = filter (\<lambda>x. x \<noteq> a) (residentKeys st)"
    using a(1) by (simp add: nonActiveKeys_def)
  ultimately have b: "length (filter (\<lambda>x. x \<noteq> k) (residentKeys st)) \<le> maxDaysInMemory st"
    by simp
  have rk: "residentKeys (st\<lparr>activeDayKey := Some k\<rparr>) = residentKeys st"
    by (simp add: residentKeys_def)
  have na: "nonActiveKeys (st\<lparr>activeDayKey := Some k\<rparr>)
      = filter (\<lambda>x. x \<noteq> k) (residentKeys st)"
    by (simp add: nonActiveKeys_def rk)
  have refs: "\<forall>k r. map_of (loadedDays st) k = Some r \<longrightarrow> r < length (objects st)"
    using inv by (simp add: cacheInv_def)
  show ?thesis
    unfolding cacheInv_def rk na using d kin b refs by simp
qed

lemma cacheInv_load:
  assumes inv: "cacheInv st"
  shows "cacheInv (fst (loadDayByDate st k f))"
proof (cases "map_of (loadedDays st) k")
  case (Some r)
  then have kin: "k \<in> set (residentKeys st)" using map_of_resident [of st k] by simp
  have "fst (loadDayByDate st k f) = st\<lparr>activeDayKey := Some k\<rparr>"
    using Some by (simp add: loadDayByDate_def)
  then show ?thesis using cacheInv_setActive [OF inv kin] by simp
next
  case None
  show ?thesis
  proof (cases f)
    case N: None
    then show ?thesis using None inv by (simp add: loadDayByDate_def)
  next
    case (Some dd)
    let ?st1 = "st\<lparr>objects := objects st @ [dd],
                   loadedDays := AList.update k (length (objects st)) (loadedDays st),
                   activeDayKey := Some k\<rparr>"
    have d0: "distinct (map fst (loadedDays st))"
      using inv by (simp add: cacheInv_def residentKeys_def)
    have d: "distinct (residentKeys ?st1)"
      using d0 by (simp add: residentKeys_def distinct_update)
    have kin: "k \<in> set (residentKeys ?st1)"
      by (simp add: residentKeys_def update_keys)
    have refs0: "\<forall>k r. map_of (loadedDays st) k = Some r \<longrightarrow> r < length (objects st)"
      using inv by (simp add: cacheInv_def)
    have refs: "\<forall>k' r. map_of (loadedDays ?st1) k' = Some r \<longrightarrow> r < length (objects ?st1)"
    proof (intro allI impI)
      fix k' r
      assume m: "map_of (loadedDays ?st1) k' = Some r"
      show "r < length (objects ?st1)"
      proof (cases "k' = k")
        case True
        then show ?thesis using m by (simp add: update_conv')
      next
        case False
        then have "map_of (loadedDays st) k' = Some r" using m by (simp add: update_conv')
        then have "r < length (objects st)" using refs0 by blast
        then show ?thesis by simp
      qed
    qed
    have act: "activeDayKey ?st1 = Some k" by simp
    have "cacheInv (enforceMemoryLimit ?st1)"
      by (rule cacheInv_enforce [OF d act kin refs])
    moreover have "fst (loadDayByDate st k f) = enforceMemoryLimit ?st1"
      using None Some by (simp add: loadDayByDate_def Let_def)
    ultimately show ?thesis by simp
  qed
qed

lemma cacheInv_newLoader: "cacheInv newLoader"
  by (simp add: cacheInv_def newLoader_def residentKeys_def nonActiveKeys_def)

lemma cacheInv_loadDays: "cacheInv st \<Longrightarrow> cacheInv (loadDays st reqs)"
  by (induction st reqs rule: loadDays.induct) (simp_all add: cacheInv_load)

lemma maxDays_load:
  "maxDaysInMemory (fst (loadDayByDate st k f)) = maxDaysInMemory st"
  by (simp add: loadDayByDate_def Let_def split: option.split)

lemma maxDays_loadDays: "maxDaysInMemory (loadDays st reqs) = maxDaysInMemory st"
  by (induction st reqs rule: loadDays.induct) (simp_all add: maxDays_load)


lemma evicted_properties:
  assumes inv: "cacheInv st" and st': "st' = fst (loadDayByDate st k (Some dd))"
    and e1: "e \<in> set (residentKeys st)" and e2: "e \<notin> set (residentKeys st')"
  shows "(\<forall>r \<in> set (nonActiveKeys st'). e < r)
       \<and> (\<forall>ref. map_of (loadedDays st) e = Some ref \<longrightarrow> arraysReleased (objects st' ! ref))"
proof (cases "map_of (loadedDays st) k")
  case (Some r)
  then have "st' = st\<lparr>activeDayKey := Some k\<rparr>" using st' by (simp add: loadDayByDate_def)
  then have "residentKeys st' = residentKeys st" by (simp add: residentKeys_def)
  then show ?thesis using e1 e2 by simp
next
  case None
  let ?st1 = "st\<lparr>objects := objects st @ [dd],
                 loadedDays := AList.update k (length (objects st)) (loadedDays st),
                 activeDayKey := Some k\<rparr>"
  let ?j = "length (loadedDays ?st1) - maxDaysInMemory ?st1"
  let ?T = "take ?j (sort (residentKeys ?st1))"
  have s1: "st' = enforceMemoryLimit ?st1"
    using None st' by (simp add: loadDayByDate_def Let_def)
  have knot: "k \<notin> set (residentKeys st)" using None map_of_resident [of st k] by simp
  have ek: "e \<noteq> k" using e1 knot by auto
  have e1': "e \<in> set (residentKeys ?st1)" using e1 by (simp add: residentKeys_def update_keys)
  have big: "\<not> length (loadedDays ?st1) \<le> maxDaysInMemory ?st1"
  proof
    assume "length (loadedDays ?st1) \<le> maxDaysInMemory ?st1"
    then have "residentKeys st' = residentKeys ?st1"
      unfolding s1 by (simp only: residentKeys_enforce if_True)
    then show False using e1' e2 by simp
  qed
  have rk: "residentKeys st' =
      filter (\<lambda>x. x \<notin> set ?T \<or> Some x = activeDayKey ?st1) (residentKeys ?st1)"
    unfolding s1 using big by (simp only: residentKeys_enforce if_False)
  have eT: "e \<in> set ?T" using e1' e2 unfolding rk by auto
  have d0: "distinct (map fst (loadedDays st))"
    using inv by (simp add: cacheInv_def residentKeys_def)
  have d: "distinct (residentKeys ?st1)"
    using d0 by (simp add: residentKeys_def distinct_update)
  have A: "\<forall>r \<in> set (nonActiveKeys st'). e < r"
  proof
    fix r
    assume "r \<in> set (nonActiveKeys st')"
    then have "r \<in> set (drop ?j (sort (residentKeys ?st1)))"
      using nonActive_enforce_subset [OF big] unfolding s1 by blast
    then show "e < r"
      using take_less_drop [of "sort (residentKeys ?st1)" e ?j r] d eT by simp
  qed
  have B: "\<forall>ref. map_of (loadedDays st) e = Some ref \<longrightarrow> arraysReleased (objects st' ! ref)"
  proof (intro allI impI)
    fix ref
    assume m: "map_of (loadedDays st) e = Some ref"
    then have "ref < length (objects st)" using inv by (simp add: cacheInv_def)
    then have lt: "ref < length (objects ?st1)" by simp
    have m1: "map_of (loadedDays ?st1) e = Some ref" using m ek by (simp add: update_conv')
    have na: "Some e \<noteq> activeDayKey ?st1" using ek by simp
    have "arraysReleased (objects (foldl removeDay ?st1 ?T) ! ref)"
      by (rule foldl_releases [OF eT na m1 lt])
    moreover have "st' = foldl removeDay ?st1 ?T"
      unfolding s1 using big by (simp add: enforceMemoryLimit_def Let_def residentKeys_def)
    ultimately show "arraysReleased (objects st' ! ref)" by simp
  qed
  show ?thesis using A B by blast
qed

lemma load_active:
  "st' = fst (loadDayByDate st k (Some dd)) \<Longrightarrow>
   activeDayKey st' = Some k \<and> k \<in> set (residentKeys st')"
proof (cases "map_of (loadedDays st) k")
  case (Some r)
  assume "st' = fst (loadDayByDate st k (Some dd))"
  then have "st' = st\<lparr>activeDayKey := Some k\<rparr>" using Some by (simp add: loadDayByDate_def)
  moreover have "k \<in> set (residentKeys st)" using Some map_of_resident [of st k] by simp
  ultimately show ?thesis by (simp add: residentKeys_def)
next
  case None
  let ?st1 = "st\<lparr>objects := objects st @ [dd],
                 loadedDays := AList.update k (length (objects st)) (loadedDays st),
                 activeDayKey := Some k\<rparr>"
  assume "st' = fst (loadDayByDate st k (Some dd))"
  then have s1: "st' = enforceMemoryLimit ?st1"
    using None by (simp add: loadDayByDate_def Let_def)
  have "k \<in> set (residentKeys ?st1)" by (simp add: residentKeys_def update_keys)
  then show ?thesis unfolding s1 by (simp add: residentKeys_enforce)
qed

text \<open>
  Claim C9. In a cache reached from the empty cache (at most 2 days in memory) by any
  sequence of loads, at most 2 days other than the active day are resident and the
  active day is resident. A further load that succeeds makes its day the active day
  and leaves it resident, with again at most 2 other days resident. Every day the load
  evicts has a date key smaller than that of every other day left resident (the oldest
  go first), and the four large arrays of the evicted day object are released.
\<close>

theorem day_cache_bounded:
  "st = loadDays newLoader reqs \<Longrightarrow> st' = fst (loadDayByDate st k (Some dd)) \<Longrightarrow>
     length (nonActiveKeys st) \<le> 2
   \<and> (\<forall>a. activeDayKey st = Some a \<longrightarrow> a \<in> set (residentKeys st))
   \<and> activeDayKey st' = Some k \<and> k \<in> set (residentKeys st')
   \<and> length (nonActiveKeys st') \<le> 2
   \<and> (\<forall>e \<in> set (residentKeys st) - set (residentKeys st').
         (\<forall>r \<in> set (nonActiveKeys st'). e < r)
       \<and> (\<forall>ref. map_of (loadedDays st) e = Some ref \<longrightarrow>
             arraysReleased (objects st' ! ref)))"
proof -
  assume st: "st = loadDays newLoader reqs" and st': "st' = fst (loadDayByDate st k (Some dd))"
  have inv: "cacheInv st" unfolding st by (rule cacheInv_loadDays [OF cacheInv_newLoader])
  have inv': "cacheInv st'" unfolding st' by (rule cacheInv_load [OF inv])
  have m: "maxDaysInMemory st = 2" unfolding st by (simp add: maxDays_loadDays newLoader_def)
  have m': "maxDaysInMemory st' = 2" unfolding st' using m by (simp add: maxDays_load)
  have a: "length (nonActiveKeys st) \<le> 2" using inv m by (simp add: cacheInv_def)
  have b: "\<forall>a. activeDayKey st = Some a \<longrightarrow> a \<in> set (residentKeys st)"
    using inv by (auto simp: cacheInv_def)
  have c: "activeDayKey st' = Some k \<and> k \<in> set (residentKeys st')"
    by (rule load_active [OF st'])
  have d: "length (nonActiveKeys st') \<le> 2" using inv' m' by (simp add: cacheInv_def)
  have e: "\<forall>e \<in> set (residentKeys st) - set (residentKeys st').
         (\<forall>r \<in> set (nonActiveKeys st'). e < r)
       \<and> (\<forall>ref. map_of (loadedDays st) e = Some ref \<longrightarrow>
             arraysReleased (objects st' ! ref))"
    using evicted_properties [OF inv st'] by blast
  show ?thesis using a b c d e by blast
qed

lemma exRequests_loaded:
  "loadDays newLoader exRequests
     = \<lparr>loadedDays = [(''2011-03-01'', 0), (''2011-03-02'', 1)],
        objects = [fullDay, fullDay], activeDayKey = Some ''2011-03-02'',
        maxDaysInMemory = 2\<rparr>"
  by (simp add: exRequests_def newLoader_def loadDayByDate_def enforceMemoryLimit_def)

lemma exRequests_third:
  "fst (loadDayByDate (loadDays newLoader exRequests) ''2011-03-03'' (Some fullDay))
     = \<lparr>loadedDays = [(''2011-03-02'', 1), (''2011-03-03'', 2)],
        objects = [releaseArrays fullDay, fullDay, fullDay],
        activeDayKey = Some ''2011-03-03'', maxDaysInMemory = 2\<rparr>"
  unfolding exRequests_loaded
  by (simp add: loadDayByDate_def enforceMemoryLimit_def removeDay_def Let_def)

theorem day_cache_bounded_witness:
  "length (nonActiveKeys (loadDays newLoader exRequests)) \<le> 2
   \<and> activeDayKey (fst (loadDayByDate (loadDays newLoader exRequests) ''2011-03-03''
        (Some fullDay))) = Some ''2011-03-03''
   \<and> residentKeys (fst (loadDayByDate (loadDays newLoader exRequests) ''2011-03-03''
        (Some fullDay))) = [''2011-03-02'', ''2011-03-03'']
   \<and> arraysReleased (objects (fst (loadDayByDate (loadDays newLoader exRequests)
        ''2011-03-03'' (Some fullDay))) ! 0)"
proof -
  let ?st = "loadDays newLoader exRequests"
  let ?st' = "fst (loadDayByDate ?st ''2011-03-03'' (Some fullDay))"
  note inst = day_cache_bounded [OF refl refl, of exRequests "''2011-03-03''" fullDay]
  have ev: "''2011-03-01'' \<in> set (residentKeys ?st) - set (residentKeys ?st')"
    unfolding exRequests_third unfolding exRequests_loaded by (simp add: residentKeys_def)
  have m: "map_of (loadedDays ?st) ''2011-03-01'' = Some 0"
    unfolding exRequests_loaded by simp
  have a: "length (nonActiveKeys ?st) \<le> 2" using inst by blast
  have b: "activeDayKey ?st' = Some ''2011-03-03''" using inst by blast
  have c: "residentKeys ?st' = [''2011-03-02'', ''2011-03-03'']"
    unfolding exRequests_third by (simp add: residentKeys_def)
  have d: "arraysReleased (objects ?st' ! 0)" using inst ev m by blast
  show ?thesis using a b c d by blast
qed


section \<open>Integrators on a uniform field\<close>

lemma getVelocityAt_uniform:
  "uniformField sv u v \<Longrightarrow>
   getVelocityAt sv lon lat dm t = \<lparr>vel_u = u, vel_v = v, vel_found = True\<rparr>"
  by (simp add: uniformField_def getVelocityAt_def)

lemma rk4Step_uniform:
  "uniformField sv u v \<Longrightarrow>
   rk4Step e sv px py dpt h t =
     Some \<lparr>s_x = px + h * u * 86.4, s_y = py + h * v * 86.4, s_depth = dpt,
           s_u_avg = u, s_v_avg = v\<rparr>"
  by (simp add: rk4Step_def getVelocityAt_uniform Let_def orK1u_def orK1v_def)

lemma rk4Loop_uniform:
  "uniformField sv u v \<Longrightarrow>
   rk4Loop e sv a day step n px py dpt tu tv =
     Some (px + real n * a * u * 86.4, py + real n * a * v * 86.4, dpt,
           tu + real n * u, tv + real n * v)"
proof (induction n arbitrary: step px py tu tv)
  case 0
  then show ?case by simp
next
  case (Suc n)
  show ?case
    by (simp add: rk4Step_uniform [OF Suc.prems] Suc.IH [OF Suc.prems] algebra_simps)
qed

lemma eulerIntegrate_uniform:
  "uniformField sv u v \<Longrightarrow>
   eulerIntegrate e sv p deltaDays day =
     \<lparr>r_x = p_x p + deltaDays * u * 86.4, r_y = p_y p + deltaDays * v * 86.4,
      r_depth = p_depth p, r_u_avg = Some u, r_v_avg = Some v\<rparr>"
  by (simp add: eulerIntegrate_def getVelocityAt_uniform)

lemma stepSize_pos:
  assumes "0 < deltaDays" "0 < minStepSize (e_rk4Settings e)" "0 < maxStepSize (e_rk4Settings e)"
  shows "0 < calculateOptimalStepSize e p deltaDays"
  using assms by (simp add: calculateOptimalStepSize_def Let_def less_max_iff_disj)

lemma rk4Integrate_uniform:
  assumes uf: "uniformField sv u v" and d: "0 < deltaDays"
    and h: "0 < calculateOptimalStepSize e p deltaDays"
  shows "rk4Integrate e sv p deltaDays day =
     Some \<lparr>r_x = p_x p + deltaDays * u * 86.4, r_y = p_y p + deltaDays * v * 86.4,
           r_depth = p_depth p, r_u_avg = Some u, r_v_avg = Some v\<rparr>"
proof -
  let ?h = "calculateOptimalStepSize e p deltaDays"
  let ?steps = "\<lceil>deltaDays / ?h\<rceil>"
  have q: "0 < deltaDays / ?h" using d h by simp
  then have sp: "0 < ?steps" by (simp only: zero_less_ceiling)
  have si: "?steps \<noteq> 0" using sp by linarith
  have rn: "real (nat ?steps) = real_of_int ?steps" using sp by simp
  have nz: "real_of_int ?steps \<noteq> 0" using si by (simp only: of_int_eq_0_iff not_False_eq_True)
  have hn: "?h \<noteq> 0" using h by simp
  show ?thesis
    using hn si nz
    by (simp add: rk4Integrate_def Let_def rk4Loop_uniform [OF uf] rn)
qed


text \<open>
  Claim C8. On a velocity field that is uniform in space and time with every sample
  found, for a positive step and positive step-size settings, RK4 integration returns,
  and its end position is that of Euler integration over the same interval,
  \<open>(x + deltaDays * u * 86.4, y + deltaDays * v * 86.4)\<close>; every sub-step of length \<open>h\<close>
  has \<open>k1 = k2 = k3 = k4\<close> and advances by \<open>h * u * 86.4\<close>. (Numbers are real numbers:
  the equality is exact.)
\<close>

theorem rk4_equals_euler_on_uniform_field:
  "uniformField sv u v \<Longrightarrow> 0 < deltaDays \<Longrightarrow>
   0 < minStepSize (e_rk4Settings e) \<Longrightarrow> 0 < maxStepSize (e_rk4Settings e) \<Longrightarrow>
     (\<exists>r. rk4Integrate e sv p deltaDays day = Some r
        \<and> r_x r = r_x (eulerIntegrate e sv p deltaDays day)
        \<and> r_y r = r_y (eulerIntegrate e sv p deltaDays day)
        \<and> r_x r = p_x p + deltaDays * u * 86.4
        \<and> r_y r = p_y p + deltaDays * v * 86.4)
   \<and> rk4Step e sv px py dpt h t =
        Some \<lparr>s_x = px + h * u * 86.4, s_y = py + h * v * 86.4, s_depth = dpt,
              s_u_avg = u, s_v_avg = v\<rparr>"
proof -
  assume uf: "uniformField sv u v" and d: "0 < deltaDays"
    and mn: "0 < minStepSize (e_rk4Settings e)" and mx: "0 < maxStepSize (e_rk4Settings e)"
  have h: "0 < calculateOptimalStepSize e p deltaDays" by (rule stepSize_pos [OF d mn mx])
  have "rk4Integrate e sv p deltaDays day =
     Some \<lparr>r_x = p_x p + deltaDays * u * 86.4, r_y = p_y p + deltaDays * v * 86.4,
           r_depth = p_depth p, r_u_avg = Some u, r_v_avg = Some v\<rparr>"
    by (rule rk4Integrate_uniform [OF uf d h])
  then have A: "\<exists>r. rk4Integrate e sv p deltaDays day = Some r
        \<and> r_x r = r_x (eulerIntegrate e sv p deltaDays day)
        \<and> r_y r = r_y (eulerIntegrate e sv p deltaDays day)
        \<and> r_x r = p_x p + deltaDays * u * 86.4
        \<and> r_y r = p_y p + deltaDays * v * 86.4"
    by (simp add: eulerIntegrate_uniform [OF uf])
  show ?thesis using A rk4Step_uniform [OF uf] by blast
qed

lemma exRk4Engine_settings:
  "e_rk4Settings exRk4Engine = \<lparr>rk4_enabled = True, timeStepSafety = 0.5,
           adaptiveStepSize = False, minStepSize = 0.01, maxStepSize = 0.1\<rparr>"
  by (simp add: exRk4Engine_def)

theorem rk4_equals_euler_on_uniform_field_witness:
  "calculateOptimalStepSize exRk4Engine exParticle 1 = 0.1
   \<and> (\<exists>r. rk4Integrate exRk4Engine exUniformServices exParticle 1 0 = Some r
        \<and> r_x r = r_x (eulerIntegrate exRk4Engine exUniformServices exParticle 1 0)
        \<and> r_x r = 8.64 \<and> r_y r = 0)
   \<and> map_option s_x (rk4Step exRk4Engine exUniformServices 0 0 0 0.1 0) = Some 0.864"
proof -
  have uf: "uniformField exUniformServices 0.1 0"
    by (simp add: uniformField_def exUniformServices_def)
  have mn: "0 < minStepSize (e_rk4Settings exRk4Engine)"
    by (simp add: exRk4Engine_settings)
  have mx: "0 < maxStepSize (e_rk4Settings exRk4Engine)"
    by (simp add: exRk4Engine_settings)
  have h: "calculateOptimalStepSize exRk4Engine exParticle 1 = 0.1"
    by (simp add: calculateOptimalStepSize_def exRk4Engine_settings)
  have px: "p_x exParticle = 0" "p_y exParticle = 0"
    by (simp_all add: exParticle_def poolParticle_def)
  note inst = rk4_equals_euler_on_uniform_field
      [OF uf zero_less_one mn mx, of exParticle 0 0 0 0 "0.1" 0]
  show ?thesis using inst h px by auto
qed


section \<open>Path safety\<close>

lemma pathLoop_safe_iff:
  "safe (pathLoop e sv sx sy ex ey d day steps s n)
     = (\<forall>t. s \<le> t \<and> t < s + n \<longrightarrow> sampleIsOcean e sv sx sy ex ey d day steps t)"
proof (induction n arbitrary: s)
  case 0
  then show ?case by auto
next
  case (Suc n)
  show ?case
  proof (cases "sampleIsOcean e sv sx sy ex ey d day steps s")
    case False
    then show ?thesis by auto
  next
    case True
    have "(\<forall>t. Suc s \<le> t \<and> t < Suc s + n \<longrightarrow> sampleIsOcean e sv sx sy ex ey d day steps t)
        = (\<forall>t. s \<le> t \<and> t < s + Suc n \<longrightarrow> sampleIsOcean e sv sx sy ex ey d day steps t)"
    proof (intro iffI allI impI)
      fix t
      assume a: "\<forall>t. Suc s \<le> t \<and> t < Suc s + n \<longrightarrow>
          sampleIsOcean e sv sx sy ex ey d day steps t" and b: "s \<le> t \<and> t < s + Suc n"
      show "sampleIsOcean e sv sx sy ex ey d day steps t"
      proof (cases "t = s")
        case True
        then show ?thesis using \<open>sampleIsOcean e sv sx sy ex ey d day steps s\<close> by simp
      next
        case False
        then have "Suc s \<le> t \<and> t < Suc s + n" using b by simp
        then show ?thesis using a by blast
      qed
    next
      fix t
      assume a: "\<forall>t. s \<le> t \<and> t < s + Suc n \<longrightarrow>
          sampleIsOcean e sv sx sy ex ey d day steps t" and b: "Suc s \<le> t \<and> t < Suc s + n"
      have "s \<le> t \<and> t < s + Suc n" using b by simp
      then show "sampleIsOcean e sv sx sy ex ey d day steps t" using a by blast
    qed
    then show ?thesis using True Suc.IH [of "Suc s"] by simp
  qed
qed

lemma pathLoop_safe_end:
  "safe (pathLoop e sv sx sy ex ey d day steps s n) \<Longrightarrow>
   lastValidX (pathLoop e sv sx sy ex ey d day steps s n) = ex
   \<and> lastValidY (pathLoop e sv sx sy ex ey d day steps s n) = ey"
  by (induction n arbitrary: s) (auto split: if_splits)

lemma pathLoop_unsafe:
  "\<not> safe (pathLoop e sv sx sy ex ey d day steps s n) \<Longrightarrow>
   \<exists>t. s \<le> t \<and> t < s + n
     \<and> \<not> sampleIsOcean e sv sx sy ex ey d day steps t
     \<and> (\<forall>t'. s \<le> t' \<and> t' < t \<longrightarrow> sampleIsOcean e sv sx sy ex ey d day steps t')
     \<and> lastValidX (pathLoop e sv sx sy ex ey d day steps s n) = testX sx ex steps (t - 1)
     \<and> lastValidY (pathLoop e sv sx sy ex ey d day steps s n) = testX sy ey steps (t - 1)"
proof (induction n arbitrary: s)
  case 0
  then show ?case by simp
next
  case (Suc n)
  show ?case
  proof (cases "sampleIsOcean e sv sx sy ex ey d day steps s")
    case False
    then show ?thesis by (intro exI [of _ s]) auto
  next
    case True
    then have "\<not> safe (pathLoop e sv sx sy ex ey d day steps (Suc s) n)"
      using Suc.prems by simp
    then obtain t where t: "Suc s \<le> t" "t < Suc s + n"
      "\<not> sampleIsOcean e sv sx sy ex ey d day steps t"
      "\<forall>t'. Suc s \<le> t' \<and> t' < t \<longrightarrow> sampleIsOcean e sv sx sy ex ey d day steps t'"
      "lastValidX (pathLoop e sv sx sy ex ey d day steps (Suc s) n) = testX sx ex steps (t - 1)"
      "lastValidY (pathLoop e sv sx sy ex ey d day steps (Suc s) n) = testX sy ey steps (t - 1)"
      using Suc.IH [of "Suc s"] by blast
    have "\<forall>t'. s \<le> t' \<and> t' < t \<longrightarrow> sampleIsOcean e sv sx sy ex ey d day steps t'"
    proof (intro allI impI)
      fix t'
      assume b: "s \<le> t' \<and> t' < t"
      show "sampleIsOcean e sv sx sy ex ey d day steps t'"
      proof (cases "t' = s")
        case True
        then show ?thesis using \<open>sampleIsOcean e sv sx sy ex ey d day steps s\<close> by simp
      next
        case False
        then have "Suc s \<le> t' \<and> t' < t" using b by simp
        then show ?thesis using t(4) by blast
      qed
    qed
    then show ?thesis using t True by (intro exI [of _ t]) simp
  qed
qed

lemma checkPath_five:
  "(safe (checkPathToOcean e sv sx sy ex ey d day 5)
      = (\<forall>s \<in> {1..5}. sampleIsOcean e sv sx sy ex ey d day 5 s))
   \<and> (safe (checkPathToOcean e sv sx sy ex ey d day 5) \<longrightarrow>
        lastValidX (checkPathToOcean e sv sx sy ex ey d day 5) = ex
      \<and> lastValidY (checkPathToOcean e sv sx sy ex ey d day 5) = ey)
   \<and> (\<not> safe (checkPathToOcean e sv sx sy ex ey d day 5) \<longrightarrow>
        (\<exists>s \<in> {1..5}. \<not> sampleIsOcean e sv sx sy ex ey d day 5 s
           \<and> (\<forall>t \<in> {1..<s}. sampleIsOcean e sv sx sy ex ey d day 5 t)
           \<and> lastValidX (checkPathToOcean e sv sx sy ex ey d day 5) = testX sx ex 5 (s - 1)
           \<and> lastValidY (checkPathToOcean e sv sx sy ex ey d day 5) = testX sy ey 5 (s - 1)))"
proof (intro conjI impI)
  show "safe (checkPathToOcean e sv sx sy ex ey d day 5)
      = (\<forall>s \<in> {1..5}. sampleIsOcean e sv sx sy ex ey d day 5 s)"
    unfolding checkPathToOcean_def pathLoop_safe_iff by auto
next
  assume "safe (checkPathToOcean e sv sx sy ex ey d day 5)"
  then show "lastValidX (checkPathToOcean e sv sx sy ex ey d day 5) = ex"
    and "lastValidY (checkPathToOcean e sv sx sy ex ey d day 5) = ey"
    unfolding checkPathToOcean_def using pathLoop_safe_end by blast+
next
  assume "\<not> safe (checkPathToOcean e sv sx sy ex ey d day 5)"
  then obtain t where t: "1 \<le> t" "t < 1 + 5"
      "\<not> sampleIsOcean e sv sx sy ex ey d day 5 t"
      "\<forall>t'. 1 \<le> t' \<and> t' < t \<longrightarrow> sampleIsOcean e sv sx sy ex ey d day 5 t'"
      "lastValidX (pathLoop e sv sx sy ex ey d day 5 1 5) = testX sx ex 5 (t - 1)"
      "lastValidY (pathLoop e sv sx sy ex ey d day 5 1 5) = testX sy ey 5 (t - 1)"
    unfolding checkPathToOcean_def using pathLoop_unsafe [of e sv sx sy ex ey d day 5 1 5]
    by blast
  show "\<exists>s \<in> {1..5}. \<not> sampleIsOcean e sv sx sy ex ey d day 5 s
           \<and> (\<forall>t \<in> {1..<s}. sampleIsOcean e sv sx sy ex ey d day 5 t)
           \<and> lastValidX (checkPathToOcean e sv sx sy ex ey d day 5) = testX sx ex 5 (s - 1)
           \<and> lastValidY (checkPathToOcean e sv sx sy ex ey d day 5) = testX sy ey 5 (s - 1)"
    unfolding checkPathToOcean_def using t by (intro bexI [of _ t]) auto
qed


lemma exEngine_fields:
  "REFERENCE_LON exEngine = 142" "REFERENCE_LAT exEngine = 37"
  "LON_SCALE exEngine = 88.8" "LAT_SCALE exEngine = 111"
  "par_diffusivityScale (e_params exEngine) = 1"
  "diffusivityScale (tracer_behavior (e_tracer exEngine)) = 1"
  "rk4Enabled exEngine = False" "land_enabled exEngine = True"
  "verticalMixing (e_params exEngine) = True" "decayEnabled (e_params exEngine) = True"
  by (simp_all add: exEngine_def newEngine_def calculateParticleCalibration_def
      lookupTracer_def TracerLibrary_def cs137_def)

lemma exParticle_fields:
  "p_x exParticle = 0" "p_y exParticle = 0" "p_depth exParticle = 0"
  "p_velocityU exParticle = 0.3" "p_velocityV exParticle = 0" "p_age exParticle = 0"
  "p_mass exParticle = 1" "p_active exParticle = True"
  by (simp_all add: exParticle_def poolParticle_def)

lemma sqrt_51840000: "sqrt 51840000 = 7200"
  by (rule real_sqrt_unique) simp_all

lemma exDiffusion:
  "applyDiffusion exEngine exEke 1 0 1 0 exParticle = exParticle\<lparr>p_x := 7.2, p_y := 0\<rparr>"
  by (simp add: applyDiffusion_def exEke_def exEngine_fields exParticle_fields sqrt_51840000)

lemma exCoastPath:
  "checkPathToOcean exEngine exCoastServices 0 0 (36 / 5) 0 0 0 5
     = \<lparr>safe = False, lastValidX = 108 / 25, lastValidY = 0\<rparr>"
  by (simp add: checkPathToOcean_def eval_nat_numeral sampleIsOcean_def testX_def
      exCoastServices_def toLon_def toLat_def exEngine_fields)

text \<open>
  Claim C1 (as stated, refuted). A diffusion move from x = 0 to x = 7.2 km crosses the
  coast at its fourth sample; the last sample verified safe is at x = 4.32 km. The
  particle is put back at x = 0, where it was before the diffusion, and its stored
  velocity stays 0.3.
\<close>

theorem diffusion_reverts_to_start:
  "p_x (applyDiffusion exEngine exEke 1 0 1 0 exParticle) = 7.2
   \<and> safe (checkPathToOcean exEngine exCoastServices 0 0 7.2 0 0 0 5) = False
   \<and> lastValidX (checkPathToOcean exEngine exCoastServices 0 0 7.2 0 0 0 5) = 4.32
   \<and> p_x (diffuse exEngine exCoastServices 1 0 1 0 exParticle) = 0
   \<and> p_velocityU (diffuse exEngine exCoastServices 1 0 1 0 exParticle) = 0.3"
proof -
  have l: "svc_ekeLoader exCoastServices = Some exEke" by (simp add: exCoastServices_def)
  have "diffuse exEngine exCoastServices 1 0 1 0 exParticle
      = exParticle\<lparr>p_x := 36 / 5, p_y := 0, p_x := 0, p_y := 0\<rparr>"
    by (simp add: diffuse_def l exEngine_fields exDiffusion exParticle_fields exCoastPath
        Let_def)
  then show ?thesis by (simp add: exDiffusion exCoastPath exParticle_fields)
qed

lemma applyDiffusion_keeps:
  "p_velocityU (applyDiffusion e eke dd day g1 g2 p) = p_velocityU p"
  "p_velocityV (applyDiffusion e eke dd day g1 g2 p) = p_velocityV p"
  "p_depth (applyDiffusion e eke dd day g1 g2 p) = p_depth p"
  by (simp_all add: applyDiffusion_def Let_def split: option.split)

lemma advect_euler:
  assumes "\<not> (rk4Enabled e \<and> rk4_enabled (e_rk4Settings e))" "vel_found vel"
  shows "\<exists>p'. advect e sv dd day vel p = Some p'
     \<and> (safe (checkPathToOcean e sv (p_x p) (p_y p) (p_x p + vel_u vel * 86.4 * dd)
                (p_y p + vel_v vel * 86.4 * dd) (p_depth p) day 5) \<longrightarrow>
          p_x p' = p_x p + vel_u vel * 86.4 * dd \<and> p_y p' = p_y p + vel_v vel * 86.4 * dd)
     \<and> (\<not> safe (checkPathToOcean e sv (p_x p) (p_y p) (p_x p + vel_u vel * 86.4 * dd)
                (p_y p + vel_v vel * 86.4 * dd) (p_depth p) day 5) \<longrightarrow>
          p_x p' = lastValidX (checkPathToOcean e sv (p_x p) (p_y p)
                     (p_x p + vel_u vel * 86.4 * dd) (p_y p + vel_v vel * 86.4 * dd)
                     (p_depth p) day 5)
        \<and> p_y p' = lastValidY (checkPathToOcean e sv (p_x p) (p_y p)
                     (p_x p + vel_u vel * 86.4 * dd) (p_y p + vel_v vel * 86.4 * dd)
                     (p_depth p) day 5))"
  using assms by (auto simp: advect_def Let_def)

lemma advect_rk4:
  assumes "rk4Enabled e \<and> rk4_enabled (e_rk4Settings e)"
    "rk4Integrate e sv p dd day = Some r"
  shows "\<exists>p'. advect e sv dd day vel p = Some p'
     \<and> (safe (checkPathToOcean e sv (p_x p) (p_y p) (r_x r) (r_y r) (p_depth p) day 5) \<longrightarrow>
          p_x p' = r_x r \<and> p_y p' = r_y r)
     \<and> (\<not> safe (checkPathToOcean e sv (p_x p) (p_y p) (r_x r) (r_y r) (p_depth p) day 5) \<longrightarrow>
          p_x p' = lastValidX (checkPathToOcean e sv (p_x p) (p_y p) (r_x r) (r_y r)
                     (p_depth p) day 5)
        \<and> p_y p' = lastValidY (checkPathToOcean e sv (p_x p) (p_y p) (r_x r) (r_y r)
                     (p_depth p) day 5)
        \<and> p_velocityU p' = 0 \<and> p_velocityV p' = 0)"
  using assms by (auto simp: advect_def Let_def)

lemma diffuse_stage:
  assumes "svc_ekeLoader sv = Some eke" "par_diffusivityScale (e_params e) > 0.01"
  shows "(safe (checkPathToOcean e sv (p_x p) (p_y p)
              (p_x (applyDiffusion e eke dd day g1 g2 p))
              (p_y (applyDiffusion e eke dd day g1 g2 p)) (p_depth p) day 5) \<longrightarrow>
           diffuse e sv dd day g1 g2 p = applyDiffusion e eke dd day g1 g2 p)
     \<and> (\<not> safe (checkPathToOcean e sv (p_x p) (p_y p)
              (p_x (applyDiffusion e eke dd day g1 g2 p))
              (p_y (applyDiffusion e eke dd day g1 g2 p)) (p_depth p) day 5) \<longrightarrow>
           p_x (diffuse e sv dd day g1 g2 p) = p_x p
         \<and> p_y (diffuse e sv dd day g1 g2 p) = p_y p
         \<and> p_velocityU (diffuse e sv dd day g1 g2 p) = p_velocityU p
         \<and> p_velocityV (diffuse e sv dd day g1 g2 p) = p_velocityV p)"
  using assms by (simp add: diffuse_def Let_def applyDiffusion_keeps)


text \<open>
  Claim C1 (amended). The path check samples the 5 positions
  \<open>start + s * (end - start) / 5\<close>, \<open>s = 1..5\<close> (the fifth is the proposed position),
  in this order, and asks \<open>isOcean\<close> at each. It reports the move safe exactly when all
  5 samples are ocean, and otherwise reports the sampled position before the first
  failing sample (the start for \<open>s = 1\<close>). An advection move whose check fails leaves
  the particle at that reported position, and on the RK4 path zeroes the stored
  velocity; a diffusion move whose check fails puts the particle back at its position
  before the diffusion and leaves the stored velocity as it is. A move is kept only if
  all 5 samples are ocean.
\<close>

theorem path_safety_five_samples:
  "(safe (checkPathToOcean e sv sx sy ex ey d day 5)
      = (\<forall>s \<in> {1..5}. sampleIsOcean e sv sx sy ex ey d day 5 s))
   \<and> (safe (checkPathToOcean e sv sx sy ex ey d day 5) \<longrightarrow>
        lastValidX (checkPathToOcean e sv sx sy ex ey d day 5) = ex
      \<and> lastValidY (checkPathToOcean e sv sx sy ex ey d day 5) = ey)
   \<and> (\<not> safe (checkPathToOcean e sv sx sy ex ey d day 5) \<longrightarrow>
        (\<exists>s \<in> {1..5}. \<not> sampleIsOcean e sv sx sy ex ey d day 5 s
           \<and> (\<forall>t \<in> {1..<s}. sampleIsOcean e sv sx sy ex ey d day 5 t)
           \<and> lastValidX (checkPathToOcean e sv sx sy ex ey d day 5) = testX sx ex 5 (s - 1)
           \<and> lastValidY (checkPathToOcean e sv sx sy ex ey d day 5) = testX sy ey 5 (s - 1)))
   \<and> (\<not> (rk4Enabled e \<and> rk4_enabled (e_rk4Settings e)) \<longrightarrow> vel_found vel \<longrightarrow>
        (\<exists>p'. advect e sv dd day vel p = Some p'
          \<and> (safe (checkPathToOcean e sv (p_x p) (p_y p) (p_x p + vel_u vel * 86.4 * dd)
                (p_y p + vel_v vel * 86.4 * dd) (p_depth p) day 5) \<longrightarrow>
               p_x p' = p_x p + vel_u vel * 86.4 * dd
             \<and> p_y p' = p_y p + vel_v vel * 86.4 * dd)
          \<and> (\<not> safe (checkPathToOcean e sv (p_x p) (p_y p) (p_x p + vel_u vel * 86.4 * dd)
                (p_y p + vel_v vel * 86.4 * dd) (p_depth p) day 5) \<longrightarrow>
               p_x p' = lastValidX (checkPathToOcean e sv (p_x p) (p_y p)
                     (p_x p + vel_u vel * 86.4 * dd) (p_y p + vel_v vel * 86.4 * dd)
                     (p_depth p) day 5)
             \<and> p_y p' = lastValidY (checkPathToOcean e sv (p_x p) (p_y p)
                     (p_x p + vel_u vel * 86.4 * dd) (p_y p + vel_v vel * 86.4 * dd)
                     (p_depth p) day 5))))
   \<and> (rk4Enabled e \<and> rk4_enabled (e_rk4Settings e) \<longrightarrow>
       rk4Integrate e sv p dd day = Some r \<longrightarrow>
        (\<exists>p'. advect e sv dd day vel p = Some p'
          \<and> (safe (checkPathToOcean e sv (p_x p) (p_y p) (r_x r) (r_y r) (p_depth p) day 5)
               \<longrightarrow> p_x p' = r_x r \<and> p_y p' = r_y r)
          \<and> (\<not> safe (checkPathToOcean e sv (p_x p) (p_y p) (r_x r) (r_y r) (p_depth p) day 5)
               \<longrightarrow> p_x p' = lastValidX (checkPathToOcean e sv (p_x p) (p_y p) (r_x r) (r_y r)
                              (p_depth p) day 5)
                 \<and> p_y p' = lastValidY (checkPathToOcean e sv (p_x p) (p_y p) (r_x r) (r_y r)
                              (p_depth p) day 5)
                 \<and> p_velocityU p' = 0 \<and> p_velocityV p' = 0)))
   \<and> (svc_ekeLoader sv = Some eke \<longrightarrow> par_diffusivityScale (e_params e) > 0.01 \<longrightarrow>
        (safe (checkPathToOcean e sv (p_x p) (p_y p)
              (p_x (applyDiffusion e eke dd day g1 g2 p))
              (p_y (applyDiffusion e eke dd day g1 g2 p)) (p_depth p) day 5) \<longrightarrow>
           diffuse e sv dd day g1 g2 p = applyDiffusion e eke dd day g1 g2 p)
      \<and> (\<not> safe (checkPathToOcean e sv (p_x p) (p_y p)
              (p_x (applyDiffusion e eke dd day g1 g2 p))
              (p_y (applyDiffusion e eke dd day g1 g2 p)) (p_depth p) day 5) \<longrightarrow>
           p_x (diffuse e sv dd day g1 g2 p) = p_x p
         \<and> p_y (diffuse e sv dd day g1 g2 p) = p_y p
         \<and> p_velocityU (diffuse e sv dd day g1 g2 p) = p_velocityU p
         \<and> p_velocityV (diffuse e sv dd day g1 g2 p) = p_velocityV p))"
proof -
  note a = checkPath_five [of e sv sx sy ex ey d day]
  have c1: "safe (checkPathToOcean e sv sx sy ex ey d day 5)
      = (\<forall>s \<in> {1..5}. sampleIsOcean e sv sx sy ex ey d day 5 s)"
    using a by (rule conjunct1)
  have c2: "safe (checkPathToOcean e sv sx sy ex ey d day 5) \<longrightarrow>
        lastValidX (checkPathToOcean e sv sx sy ex ey d day 5) = ex
      \<and> lastValidY (checkPathToOcean e sv sx sy ex ey d day 5) = ey"
    using a [THEN conjunct2] by (rule conjunct1)
  have c3: "\<not> safe (checkPathToOcean e sv sx sy ex ey d day 5) \<longrightarrow>
        (\<exists>s \<in> {1..5}. \<not> sampleIsOcean e sv sx sy ex ey d day 5 s
           \<and> (\<forall>t \<in> {1..<s}. sampleIsOcean e sv sx sy ex ey d day 5 t)
           \<and> lastValidX (checkPathToOcean e sv sx sy ex ey d day 5) = testX sx ex 5 (s - 1)
           \<and> lastValidY (checkPathToOcean e sv sx sy ex ey d day 5) = testX sy ey 5 (s - 1))"
    using a [THEN conjunct2] by (rule conjunct2)
  show ?thesis
    apply (intro conjI)
         apply (rule c1)
        apply (rule c2)
       apply (rule c3)
      apply (intro impI, erule (1) advect_euler)
     apply (intro impI, erule (1) advect_rk4)
    apply (intro impI, erule (1) diffuse_stage)
    done
qed

theorem path_safety_five_samples_witness:
  "safe (checkPathToOcean exEngine exCoastServices 0 0 3 0 0 0 5)
   \<and> sampleIsOcean exEngine exCoastServices 0 0 3 0 0 0 5 1
   \<and> sampleIsOcean exEngine exCoastServices 0 0 3 0 0 0 5 5
   \<and> lastValidX (checkPathToOcean exEngine exCoastServices 0 0 3 0 0 0 5) = 3
   \<and> p_x (diffuse exEngine exCoastServices 1 0 1 0 exParticle) = p_x exParticle
   \<and> p_velocityU (diffuse exEngine exCoastServices 1 0 1 0 exParticle)
       = p_velocityU exParticle"
proof -
  note inst = path_safety_five_samples [of exEngine exCoastServices 0 0 3 0 0 0 noVelocity 1
      exParticle _ exEke 1 0]
  have s: "safe (checkPathToOcean exEngine exCoastServices 0 0 3 0 0 0 5)"
    by (simp add: checkPathToOcean_def eval_nat_numeral sampleIsOcean_def testX_def
        exCoastServices_def toLon_def toLat_def exEngine_fields)
  have l: "svc_ekeLoader exCoastServices = Some exEke" by (simp add: exCoastServices_def)
  have g: "par_diffusivityScale (e_params exEngine) > 0.01" by (simp add: exEngine_fields)
  have u: "\<not> safe (checkPathToOcean exEngine exCoastServices (p_x exParticle) (p_y exParticle)
              (p_x (applyDiffusion exEngine exEke 1 0 1 0 exParticle))
              (p_y (applyDiffusion exEngine exEke 1 0 1 0 exParticle))
              (p_depth exParticle) 0 5)"
    by (simp add: exDiffusion exParticle_fields exCoastPath)
  have "\<forall>s \<in> {1..5}. sampleIsOcean exEngine exCoastServices 0 0 3 0 0 0 5 s"
    using inst s by blast
  then have a: "sampleIsOcean exEngine exCoastServices 0 0 3 0 0 0 5 1
      \<and> sampleIsOcean exEngine exCoastServices 0 0 3 0 0 0 5 5"
    by simp
  have b: "lastValidX (checkPathToOcean exEngine exCoastServices 0 0 3 0 0 0 5) = 3"
    using inst s by blast
  have c: "p_x (diffuse exEngine exCoastServices 1 0 1 0 exParticle) = p_x exParticle
     \<and> p_velocityU (diffuse exEngine exCoastServices 1 0 1 0 exParticle)
         = p_velocityU exParticle"
    using inst l g u by blast
  show ?thesis using s a b c by blast
qed



section \<open>The depth band\<close>

lemma rk4Step_depth: "rk4Step e sv px py dpt h t = Some r \<Longrightarrow> s_depth r = dpt"
  by (auto simp: rk4Step_def Let_def split: if_splits)

lemma rk4Loop_depth:
  "rk4Loop e sv a day step n px py dpt tu tv = Some (qx, qy, qd, qu, qv) \<Longrightarrow> qd = dpt"
proof (induction n arbitrary: step px py tu tv)
  case 0
  then show ?case by simp
next
  case (Suc n)
  then show ?case
    by (auto split: option.splits dest!: rk4Step_depth)
qed

lemma eulerIntegrate_depth: "r_depth (eulerIntegrate e sv p dd day) = p_depth p"
  by (simp add: eulerIntegrate_def Let_def)

lemma rk4Integrate_depth:
  "rk4Integrate e sv p dd day = Some r \<Longrightarrow> r_depth r = p_depth p"
  by (auto simp: rk4Integrate_def Let_def eulerIntegrate_depth
      split: if_splits option.splits dest: rk4Loop_depth)

lemma advect_depth: "advect e sv dd day vel p = Some pa \<Longrightarrow> p_depth pa = p_depth p"
  by (auto simp: advect_def Let_def split: if_splits option.splits dest: rk4Integrate_depth)

lemma advect_web_depth: "advect_web e sv dd day vel p = Some pa \<Longrightarrow> p_depth pa = p_depth p"
  by (auto simp: advect_web_def Let_def split: if_splits option.splits
      dest: rk4Integrate_depth)

lemma applyDiffusion_depth:
  "p_depth (applyDiffusion e eke dd day g1 g2 p) = p_depth p"
  "p_depth (applyDiffusion_web e eke dd day g1 g2 p) = p_depth p"
  by (simp_all add: applyDiffusion_def applyDiffusion_web_def Let_def split: option.split)

lemma diffuse_depth: "p_depth (diffuse e sv dd day g1 g2 p) = p_depth p"
  by (simp add: diffuse_def Let_def applyDiffusion_depth split: option.split)

lemma diffuse_web_depth: "p_depth (diffuse_web e sv dd day g1 g2 p) = p_depth p"
  by (simp add: diffuse_web_def Let_def applyDiffusion_depth split: option.split)

lemma checkLand_depth:
  "p_depth (fst (checkLandInteraction e sv p prevX prevY prevDepth day)) = p_depth p
   \<or> p_depth (fst (checkLandInteraction e sv p prevX prevY prevDepth day)) = prevDepth"
  by (simp add: checkLandInteraction_def Let_def split: option.split)

lemma applyVerticalMotion_depth:
  "p_depth (snd (applyVerticalMotion g dt (e, p)))
     = max 0 (min (p_depth p + verticalDz e g dt p / 1000) 1)"
  by (simp add: applyVerticalMotion_def Let_def)

lemma applyVerticalMotion_web_depth:
  "p_depth (snd (applyVerticalMotion_web g dt (e, p)))
     = max 0 (min (p_depth p + verticalDz_web e g dt p / 1000) 1)"
  by (simp add: applyVerticalMotion_web_def Let_def)

lemma updateHistory_depth: "p_depth (updateHistory px py p) = p_depth p"
  by (simp add: updateHistory_def pushHistory_def Let_def)

lemma afterLandCheck_depth:
  "0 \<le> p_depth p \<Longrightarrow> p_depth p \<le> 1 \<Longrightarrow>
   0 \<le> p_depth (snd (afterLandCheck dd g3 px py (e, p)))
   \<and> p_depth (snd (afterLandCheck dd g3 px py (e, p))) \<le> 1"
  by (simp add: afterLandCheck_def Let_def updateHistory_depth applyVerticalMotion_def)

lemma afterLandCheck_web_depth:
  "0 \<le> p_depth p \<Longrightarrow> p_depth p \<le> 1 \<Longrightarrow>
   0 \<le> p_depth (snd (afterLandCheck_web dd g3 px py (e, p)))
   \<and> p_depth (snd (afterLandCheck_web dd g3 px py (e, p))) \<le> 1"
  by (simp add: afterLandCheck_web_def Let_def updateHistory_depth applyVerticalMotion_web_def)

lemma updateParticle_depth:
  assumes "0 \<le> p_depth p" "p_depth p \<le> 1"
    "updateParticle sv dd vel g1 g2 g3 (e, p) = Some (e', p')"
  shows "0 \<le> p_depth p' \<and> p_depth p' \<le> 1"
proof -
  obtain pa where pa: "advect e sv dd (simulationDays (e_stats e)) vel p = Some pa"
    using assms(3) by (auto simp: updateParticle_def Let_def split: option.splits)
  let ?pd = "diffuse e sv dd (simulationDays (e_stats e)) g1 g2 pa"
  let ?lc = "checkLandInteraction e sv ?pd (p_x p) (p_y p) (p_depth p)
               (simulationDays (e_stats e))"
  have d1: "p_depth ?pd = p_depth p" using advect_depth [OF pa] by (simp add: diffuse_depth)
  have d2: "p_depth (fst ?lc) = p_depth p"
    using checkLand_depth [of e sv ?pd "p_x p" "p_y p" "p_depth p"] d1 by auto
  show ?thesis
  proof (cases "snd ?lc")
    case True
    then have "p' = fst ?lc" using assms(3) pa by (simp add: updateParticle_def Let_def)
    then show ?thesis using d2 assms(1,2) by simp
  next
    case False
    then have "(e', p') = afterLandCheck dd g3 (p_x p) (p_y p) (e, fst ?lc)"
      using assms(3) pa by (simp add: updateParticle_def Let_def)
    then have "p' = snd (afterLandCheck dd g3 (p_x p) (p_y p) (e, fst ?lc))"
      by (metis snd_conv)
    then show ?thesis
      using afterLandCheck_depth [of "fst ?lc" dd g3 "p_x p" "p_y p" e] d2 assms(1,2)
      by simp
  qed
qed


lemma checkLand_web_depth:
  assumes "nonnegActualDepth sv" "0 \<le> p_depth p" "p_depth p \<le> 1"
    "0 \<le> prevDepth" "prevDepth \<le> 1"
  shows "0 \<le> p_depth (fst (checkLandInteraction_web e sv p prevX prevY prevDepth day))
       \<and> p_depth (fst (checkLandInteraction_web e sv p prevX prevY prevDepth day)) \<le> 1"
proof (cases "svc_findNearestOceanCell sv (toLon e (p_x p)) (toLat e (p_y p))
               (p_depth p * 1000) day (maxLandSearchRadius e)")
  case None
  then show ?thesis using assms(2-5) by (simp add: checkLandInteraction_web_def Let_def)
next
  case (Some oc)
  show ?thesis
  proof (cases oc)
    case None
    then show ?thesis
      using Some assms(2-5) by (simp add: checkLandInteraction_web_def Let_def)
  next
    case (Some c)
    have nn: "\<And>ad. oc_actualDepth c = Some ad \<Longrightarrow> 0 \<le> ad"
      using assms(1) \<open>svc_findNearestOceanCell sv (toLon e (p_x p)) (toLat e (p_y p))
               (p_depth p * 1000) day (maxLandSearchRadius e) = Some oc\<close> Some
      unfolding nonnegActualDepth_def by blast
    show ?thesis
    proof (cases "oc_actualDepth c")
      case None
      then show ?thesis
        using Some \<open>svc_findNearestOceanCell sv (toLon e (p_x p)) (toLat e (p_y p))
               (p_depth p * 1000) day (maxLandSearchRadius e) = Some oc\<close> assms(2-5)
        by (simp add: checkLandInteraction_web_def Let_def)
    next
      case ad: (Some ad)
      have "0 \<le> ad" using nn ad by blast
      then have "0 \<le> min prevDepth (ad / 1000 * 0.8)" "min prevDepth (ad / 1000 * 0.8) \<le> 1"
        using assms(4,5) by simp_all
      then show ?thesis
        using Some ad \<open>svc_findNearestOceanCell sv (toLon e (p_x p)) (toLat e (p_y p))
               (p_depth p * 1000) day (maxLandSearchRadius e) = Some oc\<close> assms(2-5)
        by (simp add: checkLandInteraction_web_def Let_def)
    qed
  qed
qed

lemma updateParticle_web_depth:
  assumes "0 \<le> p_depth p" "p_depth p \<le> 1" "nonnegActualDepth sv"
    "updateParticle_web sv dd vel g1 g2 g3 (e, p) = Some (e', p')"
  shows "0 \<le> p_depth p' \<and> p_depth p' \<le> 1"
proof -
  obtain pa where pa: "advect_web e sv dd (simulationDays (e_stats e)) vel p = Some pa"
    using assms(4) by (auto simp: updateParticle_web_def Let_def split: option.splits)
  let ?pd = "diffuse_web e sv dd (simulationDays (e_stats e)) g1 g2 pa"
  let ?lc = "checkLandInteraction_web e sv ?pd (p_x p) (p_y p) (p_depth p)
               (simulationDays (e_stats e))"
  have d1: "p_depth ?pd = p_depth p"
    using advect_web_depth [OF pa] by (simp add: diffuse_web_depth)
  have d2: "0 \<le> p_depth (fst ?lc) \<and> p_depth (fst ?lc) \<le> 1"
    by (rule checkLand_web_depth [OF assms(3)]) (simp_all add: d1 assms(1,2))
  show ?thesis
  proof (cases "snd ?lc")
    case True
    then have "p' = fst ?lc" using assms(4) pa by (simp add: updateParticle_web_def Let_def)
    then show ?thesis using d2 by simp
  next
    case False
    then have "(e', p') = afterLandCheck_web dd g3 (p_x p) (p_y p) (e, fst ?lc)"
      using assms(4) pa by (simp add: updateParticle_web_def Let_def)
    then have "p' = snd (afterLandCheck_web dd g3 (p_x p) (p_y p) (e, fst ?lc))"
      by (metis snd_conv)
    then show ?thesis
      using afterLandCheck_web_depth [of "fst ?lc" dd g3 "p_x p" "p_y p" e] d2 by simp
  qed
qed

lemma activate_depth: "p_depth (activate e lon lat m p) = 0"
  by (simp add: activate_def Let_def)

text \<open>
  Claim C7. The vertical-motion stage adds its displacement in metres divided by 1000
  to the depth and clamps the result to the interval from 0 to 1. Release sets the depth
  to 0; advection and diffusion leave it unchanged; the land check leaves it unchanged
  or restores the depth the particle had before the step. So an iteration of the update
  loop that starts with a depth between 0 and 1 ends with a depth between 0 and 1, in
  both variants of the engine (in the variant that moves a reverted particle towards
  the surface, for non-negative depth levels). The step and the vertical diffusivities
  are taken non-negative, so that every square root is that of a non-negative number.
\<close>

theorem depth_invariant:
  "0 \<le> deltaDays \<Longrightarrow> 0 \<le> mixedLayer_kz (e_kzProfile e) \<Longrightarrow>
   0 \<le> upperOcean_kz (e_kzProfile e) \<Longrightarrow> 0 \<le> deepOcean_kz (e_kzProfile e) \<Longrightarrow>
     p_depth (snd (applyVerticalMotion g3 (deltaDays * 86400) (e, p)))
       = max 0 (min (p_depth p + verticalDz e g3 (deltaDays * 86400) p / 1000) 1)
   \<and> p_depth (snd (applyVerticalMotion_web g3 (deltaDays * 86400) (e, p)))
       = max 0 (min (p_depth p + verticalDz_web e g3 (deltaDays * 86400) p / 1000) 1)
   \<and> p_depth (activate e lon lat m p) = 0
   \<and> (\<forall>pa. advect e sv deltaDays day vel p = Some pa \<longrightarrow> p_depth pa = p_depth p)
   \<and> p_depth (diffuse e sv deltaDays day g1 g2 p) = p_depth p
   \<and> (p_depth (fst (checkLandInteraction e sv p prevX prevY prevDepth day)) = p_depth p
      \<or> p_depth (fst (checkLandInteraction e sv p prevX prevY prevDepth day)) = prevDepth)
   \<and> (0 \<le> p_depth p \<longrightarrow> p_depth p \<le> 1 \<longrightarrow>
        (\<forall>e' p'. updateParticle sv deltaDays vel g1 g2 g3 (e, p) = Some (e', p') \<longrightarrow>
           0 \<le> p_depth p' \<and> p_depth p' \<le> 1))
   \<and> (0 \<le> p_depth p \<longrightarrow> p_depth p \<le> 1 \<longrightarrow> nonnegActualDepth sv \<longrightarrow>
        (\<forall>e' p'. updateParticle_web sv deltaDays vel g1 g2 g3 (e, p) = Some (e', p') \<longrightarrow>
           0 \<le> p_depth p' \<and> p_depth p' \<le> 1))"
  apply (intro conjI allI impI)
          apply (rule applyVerticalMotion_depth)
         apply (rule applyVerticalMotion_web_depth)
        apply (rule activate_depth)
       apply (erule advect_depth)
      apply (rule diffuse_depth)
     apply (rule checkLand_depth)
    apply (erule (2) updateParticle_depth [THEN conjunct1])
   apply (erule (2) updateParticle_depth [THEN conjunct2])
  apply (erule (3) updateParticle_web_depth [THEN conjunct1])
  apply (erule (3) updateParticle_web_depth [THEN conjunct2])
  done


lemma updateParticle_returns:
  "\<not> (rk4Enabled e \<and> rk4_enabled (e_rk4Settings e)) \<Longrightarrow>
   \<exists>e' p'. updateParticle sv dd vel g1 g2 g3 (e, p) = Some (e', p')"
  by (auto simp: updateParticle_def advect_def Let_def)

lemma exKz:
  "mixedLayer_kz (e_kzProfile exEngine) = 0.01" "upperOcean_kz (e_kzProfile exEngine) = 0.0001"
  "deepOcean_kz (e_kzProfile exEngine) = 0.00005"
  by (simp_all add: exEngine_def newEngine_def calculateParticleCalibration_def)

theorem depth_invariant_witness:
  "\<exists>e' p'. updateParticle exUniformServices 0.1
              \<lparr>vel_u = 0.1, vel_v = 0, vel_found = True\<rparr> 0 0 1 (exEngine, exParticle)
            = Some (e', p')
     \<and> 0 \<le> p_depth p' \<and> p_depth p' \<le> 1"
proof -
  let ?vel = "\<lparr>vel_u = 0.1, vel_v = 0, vel_found = True\<rparr>"
  obtain e' p' where up:
    "updateParticle exUniformServices 0.1 ?vel 0 0 1 (exEngine, exParticle) = Some (e', p')"
    using updateParticle_returns [of exEngine exUniformServices "0.1" ?vel 0 0 1 exParticle]
    by (auto simp: exEngine_fields)
  have d: "(0::real) \<le> 0.1" by simp
  have k1: "0 \<le> mixedLayer_kz (e_kzProfile exEngine)" by (simp add: exKz)
  have k2: "0 \<le> upperOcean_kz (e_kzProfile exEngine)" by (simp add: exKz)
  have k3: "0 \<le> deepOcean_kz (e_kzProfile exEngine)" by (simp add: exKz)
  note inst = depth_invariant [OF d k1 k2 k3, of 1 exParticle 0 0 1 exUniformServices 0 ?vel
      0 0 0 0 0]
  have "0 \<le> p_depth p' \<and> p_depth p' \<le> 1"
    using inst up by (simp add: exParticle_fields)
  then show ?thesis using up by blast
qed


section \<open>Aging and radioactive decay\<close>

text \<open>The update of one particle returns whenever RK4 is off or its step bounds are
  positive.\<close>

lemma rk4Integrate_returns:
  assumes "0 < minStepSize (e_rk4Settings e)" "0 < maxStepSize (e_rk4Settings e)"
  shows "\<exists>r. rk4Integrate e sv p deltaDays day = Some r"
proof (cases "0 < deltaDays")
  case True
  then have "0 < calculateOptimalStepSize e p deltaDays"
    using assms by (intro stepSize_pos)
  then have "calculateOptimalStepSize e p deltaDays \<noteq> 0" by simp
  then show ?thesis
    by (auto simp: rk4Integrate_def Let_def split: option.split prod.split)
next
  case False
  then show ?thesis
    by (auto simp: rk4Integrate_def Let_def split: option.split prod.split)
qed

lemma advect_returns:
  assumes "\<not> (rk4Enabled e \<and> rk4_enabled (e_rk4Settings e))
           \<or> 0 < minStepSize (e_rk4Settings e) \<and> 0 < maxStepSize (e_rk4Settings e)"
  shows "\<exists>pa. advect e sv deltaDays day vel p = Some pa"
proof (cases "rk4Enabled e \<and> rk4_enabled (e_rk4Settings e)")
  case True
  then obtain r where "rk4Integrate e sv p deltaDays day = Some r"
    using assms rk4Integrate_returns by blast
  then show ?thesis using True by (simp add: advect_def Let_def)
next
  case False
  then show ?thesis by (auto simp: advect_def Let_def)
qed

lemma advect_web_returns:
  assumes "\<not> (rk4Enabled e \<and> rk4_enabled (e_rk4Settings e))
           \<or> 0 < minStepSize (e_rk4Settings e) \<and> 0 < maxStepSize (e_rk4Settings e)"
  shows "\<exists>pa. advect_web e sv deltaDays day vel p = Some pa"
proof (cases "rk4Enabled e \<and> rk4_enabled (e_rk4Settings e)")
  case True
  then obtain r where "rk4Integrate e sv p deltaDays day = Some r"
    using assms rk4Integrate_returns by blast
  then show ?thesis using True by (simp add: advect_web_def Let_def)
next
  case False
  then show ?thesis by (auto simp: advect_web_def Let_def)
qed

lemma advect_web_keeps:
  "advect_web e sv dd day vel p = Some pa \<Longrightarrow>
   p_age pa = p_age p \<and> p_mass pa = p_mass p \<and> p_active pa = p_active p"
  by (auto simp: advect_web_def Let_def split: if_splits option.splits)

lemma diffuse_web_keeps:
  "p_age (diffuse_web e sv dd day g1 g2 p) = p_age p"
  "p_mass (diffuse_web e sv dd day g1 g2 p) = p_mass p"
  "p_active (diffuse_web e sv dd day g1 g2 p) = p_active p"
  by (simp_all add: diffuse_web_def applyDiffusion_web_def Let_def split: option.split)

lemma checkLand_web_keeps:
  "p_age (fst (checkLandInteraction_web e sv p px py pd day)) = p_age p"
  "p_mass (fst (checkLandInteraction_web e sv p px py pd day)) = p_mass p"
  "p_active (fst (checkLandInteraction_web e sv p px py pd day)) = p_active p"
  by (simp_all add: checkLandInteraction_web_def Let_def split: option.split)

lemma applyVerticalMotion_web_keeps:
  "p_age (snd (applyVerticalMotion_web g dt (e, p))) = p_age p"
  "p_mass (snd (applyVerticalMotion_web g dt (e, p))) = p_mass p"
  "p_active (snd (applyVerticalMotion_web g dt (e, p))) = p_active p"
  "e_params (fst (applyVerticalMotion_web g dt (e, p))) = e_params e"
  "halfLifeDays (fst (applyVerticalMotion_web g dt (e, p))) = halfLifeDays e"
  "totalDecayed (e_stats (fst (applyVerticalMotion_web g dt (e, p)))) = totalDecayed (e_stats e)"
  "particlesOnLand (e_stats (fst (applyVerticalMotion_web g dt (e, p))))
     = particlesOnLand (e_stats e)"
  by (simp_all add: applyVerticalMotion_web_def Let_def)

lemma updateHistory_keeps:
  "p_age (updateHistory px py p) = p_age p"
  "p_mass (updateHistory px py p) = p_mass p"
  "p_active (updateHistory px py p) = p_active p"
  by (simp_all add: updateHistory_def pushHistory_def Let_def)

lemma noteConcentration_keeps:
  "totalDecayed (e_stats (noteConcentration e c)) = totalDecayed (e_stats e)"
  "particlesOnLand (e_stats (noteConcentration e c)) = particlesOnLand (e_stats e)"
  by (simp_all add: noteConcentration_def)

lemma afterLandCheck_web_props:
  assumes "(e', p') = afterLandCheck_web dd g3 px py (e, p)"
  shows "p_age p' = p_age p + dd"
    and "decayEnabled (e_params e) \<longrightarrow> p_mass p' = p_mass p * 0.5 powr (dd / halfLifeDays e)"
    and "\<not> decayEnabled (e_params e) \<longrightarrow> p_mass p' = p_mass p"
    and "decayEnabled (e_params e) \<and> p_mass p' < 0.001 \<longrightarrow>
           \<not> p_active p' \<and> totalDecayed (e_stats e') = totalDecayed (e_stats e) + 1"
    and "\<not> (decayEnabled (e_params e) \<and> p_mass p' < 0.001) \<longrightarrow>
           p_active p' = p_active p \<and> totalDecayed (e_stats e') = totalDecayed (e_stats e)"
    and "particlesOnLand (e_stats e') = particlesOnLand (e_stats e)"
proof -
  let ?ep1 = "if verticalMixing (e_params e)
              then applyVerticalMotion_web g3 (dd * 86400) (e, p) else (e, p)"
  have k: "p_age (snd ?ep1) = p_age p" "p_mass (snd ?ep1) = p_mass p"
    "p_active (snd ?ep1) = p_active p" "e_params (fst ?ep1) = e_params e"
    "halfLifeDays (fst ?ep1) = halfLifeDays e"
    "totalDecayed (e_stats (fst ?ep1)) = totalDecayed (e_stats e)"
    "particlesOnLand (e_stats (fst ?ep1)) = particlesOnLand (e_stats e)"
    by (simp_all add: applyVerticalMotion_web_keeps)
  have e': "e' = fst (afterLandCheck_web dd g3 px py (e, p))"
    and p': "p' = snd (afterLandCheck_web dd g3 px py (e, p))"
    using assms by (metis fst_conv, metis snd_conv)
  show "p_age p' = p_age p + dd"
    unfolding p' using k
    by (simp add: afterLandCheck_web_def Let_def updateHistory_keeps)
  show "decayEnabled (e_params e) \<longrightarrow> p_mass p' = p_mass p * 0.5 powr (dd / halfLifeDays e)"
    unfolding p' using k
    by (simp add: afterLandCheck_web_def Let_def updateHistory_keeps)
  show "\<not> decayEnabled (e_params e) \<longrightarrow> p_mass p' = p_mass p"
    unfolding p' using k
    by (simp add: afterLandCheck_web_def Let_def updateHistory_keeps)
  show "decayEnabled (e_params e) \<and> p_mass p' < 0.001 \<longrightarrow>
           \<not> p_active p' \<and> totalDecayed (e_stats e') = totalDecayed (e_stats e) + 1"
    unfolding p' e' using k
    by (simp add: afterLandCheck_web_def Let_def updateHistory_keeps noteConcentration_keeps)
  show "\<not> (decayEnabled (e_params e) \<and> p_mass p' < 0.001) \<longrightarrow>
           p_active p' = p_active p \<and> totalDecayed (e_stats e') = totalDecayed (e_stats e)"
    unfolding p' e' using k
    by (simp add: afterLandCheck_web_def Let_def updateHistory_keeps noteConcentration_keeps)
  show "particlesOnLand (e_stats e') = particlesOnLand (e_stats e)"
    unfolding e' using k
    by (simp add: afterLandCheck_web_def Let_def noteConcentration_keeps)
qed


lemma advect_keeps:
  "advect e sv dd day vel p = Some pa \<Longrightarrow>
   p_age pa = p_age p \<and> p_mass pa = p_mass p \<and> p_active pa = p_active p"
  by (auto simp: advect_def Let_def split: if_splits option.splits)

lemma diffuse_keeps:
  "p_age (diffuse e sv dd day g1 g2 p) = p_age p"
  "p_mass (diffuse e sv dd day g1 g2 p) = p_mass p"
  "p_active (diffuse e sv dd day g1 g2 p) = p_active p"
  by (simp_all add: diffuse_def applyDiffusion_def Let_def split: option.split)

lemma checkLand_keeps:
  "p_age (fst (checkLandInteraction e sv p px py pd day)) = p_age p"
  "p_mass (fst (checkLandInteraction e sv p px py pd day)) = p_mass p"
  "p_active (fst (checkLandInteraction e sv p px py pd day)) = p_active p"
  by (simp_all add: checkLandInteraction_def Let_def split: option.split)

lemma applyVerticalMotion_keeps:
  "p_age (snd (applyVerticalMotion g dt (e, p))) = p_age p"
  "p_mass (snd (applyVerticalMotion g dt (e, p))) = p_mass p"
  "p_active (snd (applyVerticalMotion g dt (e, p))) = p_active p"
  "totalDecayed (e_stats (fst (applyVerticalMotion g dt (e, p)))) = totalDecayed (e_stats e)"
  "particlesOnLand (e_stats (fst (applyVerticalMotion g dt (e, p))))
     = particlesOnLand (e_stats e)"
  by (simp_all add: applyVerticalMotion_def Let_def)

lemma afterLandCheck_props:
  assumes "(e', p') = afterLandCheck dd g3 px py (e, p)"
  shows "p_age p' = p_age p + dd"
    and "p_mass p' = p_mass p"
    and "p_active p' = p_active p"
    and "totalDecayed (e_stats e') = totalDecayed (e_stats e)"
    and "particlesOnLand (e_stats e') = particlesOnLand (e_stats e)"
proof -
  let ?ep1 = "if verticalMixing (e_params e)
              then applyVerticalMotion g3 (dd * 86400) (e, p) else (e, p)"
  have k: "p_age (snd ?ep1) = p_age p" "p_mass (snd ?ep1) = p_mass p"
    "p_active (snd ?ep1) = p_active p"
    "totalDecayed (e_stats (fst ?ep1)) = totalDecayed (e_stats e)"
    "particlesOnLand (e_stats (fst ?ep1)) = particlesOnLand (e_stats e)"
    by (simp_all add: applyVerticalMotion_keeps)
  have e': "e' = fst (afterLandCheck dd g3 px py (e, p))"
    and p': "p' = snd (afterLandCheck dd g3 px py (e, p))"
    using assms by (metis fst_conv, metis snd_conv)
  show "p_age p' = p_age p + dd"
    unfolding p' using k by (simp add: afterLandCheck_def Let_def updateHistory_keeps)
  show "p_mass p' = p_mass p"
    unfolding p' using k by (simp add: afterLandCheck_def Let_def updateHistory_keeps)
  show "p_active p' = p_active p"
    unfolding p' using k by (simp add: afterLandCheck_def Let_def updateHistory_keeps)
  show "totalDecayed (e_stats e') = totalDecayed (e_stats e)"
    unfolding e' using k by (simp add: afterLandCheck_def Let_def noteConcentration_keeps)
  show "particlesOnLand (e_stats e') = particlesOnLand (e_stats e)"
    unfolding e' using k by (simp add: afterLandCheck_def Let_def noteConcentration_keeps)
qed

text \<open>The concentration reads the tracer, the mass and the age only.\<close>

lemma calculateConcentration_cong:
  "e_tracer e1 = e_tracer e \<Longrightarrow> p_tracerId q = p_tracerId p \<Longrightarrow> p_mass q = p_mass p \<Longrightarrow>
   p_age q = p_age p \<Longrightarrow> calculateConcentration e1 q = calculateConcentration e p"
  by (cases "TracerLibrary (p_tracerId p)") (simp_all add: calculateConcentration_def Let_def)

lemma advect_tracer: "advect e sv dd day vel p = Some pa \<Longrightarrow> p_tracerId pa = p_tracerId p"
  by (auto simp: advect_def Let_def split: if_splits option.splits)

lemma diffuse_tracer: "p_tracerId (diffuse e sv dd day g1 g2 p) = p_tracerId p"
  by (simp add: diffuse_def applyDiffusion_def Let_def split: option.split)

lemma checkLand_tracer:
  "p_tracerId (fst (checkLandInteraction e sv p px py pd day)) = p_tracerId p"
  by (simp add: checkLandInteraction_def Let_def split: option.split)

lemma applyVerticalMotion_tracer:
  "p_tracerId (snd (applyVerticalMotion g dt (e, p))) = p_tracerId p"
  "e_tracer (fst (applyVerticalMotion g dt (e, p))) = e_tracer e"
  by (simp_all add: applyVerticalMotion_def Let_def)

lemma updateHistory_concentration:
  "p_concentration (updateHistory px py p) = p_concentration p"
  by (simp add: updateHistory_def pushHistory_def Let_def)

lemma afterLandCheck_concentration:
  "p_concentration (snd (afterLandCheck dd g3 px py (e, p)))
     = calculateConcentration e (p\<lparr>p_age := p_age p + dd\<rparr>)"
proof -
  let ?ep1 = "if verticalMixing (e_params e)
              then applyVerticalMotion g3 (dd * 86400) (e, p) else (e, p)"
  have k: "p_age (snd ?ep1) = p_age p" "p_mass (snd ?ep1) = p_mass p"
    "p_tracerId (snd ?ep1) = p_tracerId p" "e_tracer (fst ?ep1) = e_tracer e"
    by (simp_all add: applyVerticalMotion_keeps applyVerticalMotion_tracer)
  have "p_concentration (snd (afterLandCheck dd g3 px py (e, p)))
      = calculateConcentration (fst ?ep1) ((snd ?ep1)\<lparr>p_age := p_age (snd ?ep1) + dd\<rparr>)"
    by (simp add: afterLandCheck_def Let_def updateHistory_concentration)
  also have "\<dots> = calculateConcentration e (p\<lparr>p_age := p_age p + dd\<rparr>)"
    by (rule calculateConcentration_cong) (simp_all add: k)
  finally show ?thesis .
qed

lemma calculateConcentration_decaying:
  assumes "TracerLibrary (p_tracerId p) = Some tr" "decay (tracer_behavior tr)"
    "halfLife tr \<noteq> 0"
  shows "calculateConcentration e p
     = p_mass p * 0.5 powr (p_age p / halfLife tr)
         / max ((2 * pi) powr 1.5 * orDefault (sigmaH (tracer_behavior tr)) 10000
                  * orDefault (sigmaH (tracer_behavior tr)) 10000
                  * orDefault (sigmaV (tracer_behavior tr)) 50) (10 ^ 9)"
proof -
  have "p_tracerId p \<noteq> []" using assms(1) by (auto simp: TracerLibrary_def)
  then show ?thesis using assms by (simp add: calculateConcentration_def Let_def)
qed

lemma exOceanStep:
  "updateParticle exUniformServices (11000)
          \<lparr>vel_u = 0.1, vel_v = 0, vel_found = True\<rparr> 0 0 1 (exEngine, exParticle)
        = Some (afterLandCheck (11000) 1 0 0
             (exEngine, exParticle\<lparr>p_x := 0.1 * 86.4 * (11000), p_y := 0,
                 p_velocityU := 0.1, p_velocityV := 0\<rparr>))"
  by (simp add: updateParticle_def advect_def diffuse_def checkLandInteraction_def
      checkPathToOcean_def eval_nat_numeral sampleIsOcean_def pathLoop.simps
      exUniformServices_def exEngine_fields exParticle_fields Let_def)

text \<open>
  Claim C4 (as stated, refuted). In the engine with the tracer library the stored mass
  never decays: Cs-137 decays with a half-life of 11000 days, and after a step of 11000
  days in open water the particle is not counted on land, has aged by 11000 days, still
  has mass 1 and is still active, and the total-decayed counter is still 0.
\<close>

theorem stored_mass_does_not_decay:
  "p_active exParticle \<and> p_age exParticle = 0 \<and> p_mass exParticle = 1
   \<and> decay (tracer_behavior (e_tracer exEngine))
   \<and> halfLife (e_tracer exEngine) = 11000
   \<and> particlesOnLand (e_stats exEngine) = 0 \<and> totalDecayed (e_stats exEngine) = 0
   \<and> map_option (\<lambda>ep. (p_age (snd ep), p_mass (snd ep), p_active (snd ep),
                         particlesOnLand (e_stats (fst ep)), totalDecayed (e_stats (fst ep))))
        (updateParticle exUniformServices 11000
           \<lparr>vel_u = 0.1, vel_v = 0, vel_found = True\<rparr> 0 0 1 (exEngine, exParticle))
       = Some (11000, 1, True, 0, 0)"
proof -
  let ?r = "afterLandCheck 11000 1 0 0
             (exEngine, exParticle\<lparr>p_x := 0.1 * 86.4 * 11000, p_y := 0,
                 p_velocityU := 0.1, p_velocityV := 0\<rparr>)"
  have st: "particlesOnLand (e_stats exEngine) = 0" "totalDecayed (e_stats exEngine) = 0"
    by (simp_all add: exEngine_def newEngine_def calculateParticleCalibration_def
        initialStats_def)
  have r: "p_age (snd ?r) = 11000" "p_mass (snd ?r) = 1" "p_active (snd ?r)"
    "totalDecayed (e_stats (fst ?r)) = 0" "particlesOnLand (e_stats (fst ?r)) = 0"
    using afterLandCheck_props [of "fst ?r" "snd ?r"] st
    by (simp_all add: exParticle_fields)
  have t: "decay (tracer_behavior (e_tracer exEngine))"
    "halfLife (e_tracer exEngine) = 11000"
    by (simp_all add: exEngine_def newEngine_def calculateParticleCalibration_def
        lookupTracer_def TracerLibrary_def cs137_def)
  show ?thesis
    using r t st by (simp add: exOceanStep exParticle_fields)
qed

text \<open>
  Claim C4 (amended). An update step of size \<open>deltaDays\<close> returns for every active
  particle when RK4 is off or its step bounds are positive. A particle the land check
  reverts is counted on land and keeps its age, mass and active flag; every other
  particle has its age increased by \<open>deltaDays\<close>. In \<open>web/particleEngine.js\<close>, when decay
  is enabled, the mass of such a particle is multiplied by \<open>0.5\<close> to the power
  \<open>deltaDays / halfLife\<close>; whenever decay is enabled and the resulting mass is below
  0.001 (a thousandth of the mass 1.0 a particle is released with), the particle is
  deactivated and the total-decayed counter is incremented by one; otherwise both are
  unchanged. In the engine with the tracer library the step leaves the stored mass, the
  active flag and the total-decayed counter unchanged, and for a decaying tracer of the
  library the decay enters the concentration only, which after the step is the mass
  times \<open>0.5\<close> to the power \<open>age / halfLife\<close>, at the new age, over the kernel volume.
\<close>

theorem aging_and_decay_after_land_check:
  "\<not> (rk4Enabled e \<and> rk4_enabled (e_rk4Settings e))
     \<or> 0 < minStepSize (e_rk4Settings e) \<and> 0 < maxStepSize (e_rk4Settings e) \<Longrightarrow>
   (\<exists>e' p'. updateParticle_web sv deltaDays vel g1 g2 g3 (e, p) = Some (e', p')
      \<and> (particlesOnLand (e_stats e') \<noteq> particlesOnLand (e_stats e) \<longrightarrow>
           particlesOnLand (e_stats e') = particlesOnLand (e_stats e) + 1
         \<and> p_age p' = p_age p \<and> p_mass p' = p_mass p \<and> p_active p' = p_active p
         \<and> totalDecayed (e_stats e') = totalDecayed (e_stats e))
      \<and> (particlesOnLand (e_stats e') = particlesOnLand (e_stats e) \<longrightarrow>
           p_age p' = p_age p + deltaDays
         \<and> (decayEnabled (e_params e) \<longrightarrow>
              p_mass p' = p_mass p * 0.5 powr (deltaDays / halfLifeDays e))
         \<and> (\<not> decayEnabled (e_params e) \<longrightarrow> p_mass p' = p_mass p)
         \<and> (decayEnabled (e_params e) \<and> p_mass p' < 0.001 \<longrightarrow>
              \<not> p_active p' \<and> totalDecayed (e_stats e') = totalDecayed (e_stats e) + 1)
         \<and> (\<not> (decayEnabled (e_params e) \<and> p_mass p' < 0.001) \<longrightarrow>
              p_active p' = p_active p
            \<and> totalDecayed (e_stats e') = totalDecayed (e_stats e))))
   \<and> (\<exists>e2 p2. updateParticle sv deltaDays vel g1 g2 g3 (e, p) = Some (e2, p2)
      \<and> (particlesOnLand (e_stats e2) \<noteq> particlesOnLand (e_stats e) \<longrightarrow>
           particlesOnLand (e_stats e2) = particlesOnLand (e_stats e) + 1
         \<and> p_age p2 = p_age p \<and> p_mass p2 = p_mass p \<and> p_active p2 = p_active p
         \<and> totalDecayed (e_stats e2) = totalDecayed (e_stats e))
      \<and> (particlesOnLand (e_stats e2) = particlesOnLand (e_stats e) \<longrightarrow>
           p_age p2 = p_age p + deltaDays \<and> p_mass p2 = p_mass p
         \<and> p_active p2 = p_active p
         \<and> totalDecayed (e_stats e2) = totalDecayed (e_stats e)
         \<and> (\<forall>tr. TracerLibrary (p_tracerId p) = Some tr \<longrightarrow>
               decay (tracer_behavior tr) \<longrightarrow> halfLife tr \<noteq> 0 \<longrightarrow>
               p_concentration p2
                 = p_mass p * 0.5 powr ((p_age p + deltaDays) / halfLife tr)
                     / max ((2 * pi) powr 1.5 * orDefault (sigmaH (tracer_behavior tr)) 10000
                              * orDefault (sigmaH (tracer_behavior tr)) 10000
                              * orDefault (sigmaV (tracer_behavior tr)) 50) (10 ^ 9))))"
proof -
  assume H: "\<not> (rk4Enabled e \<and> rk4_enabled (e_rk4Settings e))
     \<or> 0 < minStepSize (e_rk4Settings e) \<and> 0 < maxStepSize (e_rk4Settings e)"
  let ?day = "simulationDays (e_stats e)"
  have web: "\<exists>e' p'. updateParticle_web sv deltaDays vel g1 g2 g3 (e, p) = Some (e', p')
      \<and> (particlesOnLand (e_stats e') \<noteq> particlesOnLand (e_stats e) \<longrightarrow>
           particlesOnLand (e_stats e') = particlesOnLand (e_stats e) + 1
         \<and> p_age p' = p_age p \<and> p_mass p' = p_mass p \<and> p_active p' = p_active p
         \<and> totalDecayed (e_stats e') = totalDecayed (e_stats e))
      \<and> (particlesOnLand (e_stats e') = particlesOnLand (e_stats e) \<longrightarrow>
           p_age p' = p_age p + deltaDays
         \<and> (decayEnabled (e_params e) \<longrightarrow>
              p_mass p' = p_mass p * 0.5 powr (deltaDays / halfLifeDays e))
         \<and> (\<not> decayEnabled (e_params e) \<longrightarrow> p_mass p' = p_mass p)
         \<and> (decayEnabled (e_params e) \<and> p_mass p' < 0.001 \<longrightarrow>
              \<not> p_active p' \<and> totalDecayed (e_stats e') = totalDecayed (e_stats e) + 1)
         \<and> (\<not> (decayEnabled (e_params e) \<and> p_mass p' < 0.001) \<longrightarrow>
              p_active p' = p_active p
            \<and> totalDecayed (e_stats e') = totalDecayed (e_stats e)))"
  proof -
    obtain pa where pa: "advect_web e sv deltaDays ?day vel p = Some pa"
      using advect_web_returns [OF H] by blast
    let ?pd = "diffuse_web e sv deltaDays ?day g1 g2 pa"
    let ?lc = "checkLandInteraction_web e sv ?pd (p_x p) (p_y p) (p_depth p) ?day"
    have k: "p_age (fst ?lc) = p_age p" "p_mass (fst ?lc) = p_mass p"
      "p_active (fst ?lc) = p_active p"
      using advect_web_keeps [OF pa] by (simp_all add: checkLand_web_keeps diffuse_web_keeps)
    show ?thesis
    proof (cases "snd ?lc")
      case True
      then have up: "updateParticle_web sv deltaDays vel g1 g2 g3 (e, p)
          = Some (countOnLand e, fst ?lc)"
        using pa by (simp add: updateParticle_web_def Let_def)
      have c: "particlesOnLand (e_stats (countOnLand e)) = particlesOnLand (e_stats e) + 1"
        "totalDecayed (e_stats (countOnLand e)) = totalDecayed (e_stats e)"
        by (simp_all add: countOnLand_def)
      show ?thesis
        by (rule exI, rule exI, rule conjI, rule up) (simp add: c k)
    next
      case False
      let ?r = "afterLandCheck_web deltaDays g3 (p_x p) (p_y p) (e, fst ?lc)"
      have up: "updateParticle_web sv deltaDays vel g1 g2 g3 (e, p) = Some (fst ?r, snd ?r)"
        using False pa by (simp add: updateParticle_web_def Let_def)
      have eq: "(fst ?r, snd ?r) = ?r" by simp
      note props = afterLandCheck_web_props [OF eq, unfolded k]
      show ?thesis
        by (rule exI, rule exI, rule conjI, rule up) (use props in blast)
    qed
  qed
  have tracer: "\<exists>e2 p2. updateParticle sv deltaDays vel g1 g2 g3 (e, p) = Some (e2, p2)
      \<and> (particlesOnLand (e_stats e2) \<noteq> particlesOnLand (e_stats e) \<longrightarrow>
           particlesOnLand (e_stats e2) = particlesOnLand (e_stats e) + 1
         \<and> p_age p2 = p_age p \<and> p_mass p2 = p_mass p \<and> p_active p2 = p_active p
         \<and> totalDecayed (e_stats e2) = totalDecayed (e_stats e))
      \<and> (particlesOnLand (e_stats e2) = particlesOnLand (e_stats e) \<longrightarrow>
           p_age p2 = p_age p + deltaDays \<and> p_mass p2 = p_mass p
         \<and> p_active p2 = p_active p
         \<and> totalDecayed (e_stats e2) = totalDecayed (e_stats e)
         \<and> (\<forall>tr. TracerLibrary (p_tracerId p) = Some tr \<longrightarrow>
               decay (tracer_behavior tr) \<longrightarrow> halfLife tr \<noteq> 0 \<longrightarrow>
               p_concentration p2
                 = p_mass p * 0.5 powr ((p_age p + deltaDays) / halfLife tr)
                     / max ((2 * pi) powr 1.5 * orDefault (sigmaH (tracer_behavior tr)) 10000
                              * orDefault (sigmaH (tracer_behavior tr)) 10000
                              * orDefault (sigmaV (tracer_behavior tr)) 50) (10 ^ 9)))"
  proof -
    obtain pa where pa: "advect e sv deltaDays ?day vel p = Some pa"
      using advect_returns [OF H] by blast
    let ?pd = "diffuse e sv deltaDays ?day g1 g2 pa"
    let ?lc = "checkLandInteraction e sv ?pd (p_x p) (p_y p) (p_depth p) ?day"
    have k: "p_age (fst ?lc) = p_age p" "p_mass (fst ?lc) = p_mass p"
      "p_active (fst ?lc) = p_active p"
      using advect_keeps [OF pa] by (simp_all add: checkLand_keeps diffuse_keeps)
    have kt: "p_tracerId (fst ?lc) = p_tracerId p"
      using advect_tracer [OF pa] by (simp add: checkLand_tracer diffuse_tracer)
    show ?thesis
    proof (cases "snd ?lc")
      case True
      then have up: "updateParticle sv deltaDays vel g1 g2 g3 (e, p)
          = Some (countOnLand e, fst ?lc)"
        using pa by (simp add: updateParticle_def Let_def)
      have c: "particlesOnLand (e_stats (countOnLand e)) = particlesOnLand (e_stats e) + 1"
        "totalDecayed (e_stats (countOnLand e)) = totalDecayed (e_stats e)"
        by (simp_all add: countOnLand_def)
      show ?thesis
        by (rule exI, rule exI, rule conjI, rule up) (simp add: c k)
    next
      case False
      let ?r = "afterLandCheck deltaDays g3 (p_x p) (p_y p) (e, fst ?lc)"
      have up: "updateParticle sv deltaDays vel g1 g2 g3 (e, p) = Some (fst ?r, snd ?r)"
        using False pa by (simp add: updateParticle_def Let_def)
      have eq: "(fst ?r, snd ?r) = ?r" by simp
      note props = afterLandCheck_props [OF eq, unfolded k]
      have conc: "p_concentration (snd ?r)
          = p_mass p * 0.5 powr ((p_age p + deltaDays) / halfLife tr)
              / max ((2 * pi) powr 1.5 * orDefault (sigmaH (tracer_behavior tr)) 10000
                       * orDefault (sigmaH (tracer_behavior tr)) 10000
                       * orDefault (sigmaV (tracer_behavior tr)) 50) (10 ^ 9)"
        if tr: "TracerLibrary (p_tracerId p) = Some tr" "decay (tracer_behavior tr)"
          "halfLife tr \<noteq> 0" for tr
      proof -
        let ?q = "(fst ?lc)\<lparr>p_age := p_age (fst ?lc) + deltaDays\<rparr>"
        have "TracerLibrary (p_tracerId ?q) = Some tr" using tr(1) kt by simp
        then have "calculateConcentration e ?q
          = p_mass ?q * 0.5 powr (p_age ?q / halfLife tr)
              / max ((2 * pi) powr 1.5 * orDefault (sigmaH (tracer_behavior tr)) 10000
                       * orDefault (sigmaH (tracer_behavior tr)) 10000
                       * orDefault (sigmaV (tracer_behavior tr)) 50) (10 ^ 9)"
          using tr(2,3) by (rule calculateConcentration_decaying)
        then show ?thesis using k by (simp add: afterLandCheck_concentration)
      qed
      show ?thesis
        by (rule exI, rule exI, rule conjI, rule up) (use props conc in blast)
    qed
  qed
  show ?thesis using web tracer by blast
qed

lemma exHalfLife: "halfLifeDays exEngine = 30.17 * 365.25"
  by (simp add: exEngine_def newEngine_def calculateParticleCalibration_def)

lemma exTracer:
  "p_tracerId exParticle = ''cs137''" "TracerLibrary ''cs137'' = Some cs137"
  "decay (tracer_behavior cs137)" "halfLife cs137 = 11000"
  "sigmaH (tracer_behavior cs137) = 10000" "sigmaV (tracer_behavior cs137) = 50"
  by (simp_all add: exParticle_def poolParticle_def exEngine_def newEngine_def
      calculateParticleCalibration_def TracerLibrary_def cs137_def)

theorem aging_and_decay_after_land_check_witness:
  "(\<exists>e' p'. updateParticle_web exUniformServices (30.17 * 365.25)
              \<lparr>vel_u = 0.1, vel_v = 0, vel_found = True\<rparr> 0 0 1 (exEngine, exParticle)
            = Some (e', p')
      \<and> p_age p' = 30.17 * 365.25 \<and> p_mass p' = 0.5 \<and> p_active p')
   \<and> (\<exists>e2 p2. updateParticle exUniformServices 11000
              \<lparr>vel_u = 0.1, vel_v = 0, vel_found = True\<rparr> 0 0 1 (exEngine, exParticle)
            = Some (e2, p2)
      \<and> p_age p2 = 11000 \<and> p_mass p2 = 1 \<and> p_active p2
      \<and> p_concentration p2 = 0.5 / max ((2 * pi) powr 1.5 * 10000 * 10000 * 50) (10 ^ 9))"
proof -
  let ?dd = "30.17 * 365.25 :: real"
  let ?vel = "\<lparr>vel_u = 0.1, vel_v = 0, vel_found = True\<rparr>"
  let ?day = "simulationDays (e_stats exEngine)"
  have H: "\<not> (rk4Enabled exEngine \<and> rk4_enabled (e_rk4Settings exEngine))
     \<or> 0 < minStepSize (e_rk4Settings exEngine) \<and> 0 < maxStepSize (e_rk4Settings exEngine)"
    by (simp add: exEngine_fields)
  obtain pa where pa: "advect_web exEngine exUniformServices ?dd ?day ?vel exParticle = Some pa"
    by (simp add: advect_web_def exEngine_fields Let_def)
  let ?pd = "diffuse_web exEngine exUniformServices ?dd ?day 0 0 pa"
  let ?lc = "checkLandInteraction_web exEngine exUniformServices ?pd
               (p_x exParticle) (p_y exParticle) (p_depth exParticle) ?day"
  have lc: "?lc = (?pd, False)"
    by (simp add: checkLandInteraction_web_def exUniformServices_def Let_def)
  let ?r = "afterLandCheck_web ?dd 1 (p_x exParticle) (p_y exParticle) (exEngine, ?pd)"
  have up: "updateParticle_web exUniformServices ?dd ?vel 0 0 1 (exEngine, exParticle)
      = Some (fst ?r, snd ?r)"
    using pa lc by (simp add: updateParticle_web_def Let_def)
  have nl: "particlesOnLand (e_stats (fst ?r)) = particlesOnLand (e_stats exEngine)"
    by (rule afterLandCheck_web_props(6) [of "fst ?r" "snd ?r"]) simp
  obtain pb where pb: "advect exEngine exUniformServices 11000 ?day ?vel exParticle = Some pb"
    by (simp add: advect_def exEngine_fields Let_def)
  let ?qd = "diffuse exEngine exUniformServices 11000 ?day 0 0 pb"
  let ?lc2 = "checkLandInteraction exEngine exUniformServices ?qd
               (p_x exParticle) (p_y exParticle) (p_depth exParticle) ?day"
  have lc2: "?lc2 = (?qd, False)"
    by (simp add: checkLandInteraction_def exUniformServices_def Let_def)
  let ?s = "afterLandCheck 11000 1 (p_x exParticle) (p_y exParticle) (exEngine, ?qd)"
  have up2: "updateParticle exUniformServices 11000 ?vel 0 0 1 (exEngine, exParticle)
      = Some (fst ?s, snd ?s)"
    using pb lc2 by (simp add: updateParticle_def Let_def)
  have nl2: "particlesOnLand (e_stats (fst ?s)) = particlesOnLand (e_stats exEngine)"
    by (rule afterLandCheck_props(5) [of "fst ?s" "snd ?s"]) simp
  note inst1 = aging_and_decay_after_land_check [OF H, where sv = exUniformServices
      and deltaDays = ?dd and vel = ?vel and ?g1.0 = 0 and ?g2.0 = 0 and ?g3.0 = 1
      and p = exParticle, THEN conjunct1]
  note inst2 = aging_and_decay_after_land_check [OF H, where sv = exUniformServices
      and deltaDays = 11000 and vel = ?vel and ?g1.0 = 0 and ?g2.0 = 0 and ?g3.0 = 1
      and p = exParticle, THEN conjunct2]
  obtain e' p' where st: "updateParticle_web exUniformServices ?dd ?vel 0 0 1
        (exEngine, exParticle) = Some (e', p')"
    and aged: "particlesOnLand (e_stats e') = particlesOnLand (e_stats exEngine) \<longrightarrow>
           p_age p' = p_age exParticle + ?dd
         \<and> (decayEnabled (e_params exEngine) \<longrightarrow>
              p_mass p' = p_mass exParticle * 0.5 powr (?dd / halfLifeDays exEngine))
         \<and> (\<not> (decayEnabled (e_params exEngine) \<and> p_mass p' < 0.001) \<longrightarrow>
              p_active p' = p_active exParticle)"
    using inst1 by blast
  have e': "e' = fst ?r" using st up by (simp add: prod_eq_iff)
  have m: "p_mass p' = 0.5"
    using aged nl e' by (simp add: exEngine_fields exParticle_fields exHalfLife)
  have w: "p_age p' = ?dd \<and> p_mass p' = 0.5 \<and> p_active p'"
    using aged nl e' m by (simp add: exEngine_fields exParticle_fields)
  obtain e2 p2 where st2: "updateParticle exUniformServices 11000 ?vel 0 0 1
        (exEngine, exParticle) = Some (e2, p2)"
    and aged2: "particlesOnLand (e_stats e2) = particlesOnLand (e_stats exEngine) \<longrightarrow>
           p_age p2 = p_age exParticle + 11000 \<and> p_mass p2 = p_mass exParticle
         \<and> p_active p2 = p_active exParticle
         \<and> (\<forall>tr. TracerLibrary (p_tracerId exParticle) = Some tr \<longrightarrow>
               decay (tracer_behavior tr) \<longrightarrow> halfLife tr \<noteq> 0 \<longrightarrow>
               p_concentration p2
                 = p_mass exParticle * 0.5 powr ((p_age exParticle + 11000) / halfLife tr)
                     / max ((2 * pi) powr 1.5 * orDefault (sigmaH (tracer_behavior tr)) 10000
                              * orDefault (sigmaH (tracer_behavior tr)) 10000
                              * orDefault (sigmaV (tracer_behavior tr)) 50) (10 ^ 9))"
    using inst2 by blast
  have e2: "e2 = fst ?s" using st2 up2 by (simp add: prod_eq_iff)
  note ag = aged2 [rule_format, OF nl2 [folded e2]]
  have c: "p_concentration p2
      = p_mass exParticle * 0.5 powr ((p_age exParticle + 11000) / halfLife cs137)
          / max ((2 * pi) powr 1.5 * orDefault (sigmaH (tracer_behavior cs137)) 10000
                   * orDefault (sigmaH (tracer_behavior cs137)) 10000
                   * orDefault (sigmaV (tracer_behavior cs137)) 50) (10 ^ 9)"
    using ag exTracer by simp
  have t: "p_age p2 = 11000 \<and> p_mass p2 = 1 \<and> p_active p2
      \<and> p_concentration p2 = 0.5 / max ((2 * pi) powr 1.5 * 10000 * 10000 * 50) (10 ^ 9)"
    using ag c by (simp add: exParticle_fields exTracer orDefault_def)
  show ?thesis using st w st2 t by blast
qed

end
